(* ===== verification/Prelude.thy ===== *)
theory Prelude
  imports Main "HOL-Library.Word" "HOL-Library.Char_ord" "HOL-Library.List_Lexorder"
    "HOL-Library.Product_Lexorder" "HOL-Library.Option_ord" "HOL-Library.Monad_Syntax"
    "HOL-Library.Sublist" "HOL-Library.Multiset"
begin

text \<open>
  The vocabulary every component shares: bytes, fallible results, the saturating 64-bit
  counters of the scanner, ASCII classes, slice splitting, UTF-8, and the collections of
  simplification facts the component theories extend.

  A Rust byte slice and a Rust string are both lists of bytes here, and a byte is the
  eight-bit \<open>char\<close> of HOL, so the library's character order and the lexicographic order
  on lists are exactly the byte order \<open>[u8]::cmp\<close> that the program sorts by.
\<close>

type_synonym byte = char
type_synonym bytes = "char list"
type_synonym u64 = "64 word"

named_theorems result_simps
named_theorems u64_simps

section \<open>Fallible results\<close>

text \<open>\<open>Result<T, E>\<close> is a sum with the error on the left; \<open>rbind\<close> is the \<open>?\<close> operator.\<close>

type_synonym ('e, 'a) result = "'e + 'a"

definition rbind :: "('e, 'a) result \<Rightarrow> ('a \<Rightarrow> ('e, 'b) result) \<Rightarrow> ('e, 'b) result" where
  "rbind m f = (case m of Inl e \<Rightarrow> Inl e | Inr x \<Rightarrow> f x)"

lemma rbind_simps [simp, result_simps]:
  "rbind (Inl e) f = Inl e" "rbind (Inr x) f = f x"
  by (simp_all add: rbind_def)

lemma rbind_Inr_iff [result_simps]: "rbind m f = Inr y \<longleftrightarrow> (\<exists>x. m = Inr x \<and> f x = Inr y)"
  by (cases m) auto

lemma rbind_Inl_iff [result_simps]:
  "rbind m f = Inl e \<longleftrightarrow> m = Inl e \<or> (\<exists>x. m = Inr x \<and> f x = Inl e)"
  by (cases m) auto

lemma rbind_cong [fundef_cong]:
  "m = m' \<Longrightarrow> (\<And>x. m' = Inr x \<Longrightarrow> f x = f' x) \<Longrightarrow> rbind m f = rbind m' f'"
  by (cases m') auto

text \<open>A loop over a slice that stops at the first error.\<close>

fun rfold :: "('a \<Rightarrow> 's \<Rightarrow> ('e, 's) result) \<Rightarrow> 'a list \<Rightarrow> 's \<Rightarrow> ('e, 's) result" where
  "rfold f [] s = Inr s"
| "rfold f (x # xs) s = rbind (f x s) (rfold f xs)"

lemma rfold_append: "rfold f (xs @ ys) s = rbind (rfold f xs s) (rfold f ys)"
proof (induction xs arbitrary: s)
  case Nil
  then show ?case by simp
next
  case (Cons x xs)
  then show ?case by (cases "f x s") auto
qed

lemma rfold_invariant:
  assumes "rfold f xs s = Inr t" and "P s"
    and "\<And>x s s'. x \<in> set xs \<Longrightarrow> P s \<Longrightarrow> f x s = Inr s' \<Longrightarrow> P s'"
  shows "P t"
  using assms
proof (induction xs arbitrary: s)
  case Nil
  then show ?case by simp
next
  case (Cons x xs)
  from Cons.prems(1) obtain s' where s': "f x s = Inr s'" "rfold f xs s' = Inr t"
    by (auto simp: rbind_Inr_iff)
  then have "P s'" using Cons.prems(2,3) by auto
  then show ?case using Cons.IH [OF s'(2)] Cons.prems(3) by auto
qed

lemma rfold_total:
  assumes "\<And>x s. x \<in> set xs \<Longrightarrow> P s \<Longrightarrow> \<exists>s'. f x s = Inr s' \<and> P s'" and "P s"
  shows "\<exists>t. rfold f xs s = Inr t \<and> P t"
  using assms
proof (induction xs arbitrary: s)
  case Nil
  then show ?case by simp
next
  case (Cons x xs)
  then obtain s' where "f x s = Inr s'" "P s'" by (meson list.set_intros(1))
  with Cons show ?case by auto
qed

text \<open>A fallible map that stops at the first error, as \<open>collect::<Result<_, _>>\<close> does.\<close>

fun rmap :: "('a \<Rightarrow> ('e, 'b) result) \<Rightarrow> 'a list \<Rightarrow> ('e, 'b list) result" where
  "rmap f [] = Inr []"
| "rmap f (x # xs) = rbind (f x) (\<lambda>y. rbind (rmap f xs) (\<lambda>ys. Inr (y # ys)))"

lemma rmap_Inr_iff: "rmap f xs = Inr ys \<longleftrightarrow> list_all2 (\<lambda>x y. f x = Inr y) xs ys"
proof (induction xs arbitrary: ys)
  case Nil
  then show ?case by auto
next
  case (Cons x xs)
  then show ?case by (cases ys) (auto simp: rbind_Inr_iff)
qed

definition ok_or :: "'e \<Rightarrow> 'a option \<Rightarrow> ('e, 'a) result" where
  "ok_or e x = (case x of None \<Rightarrow> Inl e | Some v \<Rightarrow> Inr v)"

lemma ok_or_simps [simp]: "ok_or e None = Inl e" "ok_or e (Some v) = Inr v"
  by (simp_all add: ok_or_def)

lemma ok_or_Inr_iff [result_simps]: "ok_or e x = Inr v \<longleftrightarrow> x = Some v"
  by (cases x) auto

section \<open>Saturating words\<close>

definition saturating_add :: "'a::len word \<Rightarrow> 'a word \<Rightarrow> 'a word" where
  "saturating_add a b = (if unat a + unat b < 2 ^ LENGTH('a) then a + b else - 1)"

definition saturating_sub :: "'a::len word \<Rightarrow> 'a word \<Rightarrow> 'a word" where
  "saturating_sub a b = (if b \<le> a then a - b else 0)"

lemma unat_saturating_add [u64_simps]:
  "unat (saturating_add a (b :: 'a::len word)) = min (2 ^ LENGTH('a) - 1) (unat a + unat b)"
  by (auto simp: saturating_add_def unat_word_ariths unsigned_minus_1_eq_mask mask_eq_exp_minus_1 min_def)

lemma saturating_add_zero [simp]: "saturating_add a 0 = a" "saturating_add 0 a = a"
  by (simp_all add: saturating_add_def)

lemma unat_saturating_sub [u64_simps]:
  "unat (saturating_sub a b) = unat a - unat b"
  by (auto simp: saturating_sub_def unat_sub word_le_nat_alt)

lemma le_saturating_add: "a \<le> saturating_add a (b :: 'a::len word)"
proof -
  have "unat a < 2 ^ LENGTH('a)" by (rule unsigned_less)
  then have "unat a \<le> 2 ^ LENGTH('a) - 1" by linarith
  then show ?thesis by (simp add: word_le_nat_alt unat_saturating_add)
qed

text \<open>\<open>u64::try_from(usize).unwrap_or(u64::MAX)\<close>; a \<open>usize\<close> is a natural number here.\<close>

definition u64_of_usize :: "nat \<Rightarrow> u64" where
  "u64_of_usize n = (if n < 2 ^ 64 then of_nat n else - 1)"

lemma unat_u64_of_usize [u64_simps]: "unat (u64_of_usize n) = min (2 ^ 64 - 1) n"
  by (auto simp: u64_of_usize_def unat_of_nat unsigned_minus_1_eq_mask mask_eq_exp_minus_1 min_def)

definition u64_of_bool :: "bool \<Rightarrow> u64" where
  "u64_of_bool b = (if b then 1 else 0)"

lemma unat_u64_of_bool [u64_simps]: "unat (u64_of_bool b) = (if b then 1 else 0)"
  by (simp add: u64_of_bool_def)

section \<open>ASCII classes\<close>

definition is_ascii_digit :: "byte \<Rightarrow> bool" where
  "is_ascii_digit c = (CHR ''0'' \<le> c \<and> c \<le> CHR ''9'')"

definition is_ascii_lowercase :: "byte \<Rightarrow> bool" where
  "is_ascii_lowercase c = (CHR ''a'' \<le> c \<and> c \<le> CHR ''z'')"

definition is_ascii_uppercase :: "byte \<Rightarrow> bool" where
  "is_ascii_uppercase c = (CHR ''A'' \<le> c \<and> c \<le> CHR ''Z'')"

definition is_ascii_alphabetic :: "byte \<Rightarrow> bool" where
  "is_ascii_alphabetic c = (is_ascii_lowercase c \<or> is_ascii_uppercase c)"

definition is_ascii_alphanumeric :: "byte \<Rightarrow> bool" where
  "is_ascii_alphanumeric c = (is_ascii_alphabetic c \<or> is_ascii_digit c)"

definition is_ascii_hexdigit :: "byte \<Rightarrow> bool" where
  "is_ascii_hexdigit c = (is_ascii_digit c \<or> CHR ''a'' \<le> c \<and> c \<le> CHR ''f''
     \<or> CHR ''A'' \<le> c \<and> c \<le> CHR ''F'')"

definition is_ascii :: "byte \<Rightarrow> bool" where
  "is_ascii c = (of_char c < (128 :: nat))"

lemmas ascii_defs = is_ascii_digit_def is_ascii_lowercase_def is_ascii_uppercase_def
  is_ascii_alphabetic_def is_ascii_alphanumeric_def is_ascii_hexdigit_def is_ascii_def

definition to_ascii_lowercase :: "byte \<Rightarrow> byte" where
  "to_ascii_lowercase c = (if is_ascii_uppercase c then char_of (of_char c + (32 :: nat)) else c)"

lemma to_ascii_lowercase_id: "\<not> is_ascii_uppercase c \<Longrightarrow> to_ascii_lowercase c = c"
  by (simp add: to_ascii_lowercase_def)

abbreviation byte_nat :: "byte \<Rightarrow> nat" where
  "byte_nat c \<equiv> of_char c"

lemma byte_nat_less [simp]: "byte_nat c < 256"
  using nat_of_char_less_256 by simp

lemma byte_nat_inject [simp]: "byte_nat c = byte_nat d \<longleftrightarrow> c = d"
  by simp

lemma char_of_byte_nat [simp]: "n < 256 \<Longrightarrow> byte_nat (char_of n) = n"
  by (simp add: of_char_of)

section \<open>Slices\<close>

text \<open>\<open>slice::split\<close> on one separator: always at least one piece.\<close>

fun split_on :: "'a \<Rightarrow> 'a list \<Rightarrow> 'a list list" where
  "split_on s [] = [[]]"
| "split_on s (x # xs) =
     (if x = s then [] # split_on s xs
      else (x # hd (split_on s xs)) # tl (split_on s xs))"

lemma split_on_not_Nil [simp]: "split_on s xs \<noteq> []"
  by (cases xs) auto

lemma split_on_pieces: "p \<in> set (split_on s xs) \<Longrightarrow> s \<notin> set p"
proof (induction xs arbitrary: p)
  case Nil
  then show ?case by simp
next
  case (Cons x xs)
  have hd: "s \<notin> set (hd (split_on s xs))" by (rule Cons.IH) simp
  have tl: "q \<in> set (tl (split_on s xs)) \<Longrightarrow> s \<notin> set q" for q
    by (rule Cons.IH) (cases "split_on s xs"; simp)
  from Cons hd tl show ?case by (auto split: if_splits)
qed

lemma split_on_notin: "s \<notin> set p \<Longrightarrow> split_on s p = [p]"
  by (induction p) auto

lemma split_on_append: "s \<notin> set p \<Longrightarrow> split_on s (p @ s # xs) = p # split_on s xs"
  by (induction p) auto

text \<open>\<open>str::split_once\<close>: the text before and after the first separator.\<close>

fun split_once :: "'a \<Rightarrow> 'a list \<Rightarrow> ('a list \<times> 'a list) option" where
  "split_once s [] = None"
| "split_once s (x # xs) =
     (if x = s then Some ([], xs)
      else map_option (\<lambda>(a, b). (x # a, b)) (split_once s xs))"

lemma split_once_Some_iff:
  "split_once s xs = Some (a, b) \<longleftrightarrow> xs = a @ s # b \<and> s \<notin> set a"
proof (induction xs arbitrary: a)
  case Nil
  then show ?case by simp
next
  case (Cons x xs)
  then show ?case by (cases a) auto
qed

lemma split_once_None_iff: "split_once s xs = None \<longleftrightarrow> s \<notin> set xs"
  by (induction xs) auto

text \<open>\<open>str::strip_prefix\<close>.\<close>

fun strip_prefix :: "'a list \<Rightarrow> 'a list \<Rightarrow> 'a list option" where
  "strip_prefix [] ys = Some ys"
| "strip_prefix (x # xs) [] = None"
| "strip_prefix (x # xs) (y # ys) = (if x = y then strip_prefix xs ys else None)"

lemma strip_prefix_Some_iff: "strip_prefix p xs = Some r \<longleftrightarrow> xs = p @ r"
  by (induction p xs rule: strip_prefix.induct) auto

definition strip_suffix :: "'a list \<Rightarrow> 'a list \<Rightarrow> 'a list option" where
  "strip_suffix p xs = map_option rev (strip_prefix (rev p) (rev xs))"

lemma strip_suffix_Some_iff: "strip_suffix p xs = Some r \<longleftrightarrow> xs = r @ p"
proof
  assume "strip_suffix p xs = Some r"
  then obtain t where t: "strip_prefix (rev p) (rev xs) = Some t" "r = rev t"
    by (auto simp: strip_suffix_def)
  then have "rev xs = rev p @ t" by (simp add: strip_prefix_Some_iff)
  then have "xs = rev t @ p" by (metis rev_append rev_rev_ident)
  with t show "xs = r @ p" by simp
next
  assume "xs = r @ p"
  then show "strip_suffix p xs = Some r"
    by (auto simp: strip_suffix_def strip_prefix_Some_iff)
qed

text \<open>\<open>slice::get(i)\<close> and \<open>slice::get(i..j)\<close>, absent when out of range.\<close>

definition get_at :: "'a list \<Rightarrow> nat \<Rightarrow> 'a option" where
  "get_at xs i = (if i < length xs then Some (xs ! i) else None)"

definition get_range :: "'a list \<Rightarrow> nat \<Rightarrow> nat \<Rightarrow> 'a list option" where
  "get_range xs i j = (if i \<le> j \<and> j \<le> length xs then Some (take (j - i) (drop i xs)) else None)"

section \<open>UTF-8\<close>

text \<open>
  Decoding follows the well-formed byte sequences \<open>String::from_utf8\<close> accepts: no overlong
  form, no surrogate, nothing past U+10FFFF. A Unicode scalar value is a natural number.
\<close>

definition utf8_cont :: "byte \<Rightarrow> bool" where
  "utf8_cont b = (128 \<le> byte_nat b \<and> byte_nat b < 192)"

definition cont_bits :: "byte \<Rightarrow> nat" where
  "cont_bits b = byte_nat b - 128"

definition is_scalar :: "nat \<Rightarrow> bool" where
  "is_scalar n = (n < 55296 \<or> 57344 \<le> n \<and> n < 1114112)"

definition utf8_two :: "byte \<Rightarrow> byte \<Rightarrow> nat option" where
  "utf8_two a b =
     (let n = (byte_nat a - 192) * 64 + cont_bits b
      in if 192 \<le> byte_nat a \<and> byte_nat a < 224 \<and> utf8_cont b \<and> 128 \<le> n then Some n else None)"

definition utf8_three :: "byte \<Rightarrow> byte \<Rightarrow> byte \<Rightarrow> nat option" where
  "utf8_three a b c =
     (let n = (byte_nat a - 224) * 4096 + cont_bits b * 64 + cont_bits c
      in if 224 \<le> byte_nat a \<and> byte_nat a < 240 \<and> utf8_cont b \<and> utf8_cont c
           \<and> 2048 \<le> n \<and> is_scalar n then Some n else None)"

definition utf8_four :: "byte \<Rightarrow> byte \<Rightarrow> byte \<Rightarrow> byte \<Rightarrow> nat option" where
  "utf8_four a b c d =
     (let n = (byte_nat a - 240) * 262144 + cont_bits b * 4096 + cont_bits c * 64 + cont_bits d
      in if 240 \<le> byte_nat a \<and> byte_nat a < 248 \<and> utf8_cont b \<and> utf8_cont c \<and> utf8_cont d
           \<and> 65536 \<le> n \<and> is_scalar n then Some n else None)"

definition utf8_next :: "bytes \<Rightarrow> (nat \<times> bytes) option" where
  "utf8_next b =
     (case b of
        a # r \<Rightarrow> if byte_nat a < 128 then Some (byte_nat a, r)
          else (case r of
            b # r1 \<Rightarrow> (case utf8_two a b of Some n \<Rightarrow> Some (n, r1)
              | None \<Rightarrow> (case r1 of
                  c # r2 \<Rightarrow> (case utf8_three a b c of Some n \<Rightarrow> Some (n, r2)
                    | None \<Rightarrow> (case r2 of
                        d # r3 \<Rightarrow> map_option (\<lambda>n. (n, r3)) (utf8_four a b c d)
                      | [] \<Rightarrow> None))
                | [] \<Rightarrow> None))
          | [] \<Rightarrow> None)
      | [] \<Rightarrow> None)"

lemma utf8_next_shrinks: "utf8_next b = Some (n, r) \<Longrightarrow> length r < length b"
  by (auto simp: utf8_next_def split: list.splits if_splits option.splits)

lemma utf8_next_scalar: "utf8_next b = Some (n, r) \<Longrightarrow> is_scalar n"
  by (auto simp: utf8_next_def utf8_two_def utf8_three_def utf8_four_def utf8_cont_def
      cont_bits_def is_scalar_def Let_def split: list.splits if_splits option.splits)

function utf8_decode :: "bytes \<Rightarrow> nat list option" where
  "utf8_decode b =
     (if b = [] then Some []
      else case utf8_next b of
        None \<Rightarrow> None
      | Some (n, r) \<Rightarrow> map_option ((#) n) (utf8_decode r))"
  by pat_completeness auto
termination
  by (relation "measure length") (auto dest: utf8_next_shrinks)

declare utf8_decode.simps [simp del]

lemma utf8_decode_Nil [simp]: "utf8_decode [] = Some []"
  by (simp add: utf8_decode.simps)

lemma utf8_decode_ascii [simp]:
  "byte_nat a < 128 \<Longrightarrow> utf8_decode (a # r) = map_option ((#) (byte_nat a)) (utf8_decode r)"
  by (simp add: utf8_decode.simps [of "a # r"] utf8_next_def)

definition utf8_valid :: "bytes \<Rightarrow> bool" where
  "utf8_valid b = (utf8_decode b \<noteq> None)"

lemma utf8_decode_scalars: "utf8_decode b = Some cs \<Longrightarrow> c \<in> set cs \<Longrightarrow> is_scalar c"
proof (induction b arbitrary: cs rule: utf8_decode.induct)
  case (1 b)
  then show ?case
    by (subst (asm) (2) utf8_decode.simps)
       (auto dest: utf8_next_scalar split: if_splits option.splits)
qed

lemma utf8_valid_ascii: "list_all is_ascii b \<Longrightarrow> utf8_valid b"
  unfolding utf8_valid_def by (induction b) (auto simp: is_ascii_def)

end
