(* ===== verification/Btree.thy ===== *)
theory Btree
  imports Prelude
begin

text \<open>
  Ordered maps. The program keeps its indexes in \<open>std::collections::BTreeMap\<close>, whose
  iteration order is observable in every report. A map is a strictly sorted association
  list; \<open>btree_alter\<close> is the entry API (\<open>entry(k).or_insert\<close>, \<open>and_modify\<close>, \<open>insert\<close>),
  and lookup is \<open>map_of\<close>. The locale \<open>ordered_map\<close> is the contract clients rely on; the
  facts about loops that build an index are proved once inside it.
\<close>

type_synonym ('k, 'v) btree = "('k \<times> 'v) list"

definition btree_ok :: "('k::linorder, 'v) btree \<Rightarrow> bool" where
  "btree_ok m = sorted_wrt (<) (map fst m)"

fun btree_alter :: "'k::linorder \<Rightarrow> ('v option \<Rightarrow> 'v) \<Rightarrow> ('k, 'v) btree \<Rightarrow> ('k, 'v) btree" where
  "btree_alter k g [] = [(k, g None)]"
| "btree_alter k g ((a, v) # m) =
     (if k < a then (k, g None) # (a, v) # m
      else if k = a then (a, g (Some v)) # m
      else (a, v) # btree_alter k g m)"

definition btree_insert :: "'k::linorder \<Rightarrow> 'v \<Rightarrow> ('k, 'v) btree \<Rightarrow> ('k, 'v) btree" where
  "btree_insert k v m = btree_alter k (\<lambda>_. v) m"

text \<open>\<open>entry(k).or_default().push(x)\<close>.\<close>

definition btree_push :: "'k::linorder \<Rightarrow> 'v \<Rightarrow> ('k, 'v list) btree \<Rightarrow> ('k, 'v list) btree" where
  "btree_push k x m = btree_alter k (\<lambda>old. (case old of None \<Rightarrow> [] | Some xs \<Rightarrow> xs) @ [x]) m"

text \<open>\<open>entry(k).or_insert(v)\<close>: the first value for a key stays.\<close>

definition btree_or_insert :: "'k::linorder \<Rightarrow> 'v \<Rightarrow> ('k, 'v) btree \<Rightarrow> ('k, 'v) btree" where
  "btree_or_insert k v m = btree_alter k (\<lambda>old. case old of None \<Rightarrow> v | Some w \<Rightarrow> w) m"

definition contains_key :: "('k, 'v) btree \<Rightarrow> 'k \<Rightarrow> bool" where
  "contains_key m k = (map_of m k \<noteq> None)"

section \<open>The contract of an ordered map\<close>

locale ordered_map =
  fixes empty :: "'m"
    and alter :: "'k::linorder \<Rightarrow> ('v option \<Rightarrow> 'v) \<Rightarrow> 'm \<Rightarrow> 'm"
    and lookup :: "'m \<Rightarrow> 'k \<Rightarrow> 'v option"
    and entries :: "'m \<Rightarrow> ('k \<times> 'v) list"
    and invar :: "'m \<Rightarrow> bool"
  assumes lookup_empty: "lookup empty k = None"
    and lookup_alter:
      "invar m \<Longrightarrow> lookup (alter k g m) = (lookup m)(k \<mapsto> g (lookup m k))"
    and invar_empty: "invar empty"
    and invar_alter: "invar m \<Longrightarrow> invar (alter k g m)"
    and entries_sorted: "invar m \<Longrightarrow> sorted_wrt (<) (map fst (entries m))"
    and entries_lookup: "invar m \<Longrightarrow> map_of (entries m) = lookup m"
begin

lemma invar_fold_alter: "invar m \<Longrightarrow> invar (fold (\<lambda>x. alter (key x) (g x)) xs m)"
  by (induction xs arbitrary: m) (simp_all add: invar_alter)

lemma lookup_fold_alter:
  "invar m \<Longrightarrow> lookup (fold (\<lambda>x. alter (key x) (g x)) xs m) k
     = fold (\<lambda>x old. Some (g x old)) (filter (\<lambda>x. key x = k) xs) (lookup m k)"
  by (induction xs arbitrary: m) (simp_all add: invar_alter lookup_alter)

lemma lookup_fold_insert:
  assumes "invar m"
  shows "lookup (fold (\<lambda>x. alter (key x) (\<lambda>_. v x)) xs m) k
     = (case filter (\<lambda>x. key x = k) xs of [] \<Rightarrow> lookup m k
        | y # ys \<Rightarrow> Some (v (last (y # ys))))"
proof -
  have "fold (\<lambda>x old. Some (v x)) zs s = (case zs of [] \<Rightarrow> s | y # ys \<Rightarrow> Some (v (last zs)))"
    for zs s
    by (induction zs arbitrary: s) (auto split: list.splits)
  then show ?thesis using lookup_fold_alter [OF assms, of key "\<lambda>x _. v x"] by (simp split: list.splits)
qed

lemma lookup_fold_group:
  assumes "invar m"
  shows "lookup (fold (\<lambda>x. alter (key x) (h x)) xs m) k =
     (if filter (\<lambda>x. key x = k) xs = [] then lookup m k
      else Some (fold (\<lambda>x acc. h x (Some acc)) (tl (filter (\<lambda>x. key x = k) xs))
             (h (hd (filter (\<lambda>x. key x = k) xs)) (lookup m k))))"
proof -
  have some: "fold (\<lambda>x old. Some (h x old)) zs (Some a) = Some (fold (\<lambda>x acc. h x (Some acc)) zs a)"
    for zs a
    by (induction zs arbitrary: a) auto
  show ?thesis
    by (cases "filter (\<lambda>x. key x = k) xs") (simp_all add: lookup_fold_alter [OF assms] some)
qed

lemma distinct_entries: "invar m \<Longrightarrow> distinct (map fst (entries m))"
  using entries_sorted strict_sorted_iff by blast

lemma mem_entries_iff: "invar m \<Longrightarrow> (k, v) \<in> set (entries m) \<longleftrightarrow> lookup m k = Some v"
  using distinct_entries entries_lookup by (metis map_of_eq_Some_iff)

end

section \<open>Strictly sorted association lists meet it\<close>

lemma btree_ok_simps [simp]:
  "btree_ok []"
  "btree_ok ((k, v) # m) \<longleftrightarrow> (\<forall>a \<in> fst ` set m. k < a) \<and> btree_ok m"
  by (auto simp: btree_ok_def)

lemma fst_set_btree_alter: "fst ` set (btree_alter k g m) = insert k (fst ` set m)"
  by (induction k g m rule: btree_alter.induct) auto

lemma btree_ok_alter: "btree_ok m \<Longrightarrow> btree_ok (btree_alter k g m)"
  by (induction k g m rule: btree_alter.induct) (auto simp: fst_set_btree_alter)

lemma map_of_btree_alter:
  "btree_ok m \<Longrightarrow> map_of (btree_alter k g m) = (map_of m)(k \<mapsto> g (map_of m k))"
proof (induction k g m rule: btree_alter.induct)
  case (1 k g)
  then show ?case by simp
next
  case (2 k g a v m)
  have "k < a \<Longrightarrow> map_of m k = None"
    using "2.prems" by (force simp: map_of_eq_None_iff)
  with 2 show ?case by (auto simp: fun_eq_iff)
qed

interpretation btree: ordered_map "[]" btree_alter map_of "\<lambda>m. m" btree_ok
  by unfold_locales
    (auto simp: map_of_btree_alter btree_ok_alter simp flip: btree_ok_def)

lemma btree_ok_insert [simp]: "btree_ok m \<Longrightarrow> btree_ok (btree_insert k v m)"
  and btree_ok_push [simp]: "btree_ok m' \<Longrightarrow> btree_ok (btree_push k x m')"
  and btree_ok_or_insert [simp]: "btree_ok m \<Longrightarrow> btree_ok (btree_or_insert k v m)"
  by (simp_all add: btree_insert_def btree_push_def btree_or_insert_def btree.invar_alter)

lemma map_of_btree_insert [simp]:
  "btree_ok m \<Longrightarrow> map_of (btree_insert k v m) = (map_of m)(k \<mapsto> v)"
  by (simp add: btree_insert_def btree.lookup_alter)

lemma map_of_btree_push [simp]:
  "btree_ok m \<Longrightarrow> map_of (btree_push k x m) =
     (map_of m)(k \<mapsto> (case map_of m k of None \<Rightarrow> [] | Some xs \<Rightarrow> xs) @ [x])"
  by (simp add: btree_push_def btree.lookup_alter)

lemma map_of_btree_or_insert [simp]:
  "btree_ok m \<Longrightarrow> map_of (btree_or_insert k v m) =
     (map_of m)(k \<mapsto> (case map_of m k of None \<Rightarrow> v | Some w \<Rightarrow> w))"
  by (simp add: btree_or_insert_def btree.lookup_alter)

text \<open>An index built by pushing is the grouping of its input by key, in input order.\<close>

lemma btree_ok_fold_push:
  "btree_ok m \<Longrightarrow> btree_ok (fold (\<lambda>x. btree_push (key x) (val x)) xs m)"
  unfolding btree_push_def by (rule btree.invar_fold_alter)

lemma map_of_fold_push:
  "btree_ok m \<Longrightarrow> map_of (fold (\<lambda>x. btree_push (key x) (val x)) xs m) k =
     (let ys = map val (filter (\<lambda>x. key x = k) xs)
      in if ys = [] then map_of m k
         else Some ((case map_of m k of None \<Rightarrow> [] | Some zs \<Rightarrow> zs) @ ys))"
  by (induction xs arbitrary: m) (auto simp: Let_def split: option.splits)

lemma btree_keys_eq:
  "btree_ok m \<Longrightarrow> btree_ok m' \<Longrightarrow> fst ` set m = fst ` set m' \<Longrightarrow> map fst m = map fst m'"
  by (metis btree_ok_def image_set sorted_list_of_set.idem_if_sorted_distinct strict_sorted_iff)

lemma btree_entries_iff: "btree_ok m \<Longrightarrow> (k, v) \<in> set m \<longleftrightarrow> map_of m k = Some v"
  by (rule btree.mem_entries_iff)

end
