(* ===== verification/Wire_Path.thy ===== *)
theory Wire_Path
  imports Btree
begin

text \<open>
  Repository paths, \<open>crates/amiss-wire/src/model/path.rs\<close>. A path is admitted by a
  byte-at-a-time scanner and then held as text when its bytes are UTF-8 and as raw bytes
  otherwise. The scanner is shown to accept exactly the paths whose segments are real
  names, and construction is shown to give each byte string one representation, so the
  byte string alone can stand for the path: the scan theories use \<open>rpath\<close> for it.
\<close>

section \<open>The byte grammar\<close>

datatype segment = SegEmpty | SegDot | SegDotDot | SegNamed

fun path_scan :: "segment \<Rightarrow> bytes \<Rightarrow> bool" where
  "path_scan seg [] = (seg = SegNamed)"
| "path_scan seg (b # rest) =
     (if b = CHR ''/'' \<and> seg = SegNamed then path_scan SegEmpty rest
      else if b = CHR 0x00 \<or> b = CHR 0x5C \<or> b = CHR ''/'' then False
      else if b = CHR ''.'' then
        path_scan (case seg of SegEmpty \<Rightarrow> SegDot | SegDot \<Rightarrow> SegDotDot
                   | SegDotDot \<Rightarrow> SegNamed | SegNamed \<Rightarrow> SegNamed) rest
      else path_scan SegNamed rest)"

definition path_bytes_valid :: "bytes \<Rightarrow> bool" where
  "path_bytes_valid raw =
     (if raw = [] \<or> 4096 < length raw then False else path_scan SegEmpty raw)"

text \<open>The state after reading a partial segment.\<close>

definition segment_state :: "bytes \<Rightarrow> segment" where
  "segment_state p = (if p = [] then SegEmpty else if p = ''.'' then SegDot
     else if p = ''..'' then SegDotDot else SegNamed)"

definition real_name :: "bytes \<Rightarrow> bool" where
  "real_name seg = (seg \<noteq> [] \<and> seg \<noteq> ''.'' \<and> seg \<noteq> ''..'')"

lemma segment_state_named: "segment_state p = SegNamed \<longleftrightarrow> real_name p"
  by (auto simp: segment_state_def real_name_def)

lemma segment_state_snoc:
  "segment_state (p @ [b]) =
     (if b = CHR ''.'' then
        (case segment_state p of SegEmpty \<Rightarrow> SegDot | SegDot \<Rightarrow> SegDotDot
         | SegDotDot \<Rightarrow> SegNamed | SegNamed \<Rightarrow> SegNamed)
      else SegNamed)"
  by (auto simp: segment_state_def append_eq_Cons_conv split: list.splits)

lemma path_scan_iff:
  assumes "CHR ''/'' \<notin> set p"
  shows "path_scan (segment_state p) xs \<longleftrightarrow>
     CHR 0x00 \<notin> set xs \<and> CHR 0x5C \<notin> set xs
     \<and> list_all real_name (split_on (CHR ''/'') (p @ xs))"
  using assms
proof (induction xs arbitrary: p)
  case Nil
  then show ?case by (simp add: split_on_notin segment_state_named)
next
  case (Cons b xs)
  show ?case
  proof (cases "b = CHR ''/''")
    case True
    have "path_scan SegEmpty xs = path_scan (segment_state []) xs"
      by (simp add: segment_state_def)
    also have "\<dots> \<longleftrightarrow> CHR 0x00 \<notin> set xs \<and> CHR 0x5C \<notin> set xs
        \<and> list_all real_name (split_on (CHR ''/'') xs)"
      using Cons.IH [of "[]"] by simp
    finally show ?thesis
      using True Cons.prems by (simp add: split_on_append segment_state_named)
  next
    case False
    have "path_scan (segment_state p) (b # xs) \<longleftrightarrow>
        b \<noteq> CHR 0x00 \<and> b \<noteq> CHR 0x5C \<and> path_scan (segment_state (p @ [b])) xs"
      using False by (auto simp: segment_state_snoc)
    with Cons.IH [of "p @ [b]"] False Cons.prems show ?thesis by auto
  qed
qed

text \<open>
  C15. The path scanner accepts a byte string exactly when it is non-empty, at most 4096
  bytes long, free of NUL and backslash, and every piece between slashes is a real name:
  not empty, not \<open>.\<close> and not \<open>..\<close>. So no accepted path is absolute, has a trailing or
  doubled slash, or climbs out of the repository.
\<close>

theorem path_bytes_valid_iff:
  "path_bytes_valid raw \<longleftrightarrow>
     raw \<noteq> [] \<and> length raw \<le> 4096 \<and> CHR 0x00 \<notin> set raw \<and> CHR 0x5C \<notin> set raw
     \<and> list_all real_name (split_on (CHR ''/'') raw)"
  using path_scan_iff [of "[]" raw]
  by (auto simp: path_bytes_valid_def segment_state_def)

section \<open>The two representations\<close>

text \<open>\<open>RepoPathText\<close>: a valid path spelled as text.\<close>

datatype repo_path_text = RepoPathText (as_text: bytes)

definition repo_path_text_try_from :: "bytes \<Rightarrow> (string, repo_path_text) result" where
  "repo_path_text_try_from raw =
     (if path_bytes_valid raw then Inr (RepoPathText raw) else Inl ''invalid repository path'')"

datatype repr = Repr_Text repo_path_text | Repr_Bytes bytes

datatype repo_path = RepoPath repr

definition from_bytes :: "bytes \<Rightarrow> repo_path option" where
  "from_bytes raw =
     (if \<not> path_bytes_valid raw then None
      else if utf8_valid raw then Some (RepoPath (Repr_Text (RepoPathText raw)))
      else Some (RepoPath (Repr_Bytes raw)))"

fun as_bytes :: "repo_path \<Rightarrow> bytes" where
  "as_bytes (RepoPath (Repr_Text t)) = as_text t"
| "as_bytes (RepoPath (Repr_Bytes b)) = b"

fun as_str :: "repo_path \<Rightarrow> bytes option" where
  "as_str (RepoPath (Repr_Text t)) = Some (as_text t)"
| "as_str (RepoPath (Repr_Bytes b)) = None"

definition path_of_text :: "repo_path_text \<Rightarrow> repo_path" where
  "path_of_text t = RepoPath (Repr_Text t)"

definition path_eq :: "repo_path \<Rightarrow> repo_path \<Rightarrow> bool" where
  "path_eq p q = (as_bytes p = as_bytes q)"

datatype ordering = Less | Equal | Greater

definition path_cmp :: "repo_path \<Rightarrow> repo_path \<Rightarrow> ordering" where
  "path_cmp p q = (if as_bytes p < as_bytes q then Less
     else if as_bytes p = as_bytes q then Equal else Greater)"

text \<open>The values the constructors make: validated, and text exactly when UTF-8.\<close>

fun canonical :: "repo_path \<Rightarrow> bool" where
  "canonical (RepoPath (Repr_Text t)) = (path_bytes_valid (as_text t) \<and> utf8_valid (as_text t))"
| "canonical (RepoPath (Repr_Bytes b)) = (path_bytes_valid b \<and> \<not> utf8_valid b)"

lemma canonical_iff_from_bytes: "canonical p \<longleftrightarrow> from_bytes (as_bytes p) = Some p"
  by (cases p rule: as_bytes.cases) (auto simp: from_bytes_def)

lemma from_bytes_Some:
  assumes "from_bytes raw = Some p"
  shows "as_bytes p = raw" and "canonical p"
    and "as_str p = (if utf8_valid raw then Some raw else None)"
  using assms by (simp_all add: from_bytes_def split: if_splits) auto

text \<open>
  C20. Construction classifies: a path built from bytes gives those bytes back, is
  canonical, answers as text exactly when the bytes are UTF-8, and two built paths are
  equal under the program's byte equality exactly when they are the same value, so one
  logical path has one representation.
\<close>

theorem from_bytes_canonical:
  assumes "from_bytes raw = Some p"
  shows "as_bytes p = raw \<and> canonical p
     \<and> as_str p = (if utf8_valid raw then Some raw else None)
     \<and> (\<forall>raw' q. from_bytes raw' = Some q \<longrightarrow> (path_eq p q \<longleftrightarrow> p = q))"
proof (intro conjI allI impI)
  fix raw' q
  assume q: "from_bytes raw' = Some q"
  show "path_eq p q \<longleftrightarrow> p = q"
    unfolding path_eq_def from_bytes_Some(1) [OF assms] from_bytes_Some(1) [OF q]
    using assms q by (metis from_bytes_Some(1) option.inject)
qed (fact from_bytes_Some [OF assms])+

theorem from_bytes_canonical_witness:
  "from_bytes ''docs/guide.md'' = Some (RepoPath (Repr_Text (RepoPathText ''docs/guide.md'')))
   \<and> as_bytes (RepoPath (Repr_Text (RepoPathText ''docs/guide.md''))) = ''docs/guide.md''"
proof -
  have "path_bytes_valid ''docs/guide.md''" by (simp add: path_bytes_valid_def)
  moreover have "utf8_valid ''docs/guide.md''"
    by (rule utf8_valid_ascii) (simp add: is_ascii_def)
  ultimately
  have h: "from_bytes ''docs/guide.md'' = Some (RepoPath (Repr_Text (RepoPathText ''docs/guide.md'')))"
    by (simp add: from_bytes_def)
  show ?thesis by (rule conjI [OF h conjunct1 [OF from_bytes_canonical [OF h]]])
qed

lemma path_cmp_total_order:
  assumes "canonical p" and "canonical q"
  shows "path_cmp p q = Equal \<longleftrightarrow> p = q"
    and "path_cmp p q = Less \<longleftrightarrow> path_cmp q p = Greater"
proof -
  have "as_bytes p = as_bytes q \<longleftrightarrow> p = q"
    using assms by (metis canonical_iff_from_bytes option.inject)
  then show "path_cmp p q = Equal \<longleftrightarrow> p = q" by (auto simp: path_cmp_def)
  show "path_cmp p q = Less \<longleftrightarrow> path_cmp q p = Greater"
    by (auto simp: path_cmp_def)
qed

text \<open>
  The derived \<open>Deserialize\<close> of the untagged \<open>Repr\<close> takes any byte list for the \<open>Bytes\<close>
  form, without the constructor's validation or classification, so a value read from the
  wire can hold a UTF-8 path in the form that construction never gives it.
\<close>

definition path_bytes_deserialize :: "bytes \<Rightarrow> repo_path" where
  "path_bytes_deserialize raw = RepoPath (Repr_Bytes raw)"

lemma path_bytes_deserialize_not_canonical:
  "path_eq (path_bytes_deserialize ''a'') (RepoPath (Repr_Text (RepoPathText ''a'')))"
  "from_bytes ''a'' = Some (RepoPath (Repr_Text (RepoPathText ''a'')))"
  "\<not> canonical (path_bytes_deserialize ''a'')"
proof -
  have "utf8_valid ''a''" by (rule utf8_valid_ascii) (simp add: is_ascii_def)
  then show "path_eq (path_bytes_deserialize ''a'') (RepoPath (Repr_Text (RepoPathText ''a'')))"
    "from_bytes ''a'' = Some (RepoPath (Repr_Text (RepoPathText ''a'')))"
    "\<not> canonical (path_bytes_deserialize ''a'')"
    by (simp_all add: path_eq_def path_bytes_deserialize_def from_bytes_def path_bytes_valid_def)
qed

section \<open>Paths as the scan theories see them\<close>

type_synonym rpath = bytes

definition rpath_as_str :: "rpath \<Rightarrow> bytes option" where
  "rpath_as_str p = (if utf8_valid p then Some p else None)"

definition rpath_from_bytes :: "bytes \<Rightarrow> rpath option" where
  "rpath_from_bytes raw = map_option as_bytes (from_bytes raw)"

lemma rpath_as_str_refines: "canonical p \<Longrightarrow> rpath_as_str (as_bytes p) = as_str p"
  by (cases p rule: as_bytes.cases) (auto simp: rpath_as_str_def)

lemma rpath_from_bytes_iff: "rpath_from_bytes raw = Some p \<longleftrightarrow> path_bytes_valid raw \<and> p = raw"
  by (auto simp: rpath_from_bytes_def from_bytes_def)

end
