(* ===== verification/Wire_Digest.thy ===== *)
theory Wire_Digest
  imports Btree
begin

text \<open>
  Digests and Git object identities, \<open>crates/amiss-wire/src/model/digest.rs\<close> and
  \<open>model/git.rs\<close>. The \<open>hex\<close> crate is third-party code: its two functions are arguments
  of the definitions, \<open>encode\<close> for \<open>hex::encode_to_slice\<close> and \<open>decode n\<close> for
  \<open>hex::decode_to_slice\<close> into a buffer of \<open>n\<close> bytes, and \<open>hex_codec\<close> states what its
  documentation promises. The wire forms are shown to be canonical under that promise.
\<close>

section \<open>The hexadecimal codec\<close>

type_synonym hex_encode = "bytes \<Rightarrow> bytes"
type_synonym hex_decode = "nat \<Rightarrow> bytes \<Rightarrow> bytes option"

text \<open>
  The documented behaviour: encoding is lowercase and two digits to the byte; decoding
  takes digits of either case, refuses anything else and any other length, and gives the
  bytes whose encoding is the lowercased text.
\<close>

definition hex_codec :: "hex_encode \<Rightarrow> hex_decode \<Rightarrow> bool" where
  "hex_codec encode decode \<longleftrightarrow>
     (\<forall>b. length (encode b) = 2 * length b
        \<and> list_all (\<lambda>c. is_ascii_hexdigit c \<and> \<not> is_ascii_uppercase c) (encode b))
   \<and> (\<forall>n s. decode n s \<noteq> None \<longleftrightarrow> length s = 2 * n \<and> list_all is_ascii_hexdigit s)
   \<and> (\<forall>n s b. decode n s = Some b \<longrightarrow> encode b = map to_ascii_lowercase s)
   \<and> (\<forall>b c. encode b = encode c \<longrightarrow> b = c)"

lemma map_lowercase_id:
  "list_all (\<lambda>c. \<not> is_ascii_uppercase c) s \<Longrightarrow> map to_ascii_lowercase s = s"
  by (induction s) (auto simp: to_ascii_lowercase_id)

lemma hex_codecD:
  assumes "hex_codec encode decode"
  shows "length (encode b) = 2 * length b"
    and "list_all (\<lambda>c. is_ascii_hexdigit c \<and> \<not> is_ascii_uppercase c) (encode b)"
    and "decode n s \<noteq> None \<longleftrightarrow> length s = 2 * n \<and> list_all is_ascii_hexdigit s"
    and "decode n s = Some b \<Longrightarrow> encode b = map to_ascii_lowercase s"
    and "encode b = encode c \<Longrightarrow> b = c"
  using assms unfolding hex_codec_def by blast+

lemma hex_codec_decode_encode:
  assumes "hex_codec encode decode" and "length b = n"
  shows "decode n (encode b) = Some b"
proof -
  have enc: "list_all is_ascii_hexdigit (encode b)"
      "list_all (\<lambda>c. \<not> is_ascii_uppercase c) (encode b)"
    using hex_codecD(2) [OF assms(1), of b] by (simp_all add: list_all_iff)
  then have "decode n (encode b) \<noteq> None"
    using hex_codecD(1,3) [OF assms(1)] assms(2) by metis
  then obtain c where c: "decode n (encode b) = Some c" by blast
  with enc(2) have "encode c = encode b"
    using hex_codecD(4) [OF assms(1) c] map_lowercase_id by simp
  with c show ?thesis by (metis hex_codecD(5) [OF assms(1)])
qed

lemma hex_codec_encode_decode:
  assumes "hex_codec encode decode" and "decode n s = Some b"
    and "list_all (\<lambda>c. \<not> is_ascii_uppercase c) s"
  shows "encode b = s" and "length b = n"
proof -
  show enc: "encode b = s"
    using hex_codecD(4) [OF assms(1,2)] map_lowercase_id [OF assms(3)] by simp
  have "length s = 2 * n"
    using hex_codecD(3) [OF assms(1), of n s] assms(2) by simp
  with enc hex_codecD(1) [OF assms(1), of b] show "length b = n" by simp
qed

text \<open>A codec of this kind, to show that the promise can be kept.\<close>

definition hex_digit :: "nat \<Rightarrow> byte" where
  "hex_digit d = char_of (if d < 10 then 48 + d else 87 + d)"

definition hex_value :: "byte \<Rightarrow> nat" where
  "hex_value c = (let n = of_char c in if n < 58 then n - 48 else if n < 71 then n - 55 else n - 87)"

definition hex_encode_ref :: hex_encode where
  "hex_encode_ref b = concat (map (\<lambda>c. [hex_digit (of_char c div 16), hex_digit (of_char c mod 16)]) b)"

fun hex_pairs :: "bytes \<Rightarrow> bytes" where
  "hex_pairs (a # b # s) = char_of (16 * hex_value a + hex_value b) # hex_pairs s"
| "hex_pairs _ = []"

definition hex_decode_ref :: hex_decode where
  "hex_decode_ref n s =
     (if length s = 2 * n \<and> list_all is_ascii_hexdigit s then Some (hex_pairs s) else None)"

lemma hexdigit_cases:
  "is_ascii_hexdigit c \<longleftrightarrow> byte_nat c \<in> {48..57} \<union> {65..70} \<union> {97..102}"
  unfolding is_ascii_hexdigit_def is_ascii_digit_def less_eq_char_def
  by (simp only: Un_iff atLeastAtMost_iff) (simp, blast)

lemma hex_digit_class:
  "d < 16 \<Longrightarrow> is_ascii_hexdigit (hex_digit d) \<and> \<not> is_ascii_uppercase (hex_digit d)"
  by (auto simp: hexdigit_cases hex_digit_def is_ascii_uppercase_def less_eq_char_def)

lemma hex_value_bound: "is_ascii_hexdigit c \<Longrightarrow> hex_value c < 16"
  by (auto simp: hexdigit_cases hex_value_def Let_def)

lemma hex_digit_value: "is_ascii_hexdigit c \<Longrightarrow> hex_digit (hex_value c) = to_ascii_lowercase c"
  by (auto simp: hexdigit_cases hex_value_def hex_digit_def Let_def to_ascii_lowercase_def
      is_ascii_uppercase_def less_eq_char_def)

lemma hex_value_digit: "d < 16 \<Longrightarrow> hex_value (hex_digit d) = d"
  by (auto simp: hex_value_def hex_digit_def Let_def)

lemma hex_encode_pairs:
  "even (length s) \<Longrightarrow> list_all is_ascii_hexdigit s \<Longrightarrow>
     hex_encode_ref (hex_pairs s) = map to_ascii_lowercase s"
proof (induction s rule: hex_pairs.induct)
  case (1 a b s)
  then have "16 * hex_value a + hex_value b < 256"
    using hex_value_bound [of a] hex_value_bound [of b] by simp
  with 1 hex_value_bound [of a] hex_value_bound [of b] show ?case
    by (simp add: hex_encode_ref_def hex_digit_value)
qed (auto simp: hex_encode_ref_def)

lemma hex_pairs_encode: "hex_pairs (hex_encode_ref b) = b"
  by (induction b)
    (simp_all add: hex_encode_ref_def hex_value_digit less_mult_imp_div_less)

lemma hex_codec_ref: "hex_codec hex_encode_ref hex_decode_ref"
  unfolding hex_codec_def
proof (intro conjI allI impI)
  fix b :: bytes
  show "length (hex_encode_ref b) = 2 * length b"
    by (induction b) (simp_all add: hex_encode_ref_def)
  show "list_all (\<lambda>c. is_ascii_hexdigit c \<and> \<not> is_ascii_uppercase c) (hex_encode_ref b)"
    by (induction b) (simp_all add: hex_encode_ref_def hex_digit_class less_mult_imp_div_less)
next
  fix n s b
  assume "hex_decode_ref n s = Some b"
  then show "hex_encode_ref b = map to_ascii_lowercase s"
    by (auto simp: hex_decode_ref_def hex_encode_pairs split: if_splits)
next
  fix b c
  assume "hex_encode_ref b = hex_encode_ref c"
  then show "b = c" by (metis hex_pairs_encode)
qed (auto simp: hex_decode_ref_def)

lemma hex_encode_zeros: "hex_encode_ref (replicate n (CHR 0x00)) = replicate (2 * n) (CHR ''0'')"
proof -
  have "hex_digit 0 = CHR ''0''" by code_simp
  then show ?thesis by (induction n) (simp_all add: hex_encode_ref_def)
qed

lemma list_all_replicate: "P x \<Longrightarrow> list_all P (replicate n x)"
  by (simp add: list_all_iff)

section \<open>Digests\<close>

datatype digest = Digest (digest_as_bytes: bytes)

instantiation digest :: linorder
begin
definition less_eq_digest :: "digest \<Rightarrow> digest \<Rightarrow> bool" where
  "less_eq_digest a b = (digest_as_bytes a \<le> digest_as_bytes b)"
definition less_digest :: "digest \<Rightarrow> digest \<Rightarrow> bool" where
  "less_digest a b = (digest_as_bytes a < digest_as_bytes b)"
instance
  by standard (auto simp: less_eq_digest_def less_digest_def intro: digest.expand)
end

definition digest_ok :: "digest \<Rightarrow> bool" where
  "digest_ok d = (length (digest_as_bytes d) = 32)"

definition from_wire :: "hex_decode \<Rightarrow> bytes \<Rightarrow> digest option" where
  "from_wire decode raw = do {
     encoded \<leftarrow> strip_prefix ''sha256:'' raw;
     if length encoded \<noteq> 64 \<or> list_ex is_ascii_uppercase encoded then None
     else do { bytes \<leftarrow> decode 32 encoded; Some (Digest bytes) }
   }"

definition digest_display :: "hex_encode \<Rightarrow> digest \<Rightarrow> bytes" where
  "digest_display encode d = ''sha256:'' @ encode (digest_as_bytes d)"

definition digest_from_str :: "hex_decode \<Rightarrow> bytes \<Rightarrow> (string, digest) result" where
  "digest_from_str decode raw = ok_or ''invalid SHA-256 digest'' (from_wire decode raw)"

lemma from_wire_Some_iff:
  "from_wire decode raw = Some d \<longleftrightarrow>
     (\<exists>s. raw = ''sha256:'' @ s \<and> length s = 64 \<and> list_all (\<lambda>c. \<not> is_ascii_uppercase c) s
        \<and> decode 32 s = Some (digest_as_bytes d))"
  by (cases d)
    (auto simp: from_wire_def bind_eq_Some_conv strip_prefix_Some_iff list_ex_iff list_all_iff
      split: if_splits)

lemma digest_roundtrip:
  assumes "hex_codec encode decode"
  shows "from_wire decode raw = Some d \<longleftrightarrow> digest_ok d \<and> digest_display encode d = raw"
proof
  assume "from_wire decode raw = Some d"
  then obtain s where s: "raw = ''sha256:'' @ s" "list_all (\<lambda>c. \<not> is_ascii_uppercase c) s"
      "decode 32 s = Some (digest_as_bytes d)"
    by (auto simp: from_wire_Some_iff)
  show "digest_ok d \<and> digest_display encode d = raw"
    using hex_codec_encode_decode [OF assms s(3,2)] s(1)
    by (simp add: digest_ok_def digest_display_def)
next
  assume d: "digest_ok d \<and> digest_display encode d = raw"
  then have "decode 32 (encode (digest_as_bytes d)) = Some (digest_as_bytes d)"
    using hex_codec_decode_encode [OF assms, of "digest_as_bytes d" 32] by (simp add: digest_ok_def)
  moreover have "length (encode (digest_as_bytes d)) = 64"
      "list_all (\<lambda>c. \<not> is_ascii_uppercase c) (encode (digest_as_bytes d))"
    using d hex_codecD(1,2) [OF assms, of "digest_as_bytes d"]
    by (simp_all add: digest_ok_def list_all_iff)
  ultimately show "from_wire decode raw = Some d"
    using d by (auto simp: from_wire_Some_iff digest_display_def)
qed

text \<open>
  Hashing under a domain, \<open>sealed_digest\<close> of \<open>crates/amiss-wire/src/envelope.rs\<close>: the domain, a
  zero byte, the text. SHA-256 itself is a parameter.
\<close>

type_synonym sha256 = "bytes \<Rightarrow> digest"

definition sealed_digest :: "sha256 \<Rightarrow> bytes \<Rightarrow> bytes \<Rightarrow> digest" where
  "sealed_digest sha domain text = sha (domain @ [CHR 0x00] @ text)"

text \<open>
  \<open>document_digest\<close> hashes what the canonicalizer writes for a value; the writer, generated
  for each type, is a parameter, \<open>None\<close> where it fails.
\<close>

definition document_digest :: "sha256 \<Rightarrow> ('a \<Rightarrow> bytes option) \<Rightarrow> bytes \<Rightarrow> 'a \<Rightarrow> digest option" where
  "document_digest sha write domain value = map_option (sealed_digest sha domain) (write value)"

section \<open>Object identities\<close>

datatype object_format = Sha1 | Sha256

instantiation object_format :: linorder
begin
definition less_eq_object_format :: "object_format \<Rightarrow> object_format \<Rightarrow> bool" where
  "less_eq_object_format a b = (a = Sha1 \<or> b = Sha256)"
definition less_object_format :: "object_format \<Rightarrow> object_format \<Rightarrow> bool" where
  "less_object_format a b = (a = Sha1 \<and> b = Sha256)"
instance
proof
  fix a b c :: object_format
  show "(a < b) = (a \<le> b \<and> \<not> b \<le> a)" "a \<le> a" "a \<le> b \<Longrightarrow> b \<le> c \<Longrightarrow> a \<le> c"
    "a \<le> b \<Longrightarrow> b \<le> a \<Longrightarrow> a = b" "a \<le> b \<or> b \<le> a"
    by (cases a; cases b; cases c; simp add: less_eq_object_format_def less_object_format_def)+
qed
end

record oid =
  object_format :: object_format
  raw :: bytes

definition oid_hex :: "hex_decode \<Rightarrow> object_format \<Rightarrow> bytes \<Rightarrow> bool" where
  "oid_hex decode fmt s =
     (if (length s \<noteq> 40 \<and> length s \<noteq> 64) \<or> list_ex is_ascii_uppercase s then False
      else case fmt of
        Sha1 \<Rightarrow> decode 20 s \<noteq> None
      | Sha256 \<Rightarrow> decode 32 s \<noteq> None)"

definition oid_new :: "hex_decode \<Rightarrow> object_format \<Rightarrow> bytes \<Rightarrow> oid option" where
  "oid_new decode fmt s =
     (if oid_hex decode fmt s then Some \<lparr>object_format = fmt, raw = s\<rparr> else None)"

definition oid_from_str :: "hex_decode \<Rightarrow> bytes \<Rightarrow> (string, oid) result" where
  "oid_from_str decode s =
     (if length s = 40 then ok_or ''invalid object ID'' (oid_new decode Sha1 s)
      else if length s = 64 then ok_or ''invalid object ID'' (oid_new decode Sha256 s)
      else Inl ''invalid object ID'')"

fun oid_hex_length :: "object_format \<Rightarrow> nat" where
  "oid_hex_length Sha1 = 40"
| "oid_hex_length Sha256 = 64"

lemma oid_hex_iff:
  assumes "hex_codec encode decode"
  shows "oid_hex decode fmt s \<longleftrightarrow>
     length s = oid_hex_length fmt \<and> list_all (\<lambda>c. is_ascii_hexdigit c \<and> \<not> is_ascii_uppercase c) s"
proof -
  note hex_codecD(3) [OF assms]
  then show ?thesis
    by (cases fmt) (auto simp: oid_hex_def list_ex_iff list_all_iff)
qed

lemma oid_new_Some_iff:
  "oid_new decode fmt s = Some oid \<longleftrightarrow>
     object_format oid = fmt \<and> raw oid = s \<and> oid_hex decode fmt s"
  by (cases oid) (auto simp: oid_new_def)

lemma oid_from_str_iff:
  assumes "hex_codec encode decode"
  shows "oid_from_str decode s = Inr oid \<longleftrightarrow>
     raw oid = s \<and> length s = oid_hex_length (object_format oid)
     \<and> list_all (\<lambda>c. is_ascii_hexdigit c \<and> \<not> is_ascii_uppercase c) s"
  unfolding oid_from_str_def
  by (cases "object_format oid"; cases "length s = 40"; cases "length s = 64";
      simp add: ok_or_Inr_iff oid_new_Some_iff oid_hex_iff [OF assms]; blast)

text \<open>
  C18. Wire identities are canonical when the hex codec behaves as documented. A digest
  parses from exactly one text, the one it prints, and every 32-byte digest does; an
  object identity parses exactly when its text is 40 or 64 lowercase hex digits, and then
  the text's length decides its format and its printed form is the text.
\<close>

theorem identity_wire_canonical:
  assumes "hex_codec encode decode"
  shows "(from_wire decode t = Some d \<longleftrightarrow> digest_ok d \<and> digest_display encode d = t)
     \<and> (oid_from_str decode s = Inr oid \<longleftrightarrow>
          raw oid = s \<and> length s = oid_hex_length (object_format oid)
          \<and> list_all (\<lambda>c. is_ascii_hexdigit c \<and> \<not> is_ascii_uppercase c) s)"
proof
  show "from_wire decode t = Some d \<longleftrightarrow> digest_ok d \<and> digest_display encode d = t"
    by (rule digest_roundtrip [OF assms])
  show "oid_from_str decode s = Inr oid \<longleftrightarrow>
          raw oid = s \<and> length s = oid_hex_length (object_format oid)
          \<and> list_all (\<lambda>c. is_ascii_hexdigit c \<and> \<not> is_ascii_uppercase c) s"
    by (rule oid_from_str_iff [OF assms])
qed

theorem identity_wire_canonical_witness:
  "oid_from_str hex_decode_ref (replicate 40 (CHR ''a'')) =
     Inr \<lparr>object_format = Sha1, raw = replicate 40 (CHR ''a'')\<rparr>
   \<and> from_wire hex_decode_ref (''sha256:'' @ replicate 64 (CHR ''0'')) =
     Some (Digest (replicate 32 (CHR 0x00)))"
proof
  let ?oid = "\<lparr>object_format = Sha1, raw = replicate 40 (CHR ''a'')\<rparr>"
  let ?zero = "Digest (replicate 32 (CHR 0x00))"
  note claim = identity_wire_canonical [OF hex_codec_ref,
      where s = "replicate 40 (CHR ''a'')" and oid = ?oid
        and t = "''sha256:'' @ replicate 64 (CHR ''0'')" and d = ?zero]
  have "list_all (\<lambda>c. is_ascii_hexdigit c \<and> \<not> is_ascii_uppercase c) (replicate 40 (CHR ''a''))"
    by (rule list_all_replicate) code_simp
  then have "raw ?oid = replicate 40 (CHR ''a'')
      \<and> length (replicate 40 (CHR ''a'')) = oid_hex_length (object_format ?oid)
      \<and> list_all (\<lambda>c. is_ascii_hexdigit c \<and> \<not> is_ascii_uppercase c) (replicate 40 (CHR ''a''))"
    by (simp only: oid.simps oid_hex_length.simps length_replicate)
  then show "oid_from_str hex_decode_ref (replicate 40 (CHR ''a'')) = Inr ?oid"
    by (rule iffD2 [OF conjunct2 [OF claim]])
  have "digest_ok ?zero" "digest_display hex_encode_ref ?zero = ''sha256:'' @ replicate 64 (CHR ''0'')"
    by (simp_all only: digest_ok_def digest_display_def digest.sel length_replicate hex_encode_zeros) simp
  then show "from_wire hex_decode_ref (''sha256:'' @ replicate 64 (CHR ''0'')) = Some ?zero"
    by (rule iffD2 [OF conjunct1 [OF claim], OF conjI])
qed

end
