(* ===== verification/Wire_Time.thy ===== *)
theory Wire_Time
  imports Btree
begin

text \<open>
  UTC instants, \<open>crates/amiss-wire/src/model/time.rs\<close>: the fixed-width text form, its
  validation, and the conversions from and to whole Unix seconds. The program orders
  instants by their text; the theory shows that this is the order of time, and that the
  two conversions are inverse on the range the code accepts. All divisions in the source
  have non-negative dividends or are Euclidean, so \<open>div\<close> and \<open>mod\<close> on \<open>int\<close> are exact.
\<close>

section \<open>Definitions\<close>

datatype utc_instant = UtcInstant (instant_str: bytes)

instantiation utc_instant :: linorder
begin
definition less_eq_utc_instant :: "utc_instant \<Rightarrow> utc_instant \<Rightarrow> bool" where
  "less_eq_utc_instant a b = (instant_str a \<le> instant_str b)"
definition less_utc_instant :: "utc_instant \<Rightarrow> utc_instant \<Rightarrow> bool" where
  "less_utc_instant a b = (instant_str a < instant_str b)"
instance
  by standard (auto simp: less_eq_utc_instant_def less_utc_instant_def intro: utc_instant.expand)
end

text \<open>\<open>field\<close>: the \<open>u32\<close> fold with its checked multiplication and addition.\<close>

fun field_fold :: "nat \<Rightarrow> bytes \<Rightarrow> nat option" where
  "field_fold acc [] = Some acc"
| "field_fold acc (b # bs) =
     (let digit = (of_char b + 256 - 48) mod 256 in
      if 2 ^ 32 \<le> acc * 10 then None
      else if 2 ^ 32 \<le> acc * 10 + digit then None
      else field_fold (acc * 10 + digit) bs)"

definition field :: "bytes \<Rightarrow> nat \<Rightarrow> nat \<Rightarrow> nat option" where
  "field bytes start len = do {
     piece \<leftarrow> get_range bytes start (start + len);
     field_fold 0 piece
   }"

definition leap_year :: "nat \<Rightarrow> bool" where
  "leap_year year = (year mod 4 = 0 \<and> (year mod 100 \<noteq> 0 \<or> year mod 400 = 0))"

definition days_in_month :: "nat \<Rightarrow> nat \<Rightarrow> nat" where
  "days_in_month year month =
     (if month \<in> {1, 3, 5, 7, 8, 10, 12} then 31
      else if month \<in> {4, 6, 9, 11} then 30
      else if month = 2 then (if leap_year year then 29 else 28)
      else 0)"

definition punctuation_at :: "nat \<Rightarrow> bool" where
  "punctuation_at index = (index \<in> {4, 7, 10, 13, 16, 19})"

definition instant_new :: "bytes \<Rightarrow> utc_instant option" where
  "instant_new raw =
     (if length raw \<noteq> 20 then None
      else if \<not> list_all (\<lambda>i. (\<not> punctuation_at i) = is_ascii_digit (raw ! i)) [0..<20] then None
      else if get_at raw 4 \<noteq> Some (CHR ''-'') \<or> get_at raw 7 \<noteq> Some (CHR ''-'')
           \<or> get_at raw 10 \<noteq> Some (CHR ''T'') \<or> get_at raw 13 \<noteq> Some (CHR '':'')
           \<or> get_at raw 16 \<noteq> Some (CHR '':'') \<or> get_at raw 19 \<noteq> Some (CHR ''Z'') then None
      else do {
        year \<leftarrow> field raw 0 4;
        month \<leftarrow> field raw 5 2;
        day \<leftarrow> field raw 8 2;
        hour \<leftarrow> field raw 11 2;
        minute \<leftarrow> field raw 14 2;
        second \<leftarrow> field raw 17 2;
        if \<not> (1 \<le> month \<and> month \<le> 12) \<or> day = 0 \<or> days_in_month year month < day then None
        else if 23 < hour \<or> 59 < minute \<or> 59 < second then None
        else Some (UtcInstant raw)
      })"

text \<open>The decimal forms \<open>{:04}\<close> and \<open>{:02}\<close> of Rust's formatter.\<close>

definition decimal_digit :: "nat \<Rightarrow> byte" where
  "decimal_digit d = char_of (48 + d)"

fun decimal :: "nat \<Rightarrow> bytes" where
  "decimal n = (if n < 10 then [decimal_digit n] else decimal (n div 10) @ [decimal_digit (n mod 10)])"

declare decimal.simps [simp del]

definition zero_padded :: "nat \<Rightarrow> int \<Rightarrow> bytes" where
  "zero_padded w i =
     (if i < 0
      then let d = decimal (nat (- i)) in ''-'' @ replicate (w - 1 - length d) (CHR ''0'') @ d
      else let d = decimal (nat i) in replicate (w - length d) (CHR ''0'') @ d)"

definition min_epoch_seconds :: int where
  "min_epoch_seconds = - 62167219200"

definition max_epoch_seconds :: int where
  "max_epoch_seconds = 253402300799"

text \<open>The civil-date half of \<open>from_epoch_seconds\<close>.\<close>

definition year_of_era :: "int \<Rightarrow> int" where
  "year_of_era day_of_era =
     (day_of_era - day_of_era div 1460 + day_of_era div 36524 - day_of_era div 146096) div 365"

definition civil_from_days :: "int \<Rightarrow> int \<times> int \<times> int" where
  "civil_from_days days =
     (let shifted_days = days + 719468;
          era = shifted_days div 146097;
          day_of_era = shifted_days - era * 146097;
          yoe = year_of_era day_of_era;
          year = yoe + era * 400;
          day_of_year = day_of_era - (365 * yoe + yoe div 4 - yoe div 100);
          month_piece = (5 * day_of_year + 2) div 153;
          day = day_of_year - (153 * month_piece + 2) div 5 + 1;
          month = month_piece + (if month_piece < 10 then 3 else - 9)
      in (if month \<le> 2 then year + 1 else year, month, day))"

definition instant_text :: "int \<Rightarrow> int \<Rightarrow> int \<Rightarrow> int \<Rightarrow> int \<Rightarrow> int \<Rightarrow> bytes" where
  "instant_text year month day hour minute second =
     zero_padded 4 year @ ''-'' @ zero_padded 2 month @ ''-'' @ zero_padded 2 day @ ''T''
     @ zero_padded 2 hour @ '':'' @ zero_padded 2 minute @ '':'' @ zero_padded 2 second @ ''Z''"

definition from_epoch_seconds :: "int \<Rightarrow> utc_instant option" where
  "from_epoch_seconds seconds =
     (if \<not> (min_epoch_seconds \<le> seconds \<and> seconds \<le> max_epoch_seconds) then None
      else
        let days = seconds div 86400;
            day_seconds = seconds mod 86400;
            (year, month, day) = civil_from_days days;
            hour = day_seconds div 3600;
            minute = day_seconds mod 3600 div 60;
            second = day_seconds mod 60
        in instant_new (instant_text year month day hour minute second))"

text \<open>The days-from-civil half of \<open>epoch_seconds\<close>.\<close>

definition days_from_civil :: "int \<Rightarrow> int \<Rightarrow> int \<Rightarrow> int" where
  "days_from_civil year month day =
     (let shifted_year = if month \<le> 2 then year - 1 else year;
          era = shifted_year div 400;
          yoe = shifted_year - era * 400;
          month_index = if 2 < month then month - 3 else month + 9;
          day_of_year = (153 * month_index + 2) div 5 + day - 1;
          day_of_era = yoe * 365 + yoe div 4 - yoe div 100 + day_of_year
      in era * 146097 + day_of_era - 719468)"

definition epoch_seconds :: "utc_instant \<Rightarrow> int" where
  "epoch_seconds instant =
     (let bytes = instant_str instant;
          part = (\<lambda>start len. case field bytes start len of None \<Rightarrow> 0 | Some n \<Rightarrow> int n);
          days = days_from_civil (part 0 4) (part 5 2) (part 8 2)
      in days * 86400 + part 11 2 * 3600 + part 14 2 * 60 + part 17 2)"

section \<open>Days and civil dates\<close>

lemma div_plus_one:
  fixes d k :: int
  assumes "0 < k"
  shows "(d + 1) div k = d div k + (if k dvd d + 1 then 1 else 0)"
proof (cases "k dvd d + 1")
  case True
  then obtain m where m: "d + 1 = k * m" by blast
  then have "d = k * (m - 1) + (k - 1)" by (simp add: algebra_simps)
  then have "d div k = m - 1"
    using assms int_div_pos_eq [of d k "m - 1" "k - 1"] by simp
  with m assms True show ?thesis by simp
next
  case False
  have "d + 1 = k * (d div k) + (d mod k + 1)" by simp
  moreover have "d mod k + 1 < k"
    using False assms pos_mod_bound [of k d] \<open>d + 1 = k * (d div k) + (d mod k + 1)\<close>
    by (metis add1_zle_eq dvd_add_right_iff dvd_refl dvd_triv_left order_less_le)
  ultimately show ?thesis
    using False assms int_div_pos_eq [of "d + 1" k "d div k" "d mod k + 1"] by simp
qed

definition era_year_start :: "int \<Rightarrow> int" where
  "era_year_start y = 365 * y + y div 4 - y div 100"

lemma year_of_era_step: "year_of_era d \<le> year_of_era (d + 1)"
proof -
  have "(36524 :: int) dvd d + 1" if "(146096 :: int) dvd d + 1"
    using that dvd_trans [of 36524 146096 "d + 1"] by simp
  then show ?thesis
    unfolding year_of_era_def by (intro zdiv_mono1) (simp_all add: div_plus_one)
qed

lemma year_of_era_mono: "a \<le> b \<Longrightarrow> year_of_era a \<le> year_of_era b"
proof (induction b rule: int_ge_induct)
  case (step b)
  with year_of_era_step [of b] show ?case by linarith
qed simp

lemma year_of_era_starts:
  "list_all (\<lambda>y. year_of_era (era_year_start y) = y
      \<and> year_of_era (era_year_start (y + 1) - 1) = y) [0..398]"
  by code_simp

lemma year_of_era_start: "0 \<le> y \<Longrightarrow> y \<le> 399 \<Longrightarrow> year_of_era (era_year_start y) = y"
proof -
  assume y: "0 \<le> y" "y \<le> 399"
  show ?thesis
  proof (cases "y = 399")
    case True
    have "year_of_era (era_year_start 399) = 399" by code_simp
    with True show ?thesis by simp
  qed (use y year_of_era_starts in \<open>auto simp: list_all_iff\<close>)
qed

lemma year_of_era_end: "0 \<le> y \<Longrightarrow> y < 399 \<Longrightarrow> year_of_era (era_year_start (y + 1) - 1) = y"
  using year_of_era_starts by (auto simp: list_all_iff)

lemma year_of_era_bounds:
  assumes "0 \<le> d" and "d < 146097"
  shows "0 \<le> year_of_era d" and "year_of_era d \<le> 399"
    and "era_year_start (year_of_era d) \<le> d"
    and "year_of_era d < 399 \<Longrightarrow> d < era_year_start (year_of_era d + 1)"
proof -
  let ?y = "year_of_era d"
  have "year_of_era 0 = 0" "year_of_era 146096 = 399" by code_simp+
  with assms year_of_era_mono [of 0 d] year_of_era_mono [of d 146096]
  show y: "0 \<le> ?y" "?y \<le> 399" by simp_all
  show "era_year_start ?y \<le> d"
  proof (rule ccontr)
    assume *: "\<not> era_year_start ?y \<le> d"
    show False
    proof (cases "?y = 0")
      case True
      with * assms show False by (simp add: era_year_start_def)
    next
      case False
      with y year_of_era_end [of "?y - 1"] have "year_of_era (era_year_start ?y - 1) = ?y - 1" by simp
      with * year_of_era_mono [of d "era_year_start ?y - 1"] show False by simp
    qed
  qed
  show "d < era_year_start (?y + 1)" if "?y < 399"
  proof (rule ccontr)
    assume "\<not> d < era_year_start (?y + 1)"
    then have "year_of_era (era_year_start (?y + 1)) \<le> ?y"
      by (intro year_of_era_mono) simp
    with that y year_of_era_start [of "?y + 1"] show False by simp
  qed
qed


lemma leap_year_int:
  assumes "0 \<le> y"
  shows "leap_year (nat y) \<longleftrightarrow> y mod 4 = 0 \<and> (y mod 100 \<noteq> 0 \<or> y mod 400 = 0)"
proof -
  obtain n where n: "y = int n" using assms nonneg_int_cases by blast
  have "int n mod int k = 0 \<longleftrightarrow> n mod k = 0" for k
    by (metis of_nat_0_eq_iff zmod_int)
  from this [of 4] this [of 100] this [of 400] show ?thesis
    by (simp add: n leap_year_def)
qed

lemma mod_add_era:
  fixes y era :: int
  shows "(y + era * 400) mod 4 = y mod 4" and "(y + era * 400) mod 100 = y mod 100"
    and "(y + era * 400) mod 400 = y mod 400"
  using mod_mult_self1 [of y "era * 100" 4] mod_mult_self1 [of y "era * 4" 100] by (simp_all add: mult.commute)

lemma era_year_length:
  "era_year_start (y + 1) - era_year_start y =
     365 + (if (y + 1) mod 4 = 0 \<and> (y + 1) mod 100 \<noteq> 0 then 1 else 0)"
proof -
  have "(4 :: int) dvd y + 1" if "(100 :: int) dvd y + 1"
    using that dvd_trans [of 4 100 "y + 1"] by simp
  then show ?thesis
    by (auto simp: era_year_start_def div_plus_one mod_eq_0_iff_dvd)
qed

text \<open>Within a year that starts in March: the month piece and the day it leaves.\<close>

lemma month_piece_bounds:
  fixes doy :: int
  assumes "0 \<le> doy" and "doy \<le> 365" and "mp = (5 * doy + 2) div 153"
  shows "0 \<le> mp" and "mp \<le> 11"
    and "1 \<le> doy - (153 * mp + 2) div 5 + 1"
    and "mp \<in> {1, 3, 6, 8} \<Longrightarrow> doy - (153 * mp + 2) div 5 + 1 \<le> 30"
    and "mp = 11 \<Longrightarrow> doy - (153 * mp + 2) div 5 + 1 = doy - 336"
    and "doy - (153 * mp + 2) div 5 + 1 \<le> 31"
proof -
  have mp: "153 * mp \<le> 5 * doy + 2" "5 * doy + 2 < 153 * mp + 153"
    using assms(3) by presburger+
  with assms(1,2) show bounds: "0 \<le> mp" "mp \<le> 11" by linarith+
  then have cases: "mp \<in> {0, 1, 2, 3, 4, 5, 6, 7, 8, 9, 10, 11}"
    by (simp only: insert_iff empty_iff) presburger
  show "1 \<le> doy - (153 * mp + 2) div 5 + 1"
    using cases mp by (elim insertE) simp_all
  show "doy - (153 * mp + 2) div 5 + 1 \<le> 30" if "mp \<in> {1, 3, 6, 8}"
    using that mp by (elim insertE) simp_all
  show "doy - (153 * mp + 2) div 5 + 1 = doy - 336" if "mp = 11"
    using that by simp
  show "doy - (153 * mp + 2) div 5 + 1 \<le> 31"
    using cases mp by (elim insertE) simp_all
qed

lemma days_in_month_piece:
  assumes "0 \<le> mp" and "mp \<le> 10"
  shows "days_in_month y (nat (mp + (if mp < 10 then 3 else - 9))) =
     (if mp \<in> {1, 3, 6, 8} then 30 else 31)"
proof -
  have "mp \<in> {0, 1, 2, 3, 4, 5, 6, 7, 8, 9, 10}"
    using assms by (simp only: insert_iff empty_iff) presburger
  then show ?thesis
    by (elim insertE) (simp_all add: days_in_month_def)
qed

lemma civil_from_days_facts:
  assumes "civil_from_days days = (year, month, day)" and "0 \<le> year"
  shows "days_from_civil year month day = days"
    and "1 \<le> month" and "month \<le> 12" and "1 \<le> day"
    and "day \<le> int (days_in_month (nat year) (nat month))"
proof -
  define sd where "sd = days + 719468"
  define era where "era = sd div 146097"
  define doe where "doe = sd - era * 146097"
  define yoe where "yoe = year_of_era doe"
  define doy where "doy = doe - era_year_start yoe"
  define mp where "mp = (5 * doy + 2) div 153"
  have out: "day = doy - (153 * mp + 2) div 5 + 1" "month = mp + (if mp < 10 then 3 else - 9)"
      "year = yoe + era * 400 + (if month \<le> 2 then 1 else 0)"
    using assms(1) [unfolded civil_from_days_def Let_def, folded sd_def, folded era_def,
        folded doe_def, folded yoe_def era_year_start_def, folded doy_def, folded mp_def]
    by (simp_all only: prod.inject) auto
  have doe: "0 \<le> doe" "doe < 146097"
    by (simp_all add: doe_def era_def minus_div_mult_eq_mod)
  note y = year_of_era_bounds [OF doe, folded yoe_def]
  define long_year where
    "long_year \<longleftrightarrow> (yoe + 1) mod 4 = 0 \<and> ((yoe + 1) mod 100 \<noteq> 0 \<or> yoe = 399)"
  have long: "doy < 365 + (if long_year then 1 else 0)"
  proof (cases "yoe = 399")
    case True
    with doe show ?thesis by (simp add: doy_def era_year_start_def long_year_def)
  next
    case False
    with y(2,4) era_year_length [of yoe] show ?thesis by (auto simp: doy_def long_year_def split: if_splits)
  qed
  have doy: "0 \<le> doy" "doy \<le> 365"
    using y(3) long by (auto simp: doy_def split: if_splits)
  note m = month_piece_bounds [OF doy mp_def]
  show month: "1 \<le> month" "month \<le> 12"
    using m(1,2) by (auto simp: out(2))
  show day: "1 \<le> day" using m(3) by (simp add: out(1))
  have small: "month \<le> 2 \<longleftrightarrow> 10 \<le> mp" using m(1,2) by (auto simp: out(2))
  have sy: "(if month \<le> 2 then year - 1 else year) = yoe + era * 400"
    by (auto simp: out(3))
  have mi: "(if 2 < month then month - 3 else month + 9) = mp"
    using small by (auto simp: out(2) split: if_splits)
  have "(yoe + era * 400) div 400 = era"
    using y(1,2) by simp
  then show "days_from_civil year month day = days"
    unfolding days_from_civil_def Let_def sy mi
    by (simp add: out(1) doy_def era_year_start_def doe_def sd_def)
  show "day \<le> int (days_in_month (nat year) (nat month))"
  proof (cases "mp = 11")
    case True
    then have "month = 2" "year = yoe + 1 + era * 400" by (auto simp: out)
    moreover have "leap_year (nat year) \<longleftrightarrow> long_year"
    proof -
      have "(yoe + 1) mod 400 = 0 \<longleftrightarrow> yoe = 399"
        using y(1,2) by (cases "yoe = 399") simp_all
      then show ?thesis
        using assms(2) \<open>year = yoe + 1 + era * 400\<close> by (simp add: leap_year_int mod_add_era long_year_def)
    qed
    ultimately have "int (days_in_month (nat year) (nat month)) = (if long_year then 29 else 28)"
      by (simp add: days_in_month_def)
    moreover have "day = doy - 336" using m(5) True by (simp only: out(1))
    ultimately show ?thesis
      using long by (cases long_year) simp_all
  next
    case False
    with m(1,2) have "days_in_month (nat year) (nat month) = (if mp \<in> {1, 3, 6, 8} then 30 else 31)"
      unfolding out(2) by (intro days_in_month_piece) simp_all
    with m(4,6) show ?thesis unfolding out(1) by (cases "mp \<in> {1, 3, 6, 8}") simp_all
  qed
qed

section \<open>The text form\<close>

lemma decimal_digit_facts:
  assumes "d < 10"
  shows "is_ascii_digit (decimal_digit d)" and "byte_nat (decimal_digit d) = 48 + d"
proof -
  show n: "byte_nat (decimal_digit d) = 48 + d"
    using assms by (simp add: decimal_digit_def)
  then show "is_ascii_digit (decimal_digit d)"
    using assms by (simp add: is_ascii_digit_def less_eq_char_def)
qed

lemma is_ascii_digit_decimal: "is_ascii_digit c \<Longrightarrow> \<exists>d < 10. c = decimal_digit d"
proof (intro exI conjI)
  assume "is_ascii_digit c"
  then have n: "48 \<le> byte_nat c" "byte_nat c \<le> 57"
    by (simp_all add: is_ascii_digit_def less_eq_char_def)
  then show "byte_nat c - 48 < 10" by simp
  have "decimal_digit (byte_nat c - 48) = char_of (byte_nat c)"
    using n by (simp add: decimal_digit_def)
  then show "c = decimal_digit (byte_nat c - 48)" by simp
qed

lemma decimal_digit_less: "a < 10 \<Longrightarrow> b < 10 \<Longrightarrow> decimal_digit a < decimal_digit b \<longleftrightarrow> a < b"
  by (simp add: decimal_digit_def less_char_def)

lemma decimal_digit_eq: "a < 10 \<Longrightarrow> b < 10 \<Longrightarrow> decimal_digit a = decimal_digit b \<longleftrightarrow> a = b"
  by (metis decimal_digit_facts(2) add_left_cancel)

definition pad2 :: "nat \<Rightarrow> bytes" where
  "pad2 n = [decimal_digit (n div 10), decimal_digit (n mod 10)]"

definition pad4 :: "nat \<Rightarrow> bytes" where
  "pad4 n = pad2 (n div 100) @ pad2 (n mod 100)"

lemma decimal_digit_0: "decimal_digit 0 = CHR ''0''"
  by code_simp

lemma decimal_step: "10 \<le> n \<Longrightarrow> decimal n = decimal (n div 10) @ [decimal_digit (n mod 10)]"
  and decimal_small: "n < 10 \<Longrightarrow> decimal n = [decimal_digit n]"
  by (simp_all add: decimal.simps [of n])

lemma zero_padded_int:
  "zero_padded w (int n) = replicate (w - length (decimal n)) (CHR ''0'') @ decimal n"
  by (simp add: zero_padded_def Let_def)

lemma zero_padded_2: "n < 100 \<Longrightarrow> zero_padded 2 (int n) = pad2 n"
  by (cases "n < 10")
    (simp_all add: zero_padded_int pad2_def decimal_step decimal_small decimal_digit_0)

lemma zero_padded_4:
  assumes "n < 10000"
  shows "zero_padded 4 (int n) = pad4 n"
proof -
  have "n mod 100 = 10 * (n div 10 mod 10) + n mod 10"
    using mod_mult2_eq [of n 10 10] by simp
  then have d: "n div 10 mod 10 = n mod 100 div 10" "n mod 100 mod 10 = n mod 10"
      "n div 10 div 10 = n div 100"
    using div_mult2_eq [of n 10 10] by simp_all
  consider "n < 10" | "10 \<le> n" "n < 100" | "100 \<le> n" "n < 1000" | "1000 \<le> n" by linarith
  then show ?thesis
  proof cases
    case 1
    then show ?thesis
      by (simp add: zero_padded_int pad4_def pad2_def decimal_small decimal_digit_0 numeral_3_eq_3)
  next
    case 2
    then show ?thesis
      by (simp add: zero_padded_int pad4_def pad2_def decimal_step decimal_small decimal_digit_0
          numeral_2_eq_2)
  next
    case 3
    then have "10 \<le> n div 10" using div_le_mono [of 100 n 10] by simp
    moreover have small: "n div 100 < 10" using 3 by (simp add: less_mult_imp_div_less)
    ultimately have "decimal n = [decimal_digit (n div 100), decimal_digit (n mod 100 div 10), decimal_digit (n mod 10)]"
      using 3 d by (simp add: decimal_step [of n] decimal_step [of "n div 10"] decimal_small [of "n div 100"])
    with 3 d small show ?thesis
      by (simp add: zero_padded_int pad4_def pad2_def decimal_digit_0)
  next
    case 4
    then have "10 \<le> n div 10" using div_le_mono [of 100 n 10] by simp
    with 4 have "decimal n = decimal (n div 100) @ [decimal_digit (n mod 100 div 10), decimal_digit (n mod 10)]"
      using d by (simp add: decimal_step [of n] decimal_step [of "n div 10"])
    moreover have "10 \<le> n div 100" using 4 div_le_mono [of 1000 n 100] by simp
    then have "decimal (n div 100) = pad2 (n div 100)"
      using assms by (simp add: pad2_def decimal_step [of "n div 100"] decimal_small)
    ultimately show ?thesis
      using d by (simp add: zero_padded_int pad4_def pad2_def)
  qed
qed

lemma field_fold_digits2:
  "a < 10 \<Longrightarrow> b < 10 \<Longrightarrow> field_fold 0 [decimal_digit a, decimal_digit b] = Some (10 * a + b)"
  by (simp add: decimal_digit_facts(2) Let_def)

lemma field_fold_pad2: "n < 100 \<Longrightarrow> field_fold 0 (pad2 n) = Some n"
  using field_fold_digits2 [of "n div 10" "n mod 10"] by (simp add: pad2_def)

lemma field_fold_digits4:
  "a < 10 \<Longrightarrow> b < 10 \<Longrightarrow> c < 10 \<Longrightarrow> d < 10 \<Longrightarrow>
     field_fold 0 [decimal_digit a, decimal_digit b, decimal_digit c, decimal_digit d] =
       Some (((a * 10 + b) * 10 + c) * 10 + d)"
  by (simp add: decimal_digit_facts(2) Let_def)

lemma field_fold_pad4:
  assumes "n < 10000"
  shows "field_fold 0 (pad4 n) = Some n"
proof -
  have d: "n div 100 div 10 < 10" "n div 100 mod 10 < 10" "n mod 100 div 10 < 10" "n mod 100 mod 10 < 10"
    using assms by auto
  have "((n div 100 div 10 * 10 + n div 100 mod 10) * 10 + n mod 100 div 10) * 10 + n mod 100 mod 10 = n"
    by simp
  with field_fold_digits4 [OF d] show ?thesis
    by (simp only: pad4_def pad2_def append_Cons append_Nil)
qed

lemma less_div_mod:
  fixes a b k :: nat
  shows "a < b \<longleftrightarrow> a div k < b div k \<or> a div k = b div k \<and> a mod k < b mod k"
proof (cases "a div k" "b div k" rule: linorder_cases)
  case equal
  then have "a = b div k * k + a mod k" "b = b div k * k + b mod k"
    by (metis div_mult_mod_eq)+
  then have "a < b \<longleftrightarrow> a mod k < b mod k" by (metis nat_add_left_cancel_less)
  with equal show ?thesis by simp
next
  case less
  then have "\<not> b \<le> a" using div_le_mono [of b a k] by linarith
  with less show ?thesis by simp
next
  case greater
  then have "\<not> a \<le> b" using div_le_mono [of a b k] by linarith
  with greater show ?thesis by simp
qed

lemma eq_div_mod: "a = b \<longleftrightarrow> a div k = b div k \<and> a mod k = b mod k" for a b k :: nat
  by (metis div_mult_mod_eq)

lemma pad2_less:
  assumes "a < 100" and "b < 100"
  shows "pad2 a @ x < pad2 b @ y \<longleftrightarrow> a < b \<or> a = b \<and> x < y"
proof -
  have "a div 10 < 10" "b div 10 < 10" using assms by auto
  then show ?thesis
    unfolding less_div_mod [of a b 10] eq_div_mod [of a b 10]
    by (simp add: pad2_def decimal_digit_less decimal_digit_eq) blast
qed

lemma pad4_less:
  assumes "a < 10000" and "b < 10000"
  shows "pad4 a @ x < pad4 b @ y \<longleftrightarrow> a < b \<or> a = b \<and> x < y"
proof -
  have "a div 100 < 100" "b div 100 < 100" using assms by auto
  then show ?thesis
    unfolding less_div_mod [of a b 100] eq_div_mod [of a b 100]
    by (simp add: pad4_def pad2_less) blast
qed

definition valid_fields :: "nat \<Rightarrow> nat \<Rightarrow> nat \<Rightarrow> nat \<Rightarrow> nat \<Rightarrow> nat \<Rightarrow> bool" where
  "valid_fields y m d h mi s \<longleftrightarrow> y < 10000 \<and> 1 \<le> m \<and> m \<le> 12 \<and> 1 \<le> d \<and> d \<le> days_in_month y m
     \<and> h \<le> 23 \<and> mi \<le> 59 \<and> s \<le> 59"

definition rendered :: "nat \<Rightarrow> nat \<Rightarrow> nat \<Rightarrow> nat \<Rightarrow> nat \<Rightarrow> nat \<Rightarrow> bytes" where
  "rendered y m d h mi s = pad4 y @ ''-'' @ pad2 m @ ''-'' @ pad2 d @ ''T''
     @ pad2 h @ '':'' @ pad2 mi @ '':'' @ pad2 s @ ''Z''"

lemma days_in_month_bound: "days_in_month y m \<le> 31"
  by (simp add: days_in_month_def)

lemma valid_fields_bounds:
  assumes "valid_fields y m d h mi s"
  shows "y < 10000" "m < 100" "d < 100" "h < 100" "mi < 100" "s < 100"
  using assms days_in_month_bound [of y m] by (simp_all add: valid_fields_def)

lemma instant_text_rendered:
  assumes "valid_fields y m d h mi s"
  shows "instant_text (int y) (int m) (int d) (int h) (int mi) (int s) = rendered y m d h mi s"
  using valid_fields_bounds [OF assms]
  by (simp add: instant_text_def rendered_def zero_padded_2 zero_padded_4)

lemma rendered_ranges:
  "get_range (rendered y m d h mi s) 0 4 = Some (pad4 y)"
  "get_range (rendered y m d h mi s) 5 7 = Some (pad2 m)"
  "get_range (rendered y m d h mi s) 8 10 = Some (pad2 d)"
  "get_range (rendered y m d h mi s) 11 13 = Some (pad2 h)"
  "get_range (rendered y m d h mi s) 14 16 = Some (pad2 mi)"
  "get_range (rendered y m d h mi s) 17 19 = Some (pad2 s)"
  by (simp_all add: get_range_def rendered_def pad2_def pad4_def)

lemma rendered_fields:
  assumes "valid_fields y m d h mi s"
  shows "field (rendered y m d h mi s) 0 4 = Some y"
    and "field (rendered y m d h mi s) 5 2 = Some m"
    and "field (rendered y m d h mi s) 8 2 = Some d"
    and "field (rendered y m d h mi s) 11 2 = Some h"
    and "field (rendered y m d h mi s) 14 2 = Some mi"
    and "field (rendered y m d h mi s) 17 2 = Some s"
  using valid_fields_bounds [OF assms]
  by (simp_all add: field_def rendered_ranges field_fold_pad2 field_fold_pad4)

lemma rendered_shape:
  assumes "valid_fields y m d h mi s"
  shows "length (rendered y m d h mi s) = 20"
    and "list_all (\<lambda>i. (\<not> punctuation_at i) = is_ascii_digit (rendered y m d h mi s ! i)) [0..<20]"
    and "get_at (rendered y m d h mi s) 4 = Some (CHR ''-'')"
    and "get_at (rendered y m d h mi s) 7 = Some (CHR ''-'')"
    and "get_at (rendered y m d h mi s) 10 = Some (CHR ''T'')"
    and "get_at (rendered y m d h mi s) 13 = Some (CHR '':'')"
    and "get_at (rendered y m d h mi s) 16 = Some (CHR '':'')"
    and "get_at (rendered y m d h mi s) 19 = Some (CHR ''Z'')"
proof -
  have digits: "is_ascii_digit (decimal_digit (n div 10))" "is_ascii_digit (decimal_digit (n mod 10))"
    if "n < 100" for n
    using that by (simp_all add: decimal_digit_facts(1))
  have other: "\<not> is_ascii_digit (CHR ''-'')" "\<not> is_ascii_digit (CHR ''T'')"
      "\<not> is_ascii_digit (CHR '':'')" "\<not> is_ascii_digit (CHR ''Z'')"
    by code_simp+
  have "y div 100 < 100" "y mod 100 < 100"
    using valid_fields_bounds(1) [OF assms] by auto
  note bounds = this valid_fields_bounds(2-) [OF assms]
  show "length (rendered y m d h mi s) = 20"
    by (simp add: rendered_def pad2_def pad4_def)
  show "list_all (\<lambda>i. (\<not> punctuation_at i) = is_ascii_digit (rendered y m d h mi s ! i)) [0..<20]"
    using bounds
    by (simp add: rendered_def pad2_def pad4_def punctuation_at_def upt_rec [of _ 20] digits other
        del: upt_Suc)
qed (simp_all add: get_at_def rendered_def pad2_def pad4_def)

lemma instant_new_rendered:
  assumes "valid_fields y m d h mi s"
  shows "instant_new (rendered y m d h mi s) = Some (UtcInstant (rendered y m d h mi s))"
  using assms rendered_shape [OF assms] rendered_fields [OF assms]
  by (simp add: instant_new_def valid_fields_def)

lemma digit_pair:
  assumes "is_ascii_digit a" and "is_ascii_digit b"
  shows "\<exists>n < 100. [a, b] = pad2 n"
proof -
  from assms obtain x y where "x < 10" "y < 10" "a = decimal_digit x" "b = decimal_digit y"
    using is_ascii_digit_decimal by blast
  then show ?thesis by (intro exI [of _ "10 * x + y"]) (simp add: pad2_def)
qed

lemma upt_20: "[0..<20] = [0, 1, 2, 3, 4, 5, 6, 7, 8, 9, 10, 11, 12, 13, 14, 15, 16, 17, 18, 19]"
  by code_simp

lemma rendered_exists:
  assumes "length raw = 20"
    and "list_all (\<lambda>i. (\<not> punctuation_at i) = is_ascii_digit (raw ! i)) [0..<20]"
    and "get_at raw 4 = Some (CHR ''-'')" and "get_at raw 7 = Some (CHR ''-'')"
    and "get_at raw 10 = Some (CHR ''T'')" and "get_at raw 13 = Some (CHR '':'')"
    and "get_at raw 16 = Some (CHR '':'')" and "get_at raw 19 = Some (CHR ''Z'')"
  shows "\<exists>y m d h mi s. y < 10000 \<and> m < 100 \<and> d < 100 \<and> h < 100 \<and> mi < 100 \<and> s < 100
     \<and> raw = rendered y m d h mi s"
proof -
  have dig: "is_ascii_digit (raw ! i)" if "i < 20" "\<not> punctuation_at i" for i
    using assms(2) that by (auto simp: list_all_iff)
  have pair: "\<exists>n < 100. [raw ! i, raw ! j] = pad2 n"
    if "\<not> punctuation_at i" "\<not> punctuation_at j" "i < 20" "j < 20" for i j
    using that by (intro digit_pair dig)
  have at: "\<not> punctuation_at i" if "i \<in> {0, 1, 2, 3, 5, 6, 8, 9, 11, 12, 14, 15, 17, 18}" for i
    using that by (auto simp: punctuation_at_def)
  obtain y1 where y1: "y1 < 100" "[raw ! 0, raw ! 1] = pad2 y1" using pair [of 0 1] at by auto
  obtain y2 where y2: "y2 < 100" "[raw ! 2, raw ! 3] = pad2 y2" using pair [of 2 3] at by auto
  obtain m where m: "m < 100" "[raw ! 5, raw ! 6] = pad2 m" using pair [of 5 6] at by auto
  obtain d where d: "d < 100" "[raw ! 8, raw ! 9] = pad2 d" using pair [of 8 9] at by auto
  obtain h where h: "h < 100" "[raw ! 11, raw ! 12] = pad2 h" using pair [of 11 12] at by auto
  obtain mi where mi: "mi < 100" "[raw ! 14, raw ! 15] = pad2 mi" using pair [of 14 15] at by auto
  obtain s where s: "s < 100" "[raw ! 17, raw ! 18] = pad2 s" using pair [of 17 18] at by auto
  have marks: "raw ! 4 = CHR ''-''" "raw ! 7 = CHR ''-''" "raw ! 10 = CHR ''T''" "raw ! 13 = CHR '':''"
      "raw ! 16 = CHR '':''" "raw ! 19 = CHR ''Z''"
    using assms(1,3-) by (simp_all add: get_at_def)
  have "raw = map (\<lambda>i. raw ! i) [0..<20]"
    using assms(1) map_nth [of raw] by simp
  also have "\<dots> = [raw ! 0, raw ! 1] @ [raw ! 2, raw ! 3] @ [raw ! 4] @ [raw ! 5, raw ! 6] @ [raw ! 7]
      @ [raw ! 8, raw ! 9] @ [raw ! 10] @ [raw ! 11, raw ! 12] @ [raw ! 13] @ [raw ! 14, raw ! 15]
      @ [raw ! 16] @ [raw ! 17, raw ! 18] @ [raw ! 19]"
    unfolding upt_20 by simp
  also have "\<dots> = rendered (100 * y1 + y2) m d h mi s"
    unfolding rendered_def pad4_def marks y1(2) y2(2) m(2) d(2) h(2) mi(2) s(2)
    using y2(1) by simp
  finally show ?thesis
    using y1(1) y2(1) m(1) d(1) h(1) mi(1) s(1) by (intro exI [of _ "100 * y1 + y2"] exI [of _ m] exI [of _ d] exI [of _ h]
        exI [of _ mi] exI [of _ s]) simp
qed

lemma rendered_fields_bounded:
  assumes "y < 10000" "m < 100" "d < 100" "h < 100" "mi < 100" "s < 100"
  shows "field (rendered y m d h mi s) 0 4 = Some y"
    and "field (rendered y m d h mi s) 5 2 = Some m"
    and "field (rendered y m d h mi s) 8 2 = Some d"
    and "field (rendered y m d h mi s) 11 2 = Some h"
    and "field (rendered y m d h mi s) 14 2 = Some mi"
    and "field (rendered y m d h mi s) 17 2 = Some s"
  using assms by (simp_all add: field_def rendered_ranges field_fold_pad2 field_fold_pad4)

lemma instant_new_iff:
  "instant_new raw = Some i \<longleftrightarrow>
     (\<exists>y m d h mi s. valid_fields y m d h mi s \<and> raw = rendered y m d h mi s \<and> i = UtcInstant raw)"
proof
  assume new: "instant_new raw = Some i"
  then have "\<exists>y m d h mi s. y < 10000 \<and> m < 100 \<and> d < 100 \<and> h < 100 \<and> mi < 100 \<and> s < 100
     \<and> raw = rendered y m d h mi s"
    by (intro rendered_exists) (simp_all add: instant_new_def split: if_splits)
  then obtain y m d h mi s where f: "y < 10000" "m < 100" "d < 100" "h < 100" "mi < 100" "s < 100"
      "raw = rendered y m d h mi s" by blast
  with new rendered_fields_bounded [OF f(1-6)] have "valid_fields y m d h mi s \<and> i = UtcInstant raw"
    by (auto simp: instant_new_def valid_fields_def split: if_splits)
  with f(7) show "\<exists>y m d h mi s. valid_fields y m d h mi s \<and> raw = rendered y m d h mi s
      \<and> i = UtcInstant raw" by blast
next
  assume "\<exists>y m d h mi s. valid_fields y m d h mi s \<and> raw = rendered y m d h mi s \<and> i = UtcInstant raw"
  then show "instant_new raw = Some i" using instant_new_rendered by auto
qed

lemma epoch_rendered:
  assumes "valid_fields y m d h mi s"
  shows "epoch_seconds (UtcInstant (rendered y m d h mi s)) =
     days_from_civil (int y) (int m) (int d) * 86400 + int h * 3600 + int mi * 60 + int s"
  using rendered_fields [OF assms] by (simp add: epoch_seconds_def)

lemma rendered_less:
  assumes "valid_fields y m d h mi s" and "valid_fields y' m' d' h' mi' s'"
  shows "rendered y m d h mi s < rendered y' m' d' h' mi' s' \<longleftrightarrow>
     y < y' \<or> y = y' \<and> (m < m' \<or> m = m' \<and> (d < d' \<or> d = d' \<and> (h < h' \<or> h = h' \<and> (mi < mi' \<or> mi = mi' \<and> s < s'))))"
  using valid_fields_bounds [OF assms(1)] valid_fields_bounds [OF assms(2)]
  by (simp add: rendered_def pad4_less pad2_less)

section \<open>The order of days\<close>

definition leap_count :: "int \<Rightarrow> int" where
  "leap_count y = 365 * y + y div 4 - y div 100 + y div 400"

lemma leap_count_step:
  "leap_count (y + 1) = leap_count y + 365
     + (if (y + 1) mod 4 = 0 \<and> ((y + 1) mod 100 \<noteq> 0 \<or> (y + 1) mod 400 = 0) then 1 else 0)"
proof -
  have "(4 :: int) dvd y + 1" if "(100 :: int) dvd y + 1"
    using that dvd_trans [of 4 100 "y + 1"] by simp
  moreover have "(100 :: int) dvd y + 1" if "(400 :: int) dvd y + 1"
    using that dvd_trans [of 100 400 "y + 1"] by simp
  ultimately show ?thesis
    unfolding leap_count_def mod_eq_0_iff_dvd
    by (cases "4 dvd y + 1"; cases "100 dvd y + 1"; cases "400 dvd y + 1"; simp add: div_plus_one)
qed

lemma days_from_civil_eq:
  "days_from_civil y m d =
     leap_count (if m \<le> 2 then y - 1 else y)
     + (153 * (if 2 < m then m - 3 else m + 9) + 2) div 5 + d - 719469"
proof -
  have era: "(sy - e * 400) div 4 = sy div 4 - e * 100"
       "(sy - e * 400) div 100 = sy div 100 - e * 4" for sy e :: int
    using div_mult_self1 [of 4 sy "- (e * 100)"] div_mult_self1 [of 100 sy "- (e * 4)"]
    by simp_all
  define sy where "sy = (if m \<le> 2 then y - 1 else y)"
  define mi where "mi = (if 2 < m then m - 3 else m + 9)"
  show ?thesis
    unfolding days_from_civil_def leap_count_def Let_def era sy_def [symmetric] mi_def [symmetric]
    by (simp only: left_diff_distrib mult.commute [of sy 365] mult.assoc)
qed

text \<open>The first day of a month, the months numbered through from January of year zero.\<close>

definition month_start :: "nat \<Rightarrow> int" where
  "month_start t = days_from_civil (int (t div 12)) (int (t mod 12) + 1) 1"

lemma month_step:
  assumes "k < 11"
  shows "days_from_civil (int y) (int k + 2) 1 =
     days_from_civil (int y) (int k + 1) 1 + int (days_in_month y (k + 1))"
proof (cases "k = 1")
  case True
  have "leap_count (int y) = leap_count (int y - 1) + 365 + (if leap_year y then 1 else 0)"
    using leap_count_step [of "int y - 1"] leap_year_int [of "int y"] by simp
  with True show ?thesis by (simp add: days_from_civil_eq days_in_month_def)
next
  case False
  with assms have "k \<in> {0, 2, 3, 4, 5, 6, 7, 8, 9, 10}"
    by (simp only: insert_iff empty_iff) presburger
  then show ?thesis
    by (elim insertE) (simp_all add: days_from_civil_eq days_in_month_def)
qed

lemma month_start_Suc:
  "month_start (Suc t) = month_start t + int (days_in_month (t div 12) (t mod 12 + 1))"
proof (cases "t mod 12 = 11")
  case True
  then have "Suc t div 12 = Suc (t div 12)" "Suc t mod 12 = 0" by (simp_all add: div_Suc mod_Suc)
  with True show ?thesis
    by (simp add: month_start_def days_from_civil_eq days_in_month_def)
next
  case False
  then have "Suc t div 12 = t div 12" "Suc t mod 12 = Suc (t mod 12)" "t mod 12 < 11"
    using mod_less_divisor [of 12 t] by (simp_all add: div_Suc mod_Suc)
  with month_step [of "t mod 12" "t div 12"] show ?thesis
    by (simp add: month_start_def add.commute)
qed

lemma month_start_mono: "a \<le> b \<Longrightarrow> month_start a \<le> month_start b"
  by (rule lift_Suc_mono_le [of month_start]) (simp add: month_start_Suc)

lemma days_from_civil_month:
  assumes "1 \<le> m" and "m \<le> 12" and "1 \<le> d" and "d \<le> days_in_month y m"
  shows "month_start (12 * y + m - 1) \<le> days_from_civil (int y) (int m) (int d)"
    and "days_from_civil (int y) (int m) (int d) < month_start (12 * y + m)"
proof -
  let ?t = "12 * y + m - 1"
  obtain k where "m = Suc k" using assms(1) by (cases m) simp_all
  then have t: "?t div 12 = y" "?t mod 12 = m - 1" "Suc ?t = 12 * y + m"
    using assms(2) by simp_all
  have "days_from_civil (int y) (int m) (int d) = month_start ?t + int d - 1"
  proof -
    have "int (m - 1) + 1 = int m" using assms(1) by simp
    then show ?thesis by (simp only: month_start_def t days_from_civil_eq)
  qed
  moreover have "month_start (12 * y + m) = month_start ?t + int (days_in_month y m)"
    using month_start_Suc [of ?t] assms(1) by (simp only: t) simp
  ultimately show "month_start ?t \<le> days_from_civil (int y) (int m) (int d)"
      "days_from_civil (int y) (int m) (int d) < month_start (12 * y + m)"
    using assms by simp_all
qed

lemma days_from_civil_less:
  assumes "1 \<le> m" "m \<le> 12" "1 \<le> d" "d \<le> days_in_month y m"
    and "1 \<le> m'" "m' \<le> 12" "1 \<le> d'" "d' \<le> days_in_month y' m'"
    and "y < y' \<or> y = y' \<and> (m < m' \<or> m = m' \<and> d < d')"
  shows "days_from_civil (int y) (int m) (int d) < days_from_civil (int y') (int m') (int d')"
proof (cases "y = y' \<and> m = m'")
  case True
  with assms(9) show ?thesis by (simp add: days_from_civil_eq)
next
  case False
  with assms(1,2,5,6,9) have "12 * y + m \<le> 12 * y' + m' - 1" by auto
  then show ?thesis
    using days_from_civil_month(2) [OF assms(1-4)] days_from_civil_month(1) [OF assms(5-8)]
      month_start_mono [of "12 * y + m" "12 * y' + m' - 1"] by linarith
qed

section \<open>Text order is time order\<close>

lemma epoch_rendered_less:
  assumes v: "valid_fields y m d h mi s" and v': "valid_fields y' m' d' h' mi' s'"
    and less: "rendered y m d h mi s < rendered y' m' d' h' mi' s'"
  shows "epoch_seconds (UtcInstant (rendered y m d h mi s)) <
     epoch_seconds (UtcInstant (rendered y' m' d' h' mi' s'))"
proof (cases "y = y' \<and> m = m' \<and> d = d'")
  case True
  then have "h < h' \<or> h = h' \<and> (mi < mi' \<or> mi = mi' \<and> s < s')"
    using less [unfolded rendered_less [OF v v']] by simp
  moreover have "mi \<le> 59" "s \<le> 59" "mi' \<le> 59" "s' \<le> 59"
    using v v' by (simp_all add: valid_fields_def)
  ultimately have "int h * 3600 + int mi * 60 + int s < int h' * 3600 + int mi' * 60 + int s'"
    by linarith
  then show ?thesis
    unfolding epoch_rendered [OF v] epoch_rendered [OF v'] using True by simp
next
  case False
  then have "y < y' \<or> y = y' \<and> (m < m' \<or> m = m' \<and> d < d')"
    using less [unfolded rendered_less [OF v v']] by blast
  then have "days_from_civil (int y) (int m) (int d) < days_from_civil (int y') (int m') (int d')"
    using v v' by (intro days_from_civil_less) (simp_all add: valid_fields_def)
  moreover have "h \<le> 23" "mi \<le> 59" "s \<le> 59"
    using v by (simp_all add: valid_fields_def)
  ultimately show ?thesis
    unfolding epoch_rendered [OF v] epoch_rendered [OF v'] by linarith
qed

lemma instant_less_iff:
  assumes "instant_new a = Some i" and "instant_new b = Some j"
  shows "i < j \<longleftrightarrow> epoch_seconds i < epoch_seconds j"
proof -
  from assms obtain y m d h mi s y' m' d' h' mi' s'
    where v: "valid_fields y m d h mi s" "i = UtcInstant (rendered y m d h mi s)"
      and v': "valid_fields y' m' d' h' mi' s'" "j = UtcInstant (rendered y' m' d' h' mi' s')"
    unfolding instant_new_iff by blast
  show ?thesis
  proof (cases i j rule: linorder_cases)
    case less
    with epoch_rendered_less [OF v(1) v'(1)] v(2) v'(2) show ?thesis
      by (simp add: less_utc_instant_def)
  next
    case greater
    with epoch_rendered_less [OF v'(1) v(1)] v(2) v'(2) show ?thesis
      by (simp add: less_utc_instant_def)
  qed simp
qed

lemma valid_fields_epoch_range:
  assumes "valid_fields y m d h mi s"
  shows "min_epoch_seconds \<le> epoch_seconds (UtcInstant (rendered y m d h mi s))"
    and "epoch_seconds (UtcInstant (rendered y m d h mi s)) \<le> max_epoch_seconds"
proof -
  have b: "1 \<le> m" "m \<le> 12" "1 \<le> d" "d \<le> days_in_month y m" "y < 10000" "h \<le> 23" "mi \<le> 59" "s \<le> 59"
    using assms by (simp_all add: valid_fields_def)
  have "month_start 0 = - 719528" "month_start 120000 = 2932897"
    by (simp_all add: month_start_def days_from_civil_def)
  moreover have "month_start 0 \<le> month_start (12 * y + m - 1)" "month_start (12 * y + m) \<le> month_start 120000"
    using b by (auto intro: month_start_mono)
  ultimately have "- 719528 \<le> days_from_civil (int y) (int m) (int d)"
      "days_from_civil (int y) (int m) (int d) < 2932897"
    using days_from_civil_month [OF b(1-4)] by linarith+
  with b show "min_epoch_seconds \<le> epoch_seconds (UtcInstant (rendered y m d h mi s))"
      "epoch_seconds (UtcInstant (rendered y m d h mi s)) \<le> max_epoch_seconds"
    unfolding epoch_rendered [OF assms] min_epoch_seconds_def max_epoch_seconds_def by linarith+
qed

lemma civil_year_eq:
  assumes "civil_from_days days = (year, month, day)"
    and "era = (days + 719468) div 146097" and "doe = (days + 719468) mod 146097"
    and "mp = (5 * (doe - era_year_start (year_of_era doe)) + 2) div 153"
  shows "year = year_of_era doe + era * 400 + (if month \<le> 2 then 1 else 0)"
    and "month = mp + (if mp < 10 then 3 else - 9)"
proof -
  have doe: "(days + 719468) - era * 146097 = doe"
    by (simp add: assms(2,3) minus_div_mult_eq_mod)
  from assms(1) [unfolded civil_from_days_def Let_def, folded assms(2), unfolded doe,
      folded era_year_start_def, folded assms(4)]
  show "year = year_of_era doe + era * 400 + (if month \<le> 2 then 1 else 0)"
    and "month = mp + (if mp < 10 then 3 else - 9)"
    by (simp_all only: prod.inject) auto
qed

lemma civil_year_nonneg:
  assumes "- 719528 \<le> days" and "civil_from_days days = (year, month, day)"
  shows "0 \<le> year"
proof -
  define era doe where "era = (days + 719468) div 146097" and "doe = (days + 719468) mod 146097"
  define mp where "mp = (5 * (doe - era_year_start (year_of_era doe)) + 2) div 153"
  have doe: "0 \<le> doe" "doe < 146097" by (simp_all add: doe_def)
  note year = civil_year_eq [OF assms(2) era_def doe_def mp_def]
  show ?thesis
  proof (cases "0 \<le> days + 719468")
    case True
    then have "0 \<le> era" unfolding era_def by (intro pos_imp_zdiv_nonneg_iff [THEN iffD2]) simp_all
    with year_of_era_bounds(1) [OF doe] year(1) show ?thesis by simp
  next
    case False
    let ?sd = "days + 719468"
    have era: "era = - 1"
      unfolding era_def using False assms(1) by (intro int_div_pos_eq [of _ _ _ "?sd + 146097"]) simp_all
    then have "doe = ?sd + 146097"
      using div_mult_mod_eq [of ?sd 146097] by (simp only: era_def [symmetric] doe_def [symmetric])
    then have big: "146037 \<le> doe" using assms(1) by simp
    moreover have "year_of_era 146037 = 399" by code_simp
    ultimately have yoe: "year_of_era doe = 399"
      using year_of_era_bounds(2) [OF doe] year_of_era_mono [of 146037 doe] by linarith
    have "10 * 153 \<le> 5 * (doe - era_year_start 399) + 2"
      using big by (simp add: era_year_start_def)
    then have "10 \<le> mp"
      unfolding mp_def yoe using zdiv_mono1 [of "10 * 153" _ 153] by force
    moreover have "mp \<le> 11"
      using month_piece_bounds(2) [of "doe - era_year_start 399" mp] big doe(2)
      by (simp add: mp_def yoe era_year_start_def)
    ultimately show ?thesis using year era yoe by simp
  qed
qed

lemma div_less_bound:
  fixes a k n :: int
  assumes "0 < k" and "a < n * k"
  shows "a div k < n"
proof (rule ccontr)
  assume "\<not> a div k < n"
  then have "n * k \<le> a div k * k" using assms(1) by (intro mult_right_mono) simp_all
  with assms div_mult_mod_eq [of a k] pos_mod_sign [of k a] show False by linarith
qed

lemma seconds_of_day: "ds div 3600 * 3600 + ds mod 3600 div 60 * 60 + ds mod 60 = (ds :: int)"
proof -
  have "ds mod 3600 mod 60 = ds mod 60" by (rule mod_mod_cancel) simp
  with div_mult_mod_eq [of "ds mod 3600" 60] div_mult_mod_eq [of ds 3600] show ?thesis
    by (simp only: add.assoc)
qed

lemma from_epoch_total:
  assumes "min_epoch_seconds \<le> t" and "t \<le> max_epoch_seconds"
  shows "\<exists>y m d h mi s. valid_fields y m d h mi s
     \<and> from_epoch_seconds t = Some (UtcInstant (rendered y m d h mi s))
     \<and> epoch_seconds (UtcInstant (rendered y m d h mi s)) = t"
proof -
  define days where "days = t div 86400"
  define ds where "ds = t mod 86400"
  have t: "t = days * 86400 + ds" by (simp add: days_def ds_def)
  have ds: "0 \<le> ds" "ds < 86400" by (simp_all add: ds_def)
  obtain year month day where c: "civil_from_days days = (year, month, day)" by (rule prod_cases3)
  have days: "- 719528 \<le> days" "days < 2932897"
    using assms t ds by (simp_all add: min_epoch_seconds_def max_epoch_seconds_def)
  note year = civil_year_nonneg [OF days(1) c]
  note f = civil_from_days_facts [OF c year]
  define y m d where "y = nat year" and "m = nat month" and "d = nat day"
  have ymd: "year = int y" "month = int m" "day = int d"
    using year f(2,4) by (simp_all add: y_def m_def d_def)
  have md: "1 \<le> m" "m \<le> 12" "1 \<le> d" "d \<le> days_in_month y m"
    using f by (simp_all add: ymd y_def [symmetric])
  have "y < 10000"
  proof (rule ccontr)
    assume "\<not> y < 10000"
    then have "month_start 120000 \<le> month_start (12 * y + m - 1)"
      using md(1) by (intro month_start_mono) simp
    moreover have "month_start 120000 = 2932897" by (simp add: month_start_def days_from_civil_def)
    ultimately show False
      using days_from_civil_month(1) [OF md] f(1) days(2) by (simp add: ymd)
  qed
  define h mi s where "h = nat (ds div 3600)" and "mi = nat (ds mod 3600 div 60)" and "s = nat (ds mod 60)"
  have hms: "ds div 3600 = int h" "ds mod 3600 div 60 = int mi" "ds mod 60 = int s"
    using ds by (simp_all add: h_def mi_def s_def pos_imp_zdiv_nonneg_iff)
  have "ds div 3600 < 24" "ds mod 3600 div 60 < 60" "ds mod 60 < 60"
    using ds by (simp_all add: div_less_bound)
  then have "h \<le> 23" "mi \<le> 59" "s \<le> 59"
    unfolding hms by simp_all
  then have v: "valid_fields y m d h mi s"
    using md \<open>y < 10000\<close> by (simp add: valid_fields_def)
  have "from_epoch_seconds t = Some (UtcInstant (rendered y m d h mi s))"
    using assms c instant_new_rendered [OF v]
    unfolding from_epoch_seconds_def Let_def days_def [symmetric] ds_def [symmetric] hms
    by (simp add: ymd instant_text_rendered [OF v])
  moreover have "epoch_seconds (UtcInstant (rendered y m d h mi s)) = t"
  proof -
    have "int h * 3600 + int mi * 60 + int s = ds"
      unfolding hms [symmetric] by (rule seconds_of_day)
    then show ?thesis unfolding epoch_rendered [OF v] using f(1) t by (simp add: ymd)
  qed
  ultimately show ?thesis using v by blast
qed

lemma from_epoch_instant:
  assumes "min_epoch_seconds \<le> t \<and> t \<le> max_epoch_seconds"
  shows "\<exists>i. from_epoch_seconds t = Some i \<and> instant_new (instant_str i) = Some i \<and> epoch_seconds i = t"
proof -
  obtain y m d h mi s where v: "valid_fields y m d h mi s"
      "from_epoch_seconds t = Some (UtcInstant (rendered y m d h mi s))"
      "epoch_seconds (UtcInstant (rendered y m d h mi s)) = t"
    using from_epoch_total assms by blast
  show ?thesis
    by (rule exI [of _ "UtcInstant (rendered y m d h mi s)"])
      (simp add: v(2,3) instant_new_rendered [OF v(1)])
qed

text \<open>
  C16. For two instants the validator accepts, the program's comparison of the texts is the
  comparison of the Unix seconds they denote: lexicographic order is chronological order,
  as the expiry checks of debts and waivers need.
\<close>

theorem instant_order_chronological:
  assumes "instant_new a = Some i" and "instant_new b = Some j"
  shows "(i < j \<longleftrightarrow> epoch_seconds i < epoch_seconds j)
     \<and> (i = j \<longleftrightarrow> epoch_seconds i = epoch_seconds j)"
proof -
  have "i < j \<longleftrightarrow> epoch_seconds i < epoch_seconds j" "j < i \<longleftrightarrow> epoch_seconds j < epoch_seconds i"
    using instant_less_iff assms by blast+
  then show ?thesis by (metis linorder_less_linear order_less_irrefl)
qed

lemma decimal_digit_table:
  "decimal_digit 0 = CHR ''0''" "decimal_digit (Suc 0) = CHR ''1''" "decimal_digit 2 = CHR ''2''"
  "decimal_digit 3 = CHR ''3''" "decimal_digit 4 = CHR ''4''" "decimal_digit 5 = CHR ''5''"
  "decimal_digit 9 = CHR ''9''"
  by code_simp+

lemma rendered_example:
  "valid_fields 2024 2 29 23 59 59" "rendered 2024 2 29 23 59 59 = ''2024-02-29T23:59:59Z''"
  "valid_fields 2024 3 1 0 0 0" "rendered 2024 3 1 0 0 0 = ''2024-03-01T00:00:00Z''"
  by (simp_all add: valid_fields_def days_in_month_def leap_year_def rendered_def pad4_def pad2_def
      decimal_digit_table)

theorem instant_order_chronological_witness:
  "instant_new ''2024-02-29T23:59:59Z'' = Some (UtcInstant ''2024-02-29T23:59:59Z'')
   \<and> instant_new ''2024-03-01T00:00:00Z'' = Some (UtcInstant ''2024-03-01T00:00:00Z'')
   \<and> epoch_seconds (UtcInstant ''2024-02-29T23:59:59Z'') < epoch_seconds (UtcInstant ''2024-03-01T00:00:00Z'')"
proof -
  note a = instant_new_rendered [OF rendered_example(1), unfolded rendered_example(2)]
  note b = instant_new_rendered [OF rendered_example(3), unfolded rendered_example(4)]
  have "UtcInstant ''2024-02-29T23:59:59Z'' < UtcInstant ''2024-03-01T00:00:00Z''"
    by (simp add: less_utc_instant_def)
  then have "epoch_seconds (UtcInstant ''2024-02-29T23:59:59Z'') < epoch_seconds (UtcInstant ''2024-03-01T00:00:00Z'')"
    by (rule iffD1 [OF conjunct1 [OF instant_order_chronological [OF a b]]])
  with a b show ?thesis by (intro conjI)
qed

text \<open>
  C17. The two conversions are inverse. Every second in the accepted range, from the first
  second of year 0 to the last of year 9999, converts to an instant that the validator
  accepts and that converts back to it; every accepted instant lies in the range and is
  what its own seconds convert to; a second outside the range is refused.
\<close>

theorem epoch_roundtrip:
  "(min_epoch_seconds \<le> t \<and> t \<le> max_epoch_seconds \<longrightarrow>
      (\<exists>i. from_epoch_seconds t = Some i \<and> instant_new (instant_str i) = Some i \<and> epoch_seconds i = t))
   \<and> (instant_new raw = Some i \<longrightarrow> from_epoch_seconds (epoch_seconds i) = Some i)
   \<and> (t < min_epoch_seconds \<or> max_epoch_seconds < t \<longrightarrow> from_epoch_seconds t = None)"
proof (intro conjI impI)
  assume "min_epoch_seconds \<le> t \<and> t \<le> max_epoch_seconds"
  then show "\<exists>i. from_epoch_seconds t = Some i \<and> instant_new (instant_str i) = Some i \<and> epoch_seconds i = t"
    by (rule from_epoch_instant)
next
  assume new: "instant_new raw = Some i"
  then obtain y m d h mi s
    where v: "valid_fields y m d h mi s" "i = UtcInstant (rendered y m d h mi s)"
    unfolding instant_new_iff by blast
  then have "min_epoch_seconds \<le> epoch_seconds i \<and> epoch_seconds i \<le> max_epoch_seconds"
    using valid_fields_epoch_range [OF v(1)] by (simp only: v(2))
  then obtain j where j: "from_epoch_seconds (epoch_seconds i) = Some j"
      "instant_new (instant_str j) = Some j" "epoch_seconds j = epoch_seconds i"
    using from_epoch_instant by blast
  have "i = j"
    using instant_less_iff [OF new j(2)] instant_less_iff [OF j(2) new] j(3)
    by (metis linorder_less_linear order_less_irrefl)
  with j(1) show "from_epoch_seconds (epoch_seconds i) = Some i" by simp
next
  assume "t < min_epoch_seconds \<or> max_epoch_seconds < t"
  then have "\<not> (min_epoch_seconds \<le> t \<and> t \<le> max_epoch_seconds)" by linarith
  then show "from_epoch_seconds t = None" unfolding from_epoch_seconds_def by (rule if_P)
qed

theorem epoch_roundtrip_witness:
  "(\<exists>i. from_epoch_seconds 951782400 = Some i \<and> instant_new (instant_str i) = Some i
      \<and> epoch_seconds i = 951782400)
   \<and> from_epoch_seconds (epoch_seconds (UtcInstant ''2024-02-29T23:59:59Z'')) =
      Some (UtcInstant ''2024-02-29T23:59:59Z'')
   \<and> from_epoch_seconds 253402300800 = None"
proof (intro conjI)
  have "min_epoch_seconds \<le> 951782400 \<and> 951782400 \<le> max_epoch_seconds"
    by (simp add: min_epoch_seconds_def max_epoch_seconds_def)
  then show "\<exists>i. from_epoch_seconds 951782400 = Some i \<and> instant_new (instant_str i) = Some i
      \<and> epoch_seconds i = 951782400"
    by (rule mp [OF conjunct1 [OF epoch_roundtrip]])
  show "from_epoch_seconds (epoch_seconds (UtcInstant ''2024-02-29T23:59:59Z'')) =
      Some (UtcInstant ''2024-02-29T23:59:59Z'')"
    by (rule mp [OF conjunct1 [OF conjunct2 [OF epoch_roundtrip]],
          OF instant_new_rendered [OF rendered_example(1), unfolded rendered_example(2)]])
  have "253402300800 < min_epoch_seconds \<or> max_epoch_seconds < 253402300800"
    by (simp add: max_epoch_seconds_def)
  then show "from_epoch_seconds 253402300800 = None"
    by (rule mp [OF conjunct2 [OF conjunct2 [OF epoch_roundtrip]]])
qed

end
