(* ===== verification/Wire_Identity.thy ===== *)
theory Wire_Identity
  imports Btree
begin

text \<open>
  Identities, \<open>crates/amiss-wire/src/model/identity.rs\<close> and \<open>model/adapter.rs\<close>: artifact
  and owner identifiers, branch references, repository identities, the source adapters and
  the forge dialect of a host. The branch-reference scanner is characterised exactly,
  which shows that its \<open>.lock\<close> rule reaches the last component only.
\<close>

section \<open>Artifact and owner identifiers\<close>

definition id_body_valid :: "bytes \<Rightarrow> nat \<Rightarrow> bool" where
  "id_body_valid raw maximum =
     (case raw of
        [] \<Rightarrow> False
      | first # rest \<Rightarrow>
          if maximum < length raw \<or> (\<not> is_ascii_lowercase first \<and> \<not> is_ascii_digit first) then False
          else list_all (\<lambda>b. is_ascii_lowercase b \<or> is_ascii_digit b
                 \<or> b \<in> {CHR ''.'', CHR ''_'', CHR ''/'', CHR ''-''}) rest)"

datatype artifact_id = ArtifactId bytes

definition artifact_id_try_from :: "bytes \<Rightarrow> (string, artifact_id) result" where
  "artifact_id_try_from raw =
     (if id_body_valid raw 128 then Inr (ArtifactId raw) else Inl ''invalid artifact identity'')"

datatype owner_id = OwnerId bytes

fun find_map :: "('a \<Rightarrow> 'b option) \<Rightarrow> 'a list \<Rightarrow> 'b option" where
  "find_map f [] = None"
| "find_map f (x # xs) = (case f x of None \<Rightarrow> find_map f xs | Some y \<Rightarrow> Some y)"

definition owner_id_new :: "bytes \<Rightarrow> owner_id option" where
  "owner_id_new raw =
     (if 160 < length raw then None
      else do {
        body \<leftarrow> find_map (\<lambda>pre. strip_prefix pre raw) [''team:'', ''service:'', ''user:''];
        if id_body_valid body 160 then Some (OwnerId raw) else None
      })"

section \<open>Branch references\<close>

fun bytes_equal_scan :: "bytes \<Rightarrow> bytes \<Rightarrow> bool" where
  "bytes_equal_scan (a # left) (b # right) = (if a \<noteq> b then False else bytes_equal_scan left right)"
| "bytes_equal_scan _ _ = True"

definition bytes_equal :: "bytes \<Rightarrow> bytes \<Rightarrow> bool" where
  "bytes_equal left right =
     (if length left \<noteq> length right then False else bytes_equal_scan left right)"

definition const_strip_prefix :: "bytes \<Rightarrow> bytes \<Rightarrow> bytes option" where
  "const_strip_prefix raw pre =
     (if length raw < length pre then None
      else if bytes_equal (take (length pre) raw) pre then Some (drop (length pre) raw)
      else None)"

definition ends_with :: "bytes \<Rightarrow> bytes \<Rightarrow> bytes \<Rightarrow> bool" where
  "ends_with component tail suf =
     (if length component < length tail then False
      else let len = length component - length tail in
        if len < length suf then False
        else let rest = drop (len - length suf) component in
          if length rest < length suf then False
          else bytes_equal (take (length suf) rest) suf)"

definition forbidden_ref_byte :: "byte \<Rightarrow> bool" where
  "forbidden_ref_byte b \<longleftrightarrow> of_char b < (0x20 :: nat) \<or> of_char b = (0x7f :: nat)
     \<or> b \<in> {CHR '' '', CHR ''~'', CHR ''^'', CHR '':'', CHR ''?'', CHR ''*'', CHR ''['', CHR 0x5C}"

fun branch_scan :: "bytes \<Rightarrow> byte \<Rightarrow> bytes \<Rightarrow> bool" where
  "branch_scan component previous [] =
     (previous \<noteq> CHR ''/'' \<and> previous \<noteq> CHR ''.'' \<and> \<not> ends_with component [] ''.lock'')"
| "branch_scan component previous (b # tail) =
     (if forbidden_ref_byte b
         \<or> (previous = CHR ''.'' \<and> b = CHR ''.'')
         \<or> (previous = CHR ''@'' \<and> b = CHR ''{'')
         \<or> (previous = CHR ''/'' \<and> (b = CHR ''/'' \<or> b = CHR ''.'')) then False
      else if b = CHR ''/'' then
        (if ends_with component tail ''.lock'' then False else branch_scan tail b tail)
      else branch_scan component b tail)"

definition branch_ref_valid :: "bytes \<Rightarrow> bool" where
  "branch_ref_valid raw =
     (case const_strip_prefix raw ''refs/heads/'' of
        None \<Rightarrow> False
      | Some rest \<Rightarrow>
          if 266 < length raw \<or> rest = [] then False
          else branch_scan rest (CHR ''/'') rest)"

datatype branch_ref = BranchRef (branch_ref_str: bytes)

definition branch_ref_try_from :: "bytes \<Rightarrow> (string, branch_ref) result" where
  "branch_ref_try_from raw =
     (if branch_ref_valid raw then Inr (BranchRef raw) else Inl ''invalid branch reference'')"

definition branch_ref_name :: "branch_ref \<Rightarrow> bytes" where
  "branch_ref_name r =
     (case strip_prefix ''refs/heads/'' (branch_ref_str r) of
        None \<Rightarrow> branch_ref_str r | Some n \<Rightarrow> n)"

lemma bytes_equal_iff [simp]: "bytes_equal a b \<longleftrightarrow> a = b"
proof -
  have "length a = length b \<Longrightarrow> bytes_equal_scan a b \<longleftrightarrow> a = b"
    by (induction a b rule: bytes_equal_scan.induct) auto
  then show ?thesis by (auto simp: bytes_equal_def)
qed

lemma const_strip_prefix_iff: "const_strip_prefix raw p = Some r \<longleftrightarrow> raw = p @ r"
proof
  assume "const_strip_prefix raw p = Some r"
  then have "take (length p) raw = p" "drop (length p) raw = r"
    by (simp_all add: const_strip_prefix_def split: if_splits)
  then show "raw = p @ r" by (metis append_take_drop_id)
qed (simp add: const_strip_prefix_def)

lemma ends_with_iff: "ends_with (p @ tail) tail suf \<longleftrightarrow> suffix suf p"
proof
  assume "ends_with (p @ tail) tail suf"
  then have "drop (length p - length suf) p = suf"
    by (simp add: ends_with_def Let_def split: if_splits)
  then show "suffix suf p" by (metis suffix_drop)
next
  assume "suffix suf p"
  then show "ends_with (p @ tail) tail suf" by (auto simp: ends_with_def Let_def suffix_def)
qed

definition ref_pair :: "byte \<Rightarrow> byte \<Rightarrow> bool" where
  "ref_pair a b \<longleftrightarrow> \<not> (a = CHR ''.'' \<and> b = CHR ''.'') \<and> \<not> (a = CHR ''@'' \<and> b = CHR ''{'')
     \<and> \<not> (a = CHR ''/'' \<and> (b = CHR ''/'' \<or> b = CHR ''.''))"

lemma suffix_after_slash:
  "CHR ''/'' \<notin> set suf \<Longrightarrow> suffix suf (p @ CHR ''/'' # tail) \<longleftrightarrow> suffix suf tail"
  by (auto simp: suffix_append suffix_Cons)

lemma branch_scan_iff:
  assumes "CHR ''/'' \<notin> set p" and "prev = last (CHR ''/'' # p)"
  shows "branch_scan (p @ rest) prev rest \<longleftrightarrow>
     list_all (\<lambda>b. \<not> forbidden_ref_byte b) rest \<and> successively ref_pair (prev # rest)
     \<and> last (prev # rest) \<notin> {CHR ''/'', CHR ''.''} \<and> \<not> suffix ''.lock'' (p @ rest)"
  using assms
proof (induction rest arbitrary: p prev)
  case Nil
  then show ?case using ends_with_iff [of p "[]" "''.lock''"] by simp
next
  case (Cons b tail)
  show ?case
  proof (cases "b = CHR ''/''")
    case True
    have "\<not> ends_with (p @ b # tail) tail ''.lock''"
      using True ends_with_iff [of "p @ [b]" tail "''.lock''"] by (simp add: suffix_def)
    moreover have "suffix ''.lock'' (p @ b # tail) \<longleftrightarrow> suffix ''.lock'' tail"
      unfolding True by (rule suffix_after_slash) simp
    moreover have "branch_scan tail b tail \<longleftrightarrow>
        list_all (\<lambda>b. \<not> forbidden_ref_byte b) tail \<and> successively ref_pair (b # tail)
        \<and> last (b # tail) \<notin> {CHR ''/'', CHR ''.''} \<and> \<not> suffix ''.lock'' tail"
      using Cons.IH [of "[]" b] True by simp
    moreover have "last (prev # b # tail) = last (b # tail)" by simp
    ultimately show ?thesis
      using True ref_pair_def [of prev b]
      by (simp only: branch_scan.simps list.pred_inject successively.simps) auto
  next
    case False
    then have "CHR ''/'' \<notin> set (p @ [b])" using Cons.prems by simp
    then have "branch_scan (p @ b # tail) b tail \<longleftrightarrow>
        list_all (\<lambda>b. \<not> forbidden_ref_byte b) tail \<and> successively ref_pair (b # tail)
        \<and> last (b # tail) \<notin> {CHR ''/'', CHR ''.''} \<and> \<not> suffix ''.lock'' (p @ b # tail)"
      using Cons.IH [of "p @ [b]" b] by simp
    moreover have "last (prev # b # tail) = last (b # tail)" by simp
    ultimately show ?thesis
      using False by (simp only: branch_scan.simps list.pred_inject successively.simps ref_pair_def [of prev b]) auto
  qed
qed

text \<open>
  C19. What the branch-reference validator accepts, exactly: the prefix \<open>refs/heads/\<close>, at
  most 266 bytes, a non-empty name with no control byte and none of the bytes Git forbids,
  no \<open>..\<close>, no at sign before an opening brace, no component that is empty or starts with a dot, and a name that
  ends neither in a slash or dot nor in \<open>.lock\<close>. Only the end of the whole name is tested
  for \<open>.lock\<close>.
\<close>

theorem branch_ref_valid_iff:
  "branch_ref_valid raw \<longleftrightarrow>
     (\<exists>name. raw = ''refs/heads/'' @ name \<and> length raw \<le> 266 \<and> name \<noteq> []
        \<and> list_all (\<lambda>b. \<not> forbidden_ref_byte b) name
        \<and> successively ref_pair (CHR ''/'' # name)
        \<and> last name \<notin> {CHR ''/'', CHR ''.''} \<and> \<not> suffix ''.lock'' name)"
proof (cases "const_strip_prefix raw ''refs/heads/''")
  case None
  then have "raw \<noteq> ''refs/heads/'' @ name" for name
    using const_strip_prefix_iff [of raw "''refs/heads/''" name] by (simp only: option.distinct simp_thms)
  with None show ?thesis by (simp add: branch_ref_valid_def)
next
  case (Some rest)
  have scan: "branch_scan rest (CHR ''/'') rest \<longleftrightarrow>
      list_all (\<lambda>b. \<not> forbidden_ref_byte b) rest \<and> successively ref_pair (CHR ''/'' # rest)
      \<and> last (CHR ''/'' # rest) \<notin> {CHR ''/'', CHR ''.''} \<and> \<not> suffix ''.lock'' rest"
    using branch_scan_iff [of "[]" "CHR ''/''" rest] by (simp only: append_Nil list.set empty_iff last.simps) simp
  from Some have raw: "raw = ''refs/heads/'' @ rest" by (simp only: const_strip_prefix_iff)
  then have eq: "raw = ''refs/heads/'' @ name \<longleftrightarrow> name = rest" for name
    by (simp only: same_append_eq) blast
  show ?thesis
    unfolding branch_ref_valid_def Some option.case eq
    by (cases "rest = []") (simp_all only: scan simp_thms if_True if_False last_ConsR not_less[symmetric] ex_simps, auto)
qed

text \<open>
  The component test at a slash looks at a window that ends on the slash itself, so a
  component such as \<open>a.lock\<close> is accepted anywhere but at the end.
\<close>

lemma branch_ref_inner_lock_accepted: "branch_ref_valid ''refs/heads/a.lock/b''"
  by (simp add: branch_ref_valid_def const_strip_prefix_def forbidden_ref_byte_def ends_with_def)

section \<open>Repository identities\<close>

record repository_identity =
  host :: bytes
  repo_name :: bytes
  owner :: bytes

definition identity_byte :: "byte \<Rightarrow> bool" where
  "identity_byte b \<longleftrightarrow> is_ascii_lowercase b \<or> is_ascii_digit b
     \<or> b \<in> {CHR ''.'', CHR ''_'', CHR ''-''}"

definition identity_segment :: "bytes \<Rightarrow> bool" where
  "identity_segment seg \<longleftrightarrow> 1 \<le> length seg \<and> length seg \<le> 100 \<and> list_all identity_byte seg
     \<and> seg \<noteq> [] \<and> is_ascii_alphanumeric (hd seg) \<and> is_ascii_alphanumeric (last seg)"

definition name_valid :: "bytes \<Rightarrow> bool" where
  "name_valid n \<longleftrightarrow> 1 \<le> length n \<and> length n \<le> 100 \<and> list_all identity_byte n
     \<and> n \<noteq> ''.'' \<and> n \<noteq> ''..''"

definition valid_components :: "bytes \<Rightarrow> bytes \<Rightarrow> bytes \<Rightarrow> bool" where
  "valid_components h o' n =
     (let owner_ok = (1 \<le> length o' \<and> length o' \<le> 255
             \<and> list_all identity_segment (split_on (CHR ''/'') o'))
      in 1 \<le> length h \<and> length h \<le> 255 \<and> CHR ''/'' \<notin> set h \<and> owner_ok \<and> name_valid n)"

definition repository_identity_new :: "bytes \<Rightarrow> bytes \<Rightarrow> bytes \<Rightarrow> repository_identity option" where
  "repository_identity_new h o' n =
     (if valid_components h o' n then Some \<lparr>host = h, repo_name = n, owner = o'\<rparr> else None)"

definition repository_identity_github :: "bytes \<Rightarrow> bytes \<Rightarrow> repository_identity option" where
  "repository_identity_github o' n =
     (if identity_segment o' \<and> name_valid n
      then Some \<lparr>host = ''github.com'', repo_name = n, owner = o'\<rparr> else None)"

lemma identity_segment_no_slash: "identity_segment seg \<Longrightarrow> CHR ''/'' \<notin> set seg"
proof -
  have "\<not> identity_byte (CHR ''/'')"
    by (simp add: identity_byte_def is_ascii_lowercase_def is_ascii_digit_def)
  then show "identity_segment seg \<Longrightarrow> CHR ''/'' \<notin> set seg"
    by (auto simp: identity_segment_def list_all_iff)
qed

lemma github_is_new:
  assumes "repository_identity_github o' n = Some r"
  shows "repository_identity_new ''github.com'' o' n = Some r"
proof -
  have seg: "identity_segment o'" "name_valid n"
    using assms by (simp_all add: repository_identity_github_def split: if_splits)
  then have "list_all identity_segment (split_on (CHR ''/'') o')"
    by (simp add: split_on_notin identity_segment_no_slash)
  moreover have "1 \<le> length o'" "length o' \<le> 255"
    using seg(1) by (simp_all add: identity_segment_def)
  ultimately have "valid_components ''github.com'' o' n"
    using seg(2) by (simp add: valid_components_def)
  then show ?thesis
    using assms by (simp add: repository_identity_new_def repository_identity_github_def split: if_splits)
qed

section \<open>Dialects and adapters\<close>

datatype forge_dialect = Github | Gitlab | Gitea | BitbucketCloud | BitbucketDataCenter

definition default_for_host :: "bytes \<Rightarrow> forge_dialect option" where
  "default_for_host h =
     (if h = ''github.com'' then Some Github
      else if h = ''gitlab.com'' then Some Gitlab
      else if h = ''codeberg.org'' then Some Gitea
      else if h = ''bitbucket.org'' then Some BitbucketCloud
      else None)"

datatype adapter =
    AsciiDoc | Markdown | Mdx | PlainAdvisory | Rst

definition adapter_list :: "adapter list" where
  "adapter_list = [AsciiDoc, Markdown, Mdx, PlainAdvisory, Rst]"

primrec adapter_index :: "adapter \<Rightarrow> nat" where
  "adapter_index AsciiDoc = 0"
| "adapter_index Markdown = 1"
| "adapter_index Mdx = 2"
| "adapter_index PlainAdvisory = 3"
| "adapter_index Rst = 4"

lemma adapter_index_eqD: "adapter_index a = adapter_index b \<Longrightarrow> a = b"
proof -
  have "adapter_list ! adapter_index x = x" for x
    by (cases x) (simp_all add: adapter_list_def)
  then show "adapter_index a = adapter_index b \<Longrightarrow> a = b" by metis
qed

instantiation adapter :: linorder
begin
definition less_eq_adapter :: "adapter \<Rightarrow> adapter \<Rightarrow> bool" where
  "less_eq_adapter a b = (adapter_index a \<le> adapter_index b)"
definition less_adapter :: "adapter \<Rightarrow> adapter \<Rightarrow> bool" where
  "less_adapter a b = (adapter_index a < adapter_index b)"
instance
  by standard (auto simp: less_eq_adapter_def less_adapter_def intro: adapter_index_eqD)
end

datatype frontmatter_contract = Frontmatter | Frontmatter_None

datatype source_projection = Projection_None | SourceProjection

datatype address_kind = AsciidocBlockPath | MarkdownAstNodePath | MdxAstNodePath | RstBlockPath

record adapter_metadata =
  parser_name :: string
  grammar_profile :: string
  frontmatter :: frontmatter_contract
  projection :: source_projection
  structural_address :: "address_kind option"

primrec metadata :: "adapter \<Rightarrow> adapter_metadata" where
  "metadata Markdown =
     \<lparr>parser_name = ''amiss-markdown-adapter'', grammar_profile = ''commonmark-gfm'',
      frontmatter = Frontmatter, projection = SourceProjection,
      structural_address = Some MarkdownAstNodePath\<rparr>"
| "metadata Mdx =
     \<lparr>parser_name = ''amiss-mdx-adapter'', grammar_profile = ''mdx-source'',
      frontmatter = Frontmatter, projection = SourceProjection,
      structural_address = Some MdxAstNodePath\<rparr>"
| "metadata AsciiDoc =
     \<lparr>parser_name = ''amiss-asciidoc-adapter'', grammar_profile = ''asciidoctor-2'',
      frontmatter = Frontmatter_None, projection = SourceProjection,
      structural_address = Some AsciidocBlockPath\<rparr>"
| "metadata Rst =
     \<lparr>parser_name = ''amiss-rst-adapter'', grammar_profile = ''docutils-rst-sphinx-refs'',
      frontmatter = Frontmatter_None, projection = SourceProjection,
      structural_address = Some RstBlockPath\<rparr>"
| "metadata PlainAdvisory =
     \<lparr>parser_name = ''amiss-plain-advisory'', grammar_profile = ''plain-zero-lexer'',
      frontmatter = Frontmatter_None, projection = Projection_None,
      structural_address = None\<rparr>"

end
