(* ===== verification/Wire_Taxonomy.thy ===== *)
theory Wire_Taxonomy
  imports Wire_Path Wire_Digest Wire_Time Wire_Identity
begin

text \<open>
  The closed vocabularies, \<open>crates/amiss-wire/src/report/finding.rs\<close>,
  \<open>controls/taxonomy.rs\<close>, \<open>extraction.rs\<close> and \<open>report/model/observation.rs\<close>: finding
  kinds with the classification each carries, profiles, dispositions, source constructs
  and the outcomes of correlation. The order of an enumeration is its declaration order,
  as Rust derives it.
\<close>

section \<open>Dispositions and profiles\<close>

datatype disposition =
    Record | Warn | Fail

definition disposition_list :: "disposition list" where
  "disposition_list = [Record, Warn, Fail]"

primrec disposition_index :: "disposition \<Rightarrow> nat" where
  "disposition_index Record = 0"
| "disposition_index Warn = 1"
| "disposition_index Fail = 2"

lemma disposition_index_eqD: "disposition_index a = disposition_index b \<Longrightarrow> a = b"
proof -
  have "disposition_list ! disposition_index x = x" for x
    by (cases x) (simp_all add: disposition_list_def)
  then show "disposition_index a = disposition_index b \<Longrightarrow> a = b" by metis
qed

instantiation disposition :: linorder
begin
definition less_eq_disposition :: "disposition \<Rightarrow> disposition \<Rightarrow> bool" where
  "less_eq_disposition a b = (disposition_index a \<le> disposition_index b)"
definition less_disposition :: "disposition \<Rightarrow> disposition \<Rightarrow> bool" where
  "less_disposition a b = (disposition_index a < disposition_index b)"
instance
  by standard (auto simp: less_eq_disposition_def less_disposition_def intro: disposition_index_eqD)
end

datatype profile =
    Observe | EnforceIntroduced | Enforce

definition profile_list :: "profile list" where
  "profile_list = [Observe, EnforceIntroduced, Enforce]"

primrec profile_index :: "profile \<Rightarrow> nat" where
  "profile_index Observe = 0"
| "profile_index EnforceIntroduced = 1"
| "profile_index Enforce = 2"

lemma profile_index_eqD: "profile_index a = profile_index b \<Longrightarrow> a = b"
proof -
  have "profile_list ! profile_index x = x" for x
    by (cases x) (simp_all add: profile_list_def)
  then show "profile_index a = profile_index b \<Longrightarrow> a = b" by metis
qed

instantiation profile :: linorder
begin
definition less_eq_profile :: "profile \<Rightarrow> profile \<Rightarrow> bool" where
  "less_eq_profile a b = (profile_index a \<le> profile_index b)"
definition less_profile :: "profile \<Rightarrow> profile \<Rightarrow> bool" where
  "less_profile a b = (profile_index a < profile_index b)"
instance
  by standard (auto simp: less_eq_profile_def less_profile_def intro: profile_index_eqD)
end

primrec enforces :: "profile \<Rightarrow> bool" where
  "enforces EnforceIntroduced = True"
| "enforces Enforce = True"
| "enforces Observe = False"

primrec policy_defaults :: "profile \<Rightarrow> profile" where
  "policy_defaults Observe = Observe"
| "policy_defaults EnforceIntroduced = Enforce"
| "policy_defaults Enforce = Enforce"

section \<open>The finding taxonomy\<close>

datatype finding_scope =
    Scope_Reference | Scope_Observation | Scope_Document | Scope_Control

datatype evidence_class =
    Evidence_AnalysisIntegrity | Evidence_ControlPlane | Evidence_CoverageBoundary
  | Evidence_DeterministicStructural | Evidence_ImpactObservation | Evidence_Unsupported

datatype invariant_class =
    Absolute | Advisory | Invariant_AnalysisIntegrity | Ratcheted

record finding_metadata =
  md_scope :: finding_scope
  md_evidence_class :: evidence_class
  md_invariant_class :: invariant_class
  observe_disposition :: disposition
  enforce_disposition :: disposition

definition RATCHETED_REFERENCE :: finding_metadata where
  "RATCHETED_REFERENCE =
     \<lparr>md_scope = Scope_Reference, md_evidence_class = Evidence_DeterministicStructural, md_invariant_class = Ratcheted,
      observe_disposition = Warn, enforce_disposition = Fail\<rparr>"

definition RATCHETED_OBSERVATION :: finding_metadata where
  "RATCHETED_OBSERVATION =
     \<lparr>md_scope = Scope_Observation, md_evidence_class = Evidence_DeterministicStructural, md_invariant_class = Ratcheted,
      observe_disposition = Warn, enforce_disposition = Fail\<rparr>"

definition ABSOLUTE_OBSERVATION :: finding_metadata where
  "ABSOLUTE_OBSERVATION =
     \<lparr>md_scope = Scope_Observation, md_evidence_class = Evidence_DeterministicStructural, md_invariant_class = Absolute,
      observe_disposition = Warn, enforce_disposition = Fail\<rparr>"

definition RATCHETED_CONTROL :: finding_metadata where
  "RATCHETED_CONTROL =
     \<lparr>md_scope = Scope_Control, md_evidence_class = Evidence_DeterministicStructural, md_invariant_class = Ratcheted,
      observe_disposition = Warn, enforce_disposition = Fail\<rparr>"

definition COVERAGE_OBSERVATION :: finding_metadata where
  "COVERAGE_OBSERVATION =
     \<lparr>md_scope = Scope_Observation, md_evidence_class = Evidence_CoverageBoundary, md_invariant_class = Advisory,
      observe_disposition = Record, enforce_disposition = Record\<rparr>"

definition COVERAGE_DOCUMENT :: finding_metadata where
  "COVERAGE_DOCUMENT =
     \<lparr>md_scope = Scope_Document, md_evidence_class = Evidence_CoverageBoundary, md_invariant_class = Advisory,
      observe_disposition = Record, enforce_disposition = Record\<rparr>"

definition UNSUPPORTED_DOCUMENT :: finding_metadata where
  "UNSUPPORTED_DOCUMENT =
     \<lparr>md_scope = Scope_Document, md_evidence_class = Evidence_Unsupported, md_invariant_class = Advisory,
      observe_disposition = Record, enforce_disposition = Record\<rparr>"

definition UNSUPPORTED_CONTROL :: finding_metadata where
  "UNSUPPORTED_CONTROL =
     \<lparr>md_scope = Scope_Control, md_evidence_class = Evidence_Unsupported, md_invariant_class = Invariant_AnalysisIntegrity,
      observe_disposition = Fail, enforce_disposition = Fail\<rparr>"

definition IMPACT_WARNING :: finding_metadata where
  "IMPACT_WARNING =
     \<lparr>md_scope = Scope_Observation, md_evidence_class = Evidence_ImpactObservation, md_invariant_class = Advisory,
      observe_disposition = Warn, enforce_disposition = Warn\<rparr>"

definition IMPACT_DOCUMENT :: finding_metadata where
  "IMPACT_DOCUMENT =
     \<lparr>md_scope = Scope_Document, md_evidence_class = Evidence_ImpactObservation, md_invariant_class = Advisory,
      observe_disposition = Warn, enforce_disposition = Warn\<rparr>"

definition IMPACT_RECORD :: finding_metadata where
  "IMPACT_RECORD =
     \<lparr>md_scope = Scope_Observation, md_evidence_class = Evidence_ImpactObservation, md_invariant_class = Advisory,
      observe_disposition = Record, enforce_disposition = Record\<rparr>"

definition CONTROL_PLANE :: finding_metadata where
  "CONTROL_PLANE =
     \<lparr>md_scope = Scope_Control, md_evidence_class = Evidence_ControlPlane, md_invariant_class = Absolute,
      observe_disposition = Fail, enforce_disposition = Fail\<rparr>"

lemmas finding_metadata_defs =
  RATCHETED_REFERENCE_def RATCHETED_OBSERVATION_def ABSOLUTE_OBSERVATION_def
  RATCHETED_CONTROL_def COVERAGE_OBSERVATION_def COVERAGE_DOCUMENT_def
  UNSUPPORTED_DOCUMENT_def UNSUPPORTED_CONTROL_def IMPACT_WARNING_def
  IMPACT_DOCUMENT_def IMPACT_RECORD_def CONTROL_PLANE_def

datatype finding_kind =
    ExplicitTargetMissing | ExplicitTargetTypeMismatch | Kind_InvalidReference
  | TargetDeclaredUntracked | UnsupportedReferenceSemantics | UnsupportedDocumentFormat
  | UnsupportedTargetKind | UnsupportedVersionScope | UnsupportedCapability
  | DependencyChangedSubjectUnchanged | DependencyAndSubjectCochanged | SubjectChanged
  | TranslationDrift | ExplicitReferenceRemoved | DocumentRemoved | OpaqueMdxRegion
  | OpaqueHtmlRegion | ObservationCorrelationAmbiguous | UnlinkedDocument
  | SiteBuildDefect | PolicyWeakened | CoverageReduced | ControlPlaneChanged
  | DebtWorsened | DebtExpired | WaiverInvalid | ClaimBroken | ClaimTargetMissing
  | ProjectionDrift

definition finding_kind_list :: "finding_kind list" where
  "finding_kind_list = [ExplicitTargetMissing, ExplicitTargetTypeMismatch, Kind_InvalidReference
     , TargetDeclaredUntracked, UnsupportedReferenceSemantics, UnsupportedDocumentFormat
     , UnsupportedTargetKind, UnsupportedVersionScope, UnsupportedCapability
     , DependencyChangedSubjectUnchanged, DependencyAndSubjectCochanged, SubjectChanged
     , TranslationDrift, ExplicitReferenceRemoved, DocumentRemoved, OpaqueMdxRegion
     , OpaqueHtmlRegion, ObservationCorrelationAmbiguous, UnlinkedDocument
     , SiteBuildDefect, PolicyWeakened, CoverageReduced, ControlPlaneChanged, DebtWorsened
     , DebtExpired, WaiverInvalid, ClaimBroken, ClaimTargetMissing, ProjectionDrift]"

primrec finding_kind_index :: "finding_kind \<Rightarrow> nat" where
  "finding_kind_index ExplicitTargetMissing = 0"
| "finding_kind_index ExplicitTargetTypeMismatch = 1"
| "finding_kind_index Kind_InvalidReference = 2"
| "finding_kind_index TargetDeclaredUntracked = 3"
| "finding_kind_index UnsupportedReferenceSemantics = 4"
| "finding_kind_index UnsupportedDocumentFormat = 5"
| "finding_kind_index UnsupportedTargetKind = 6"
| "finding_kind_index UnsupportedVersionScope = 7"
| "finding_kind_index UnsupportedCapability = 8"
| "finding_kind_index DependencyChangedSubjectUnchanged = 9"
| "finding_kind_index DependencyAndSubjectCochanged = 10"
| "finding_kind_index SubjectChanged = 11"
| "finding_kind_index TranslationDrift = 12"
| "finding_kind_index ExplicitReferenceRemoved = 13"
| "finding_kind_index DocumentRemoved = 14"
| "finding_kind_index OpaqueMdxRegion = 15"
| "finding_kind_index OpaqueHtmlRegion = 16"
| "finding_kind_index ObservationCorrelationAmbiguous = 17"
| "finding_kind_index UnlinkedDocument = 18"
| "finding_kind_index SiteBuildDefect = 19"
| "finding_kind_index PolicyWeakened = 20"
| "finding_kind_index CoverageReduced = 21"
| "finding_kind_index ControlPlaneChanged = 22"
| "finding_kind_index DebtWorsened = 23"
| "finding_kind_index DebtExpired = 24"
| "finding_kind_index WaiverInvalid = 25"
| "finding_kind_index ClaimBroken = 26"
| "finding_kind_index ClaimTargetMissing = 27"
| "finding_kind_index ProjectionDrift = 28"

lemma finding_kind_index_eqD: "finding_kind_index a = finding_kind_index b \<Longrightarrow> a = b"
proof -
  have "finding_kind_list ! finding_kind_index x = x" for x
    by (cases x) (simp_all add: finding_kind_list_def)
  then show "finding_kind_index a = finding_kind_index b \<Longrightarrow> a = b" by metis
qed

instantiation finding_kind :: linorder
begin
definition less_eq_finding_kind :: "finding_kind \<Rightarrow> finding_kind \<Rightarrow> bool" where
  "less_eq_finding_kind a b = (finding_kind_index a \<le> finding_kind_index b)"
definition less_finding_kind :: "finding_kind \<Rightarrow> finding_kind \<Rightarrow> bool" where
  "less_finding_kind a b = (finding_kind_index a < finding_kind_index b)"
instance
  by standard (auto simp: less_eq_finding_kind_def less_finding_kind_def intro: finding_kind_index_eqD)
end

primrec kind_metadata :: "finding_kind \<Rightarrow> finding_metadata" where
  "kind_metadata ExplicitTargetMissing = RATCHETED_REFERENCE"
| "kind_metadata ExplicitTargetTypeMismatch = RATCHETED_REFERENCE"
| "kind_metadata Kind_InvalidReference = RATCHETED_OBSERVATION"
| "kind_metadata TargetDeclaredUntracked = COVERAGE_DOCUMENT"
| "kind_metadata UnsupportedReferenceSemantics = UNSUPPORTED_DOCUMENT"
| "kind_metadata UnsupportedDocumentFormat = UNSUPPORTED_DOCUMENT"
| "kind_metadata UnsupportedTargetKind = UNSUPPORTED_DOCUMENT"
| "kind_metadata UnsupportedVersionScope = UNSUPPORTED_DOCUMENT"
| "kind_metadata UnsupportedCapability = UNSUPPORTED_CONTROL"
| "kind_metadata DependencyChangedSubjectUnchanged = IMPACT_WARNING"
| "kind_metadata DependencyAndSubjectCochanged = IMPACT_RECORD"
| "kind_metadata SubjectChanged = IMPACT_RECORD"
| "kind_metadata TranslationDrift = IMPACT_DOCUMENT"
| "kind_metadata ExplicitReferenceRemoved = COVERAGE_OBSERVATION"
| "kind_metadata DocumentRemoved = COVERAGE_DOCUMENT"
| "kind_metadata OpaqueMdxRegion = COVERAGE_DOCUMENT"
| "kind_metadata OpaqueHtmlRegion = COVERAGE_DOCUMENT"
| "kind_metadata ObservationCorrelationAmbiguous = COVERAGE_OBSERVATION"
| "kind_metadata UnlinkedDocument = COVERAGE_DOCUMENT"
| "kind_metadata SiteBuildDefect = ABSOLUTE_OBSERVATION"
| "kind_metadata PolicyWeakened = CONTROL_PLANE"
| "kind_metadata CoverageReduced = CONTROL_PLANE"
| "kind_metadata ControlPlaneChanged = CONTROL_PLANE"
| "kind_metadata DebtWorsened = CONTROL_PLANE"
| "kind_metadata DebtExpired = CONTROL_PLANE"
| "kind_metadata WaiverInvalid = CONTROL_PLANE"
| "kind_metadata ClaimBroken = RATCHETED_CONTROL"
| "kind_metadata ClaimTargetMissing = RATCHETED_CONTROL"
| "kind_metadata ProjectionDrift = RATCHETED_CONTROL"

text \<open>The fixed description of each kind.\<close>

primrec meaning :: "finding_kind \<Rightarrow> string" where
  "meaning ExplicitTargetMissing =
     ''a reference names a repository path, a line range inside one, or a heading anchor '' @
     ''no known renderer publishes; restore the target or correct the link''"
| "meaning ExplicitTargetTypeMismatch =
     ''the referenced path exists as a different kind than the reference promises, as when '' @
     ''a trailing slash names a regular file; make the spelling match the target''"
| "meaning Kind_InvalidReference =
     ''the destination cannot name a target: it escapes the repository, carries a '' @
     ''backslash, an encoded separator, or control bytes, or is a URL that is not well '' @
     ''formed; fix the destination''"
| "meaning TargetDeclaredUntracked =
     ''a tracked ignore file says the repository does not keep the path this reference '' @
     ''names, either by naming that path or by emptying the directory the file sits in, so '' @
     ''no tree can answer for the link; the reference is recorded and counted, never '' @
     ''cleared''"
| "meaning UnsupportedReferenceSemantics =
     ''the reference uses semantics this run did not evaluate: a site route, a '' @
     ''protocol-relative destination, a query string the selected grammar does not '' @
     ''recognize, a destination that needs a document attribute this run does not '' @
     ''evaluate, the repository root, which every snapshot holds, or a fragment on a '' @
     ''target it cannot answer for; the unchecked part is declared instead of guessed''"
| "meaning UnsupportedDocumentFormat =
     ''a document this run discovered was not scanned: no parser for its markup, a policy '' @
     ''include with no grammar bound, bytes that do not decode as the format requires, '' @
     ''markup its grammar refuses, or a per-document ceiling crossed; the document row's '' @
     ''reason says which, and the file's references are never checked''"
| "meaning UnsupportedTargetKind =
     ''the reference resolves to a symlink or submodule, or to a path beneath one, which '' @
     ''Amiss does not follow; the boundary is declared instead of crossed''"
| "meaning UnsupportedVersionScope =
     ''a forge URL names this repository at another named version or an exact commit whose '' @
     ''required objects are unavailable; use the candidate ref, or make the exact commit '' @
     ''available''"
| "meaning UnsupportedCapability =
     ''a candidate document declares a reserved amiss: capability this engine does not '' @
     ''implement; the run ends incomplete rather than guessing at the claim''"
| "meaning DependencyChangedSubjectUnchanged =
     ''the referenced content changed and the block citing it did not; a reason for a '' @
     ''person to reread the prose, never a machine verdict that it is wrong''"
| "meaning DependencyAndSubjectCochanged =
     ''the referenced content and the block citing it changed together, the shape of a '' @
     ''maintained page; recorded with nothing to act on''"
| "meaning SubjectChanged =
     ''the block holding the reference changed while its target did not; recorded so prose '' @
     ''moving over an unchanged dependency stays visible''"
| "meaning TranslationDrift =
     ''a declared translation fell behind its source: the source page changed while the '' @
     ''translation stayed byte for byte, or the translation left while its source stayed; '' @
     ''a reason for a translator to look, never a verdict that the translation is wrong''"
| "meaning ExplicitReferenceRemoved =
     ''a reference that existed in the base is gone from the candidate; the removal is '' @
     ''recorded as a fact, never treated as evidence that the edit was wrong''"
| "meaning DocumentRemoved =
     ''a scanned document left the tree; recorded so the disappearance is a stated fact '' @
     ''rather than a silent one''"
| "meaning OpaqueMdxRegion =
     ''an MDX expression region the parser cannot see into; a reference inside it is a '' @
     ''stated blind spot, reported with size and place''"
| "meaning OpaqueHtmlRegion =
     ''a raw HTML region the parser cannot see into; a reference inside it is a stated '' @
     ''blind spot, reported with size and place''"
| "meaning ObservationCorrelationAmbiguous =
     ''an occurrence has more than one plausible counterpart across the comparison; Amiss '' @
     ''never chooses by input order, so the match is recorded as undecided''"
| "meaning UnlinkedDocument =
     ''a scanned structured document inside a complete site build's source root is '' @
     ''unreachable from every rendered navigation entrypoint; link the page from rendered '' @
     ''navigation or keep non-page material outside that root''"
| "meaning SiteBuildDefect =
     ''a complete site build reports a route with conflicting owners or a redirect whose '' @
     ''declared terminal route or anchor is not uniquely published; repair the route table '' @
     ''or its available routing source''"
| "meaning PolicyWeakened =
     ''the candidate loosens its own repository policy, dropping an include, a protected '' @
     ''path, a projection assertion, a router declaration, or a raised disposition; '' @
     ''loosening the rules is reported under the rules being loosened''"
| "meaning CoverageReduced =
     ''a protected path is gone or not a scannable document while its protection stands; '' @
     ''restore it or amend the protection in a reviewed change''"
| "meaning ControlPlaneChanged =
     ''a floor-protected control path is not the identical present blob on both sides, in '' @
     ''mode and content; the floor exists so control edits are always visible''"
| "meaning DebtWorsened =
     ''the finding an accepted debt item names no longer matches the recorded fact; debt '' @
     ''tolerates exactly the recorded state, so any drift fails''"
| "meaning DebtExpired =
     ''trusted time reached a debt item's expiry while its finding persists; fix the '' @
     ''finding or renew the debt in a reviewed change''"
| "meaning WaiverInvalid =
     ''a waiver item cannot apply, expired against trusted time or issued outside the '' @
     ''floor's authority; an invalid waiver suppresses nothing''"
| "meaning ClaimBroken =
     ''a value claim's target line no longer says what the document claims it says; update '' @
     ''the claim or the target so the two agree''"
| "meaning ClaimTargetMissing =
     ''a value claim names a target line no regular file in the candidate can answer; '' @
     ''point the claim at a tracked file and a line inside it''"
| "meaning ProjectionDrift =
     ''a policy-owned projection cannot prove that its visible code block equals its '' @
     ''selected repository source; restore its unique sink and source or make their '' @
     ''projected bytes agree''"

definition built_in_disposition :: "finding_kind \<Rightarrow> profile \<Rightarrow> disposition" where
  "built_in_disposition kind profile =
     (let metadata = kind_metadata kind
      in if enforces profile then enforce_disposition metadata else observe_disposition metadata)"

lemma built_in_enforce_ge_observe:
  "built_in_disposition kind Observe \<le> built_in_disposition kind Enforce"
  by (cases kind)
    (simp_all add: built_in_disposition_def finding_metadata_defs less_eq_disposition_def)

datatype promotable_finding_kind =
    Promotable_ExplicitTargetMissing | Promotable_ExplicitTargetTypeMismatch
  | Promotable_InvalidReference

definition promotable_finding_kind_list :: "promotable_finding_kind list" where
  "promotable_finding_kind_list = [Promotable_ExplicitTargetMissing, Promotable_ExplicitTargetTypeMismatch
     , Promotable_InvalidReference]"

primrec promotable_finding_kind_index :: "promotable_finding_kind \<Rightarrow> nat" where
  "promotable_finding_kind_index Promotable_ExplicitTargetMissing = 0"
| "promotable_finding_kind_index Promotable_ExplicitTargetTypeMismatch = 1"
| "promotable_finding_kind_index Promotable_InvalidReference = 2"

lemma promotable_finding_kind_index_eqD: "promotable_finding_kind_index a = promotable_finding_kind_index b \<Longrightarrow> a = b"
proof -
  have "promotable_finding_kind_list ! promotable_finding_kind_index x = x" for x
    by (cases x) (simp_all add: promotable_finding_kind_list_def)
  then show "promotable_finding_kind_index a = promotable_finding_kind_index b \<Longrightarrow> a = b" by metis
qed

instantiation promotable_finding_kind :: linorder
begin
definition less_eq_promotable_finding_kind :: "promotable_finding_kind \<Rightarrow> promotable_finding_kind \<Rightarrow> bool" where
  "less_eq_promotable_finding_kind a b = (promotable_finding_kind_index a \<le> promotable_finding_kind_index b)"
definition less_promotable_finding_kind :: "promotable_finding_kind \<Rightarrow> promotable_finding_kind \<Rightarrow> bool" where
  "less_promotable_finding_kind a b = (promotable_finding_kind_index a < promotable_finding_kind_index b)"
instance
  by standard (auto simp: less_eq_promotable_finding_kind_def less_promotable_finding_kind_def intro: promotable_finding_kind_index_eqD)
end

datatype policy_disposition =
    PolicyWarn | PolicyFail

definition policy_disposition_list :: "policy_disposition list" where
  "policy_disposition_list = [PolicyWarn, PolicyFail]"

primrec policy_disposition_index :: "policy_disposition \<Rightarrow> nat" where
  "policy_disposition_index PolicyWarn = 0"
| "policy_disposition_index PolicyFail = 1"

lemma policy_disposition_index_eqD: "policy_disposition_index a = policy_disposition_index b \<Longrightarrow> a = b"
proof -
  have "policy_disposition_list ! policy_disposition_index x = x" for x
    by (cases x) (simp_all add: policy_disposition_list_def)
  then show "policy_disposition_index a = policy_disposition_index b \<Longrightarrow> a = b" by metis
qed

instantiation policy_disposition :: linorder
begin
definition less_eq_policy_disposition :: "policy_disposition \<Rightarrow> policy_disposition \<Rightarrow> bool" where
  "less_eq_policy_disposition a b = (policy_disposition_index a \<le> policy_disposition_index b)"
definition less_policy_disposition :: "policy_disposition \<Rightarrow> policy_disposition \<Rightarrow> bool" where
  "less_policy_disposition a b = (policy_disposition_index a < policy_disposition_index b)"
instance
  by standard (auto simp: less_eq_policy_disposition_def less_policy_disposition_def intro: policy_disposition_index_eqD)
end

section \<open>References and targets\<close>

datatype source_construct =
    InlineLink | FullReferenceLink | CollapsedReferenceLink | ShortcutReferenceLink | Autolink
  | InlineImage | FullReferenceImage | CollapsedReferenceImage | ShortcutReferenceImage
  | AsciidocCrossReference | AsciidocInternalCrossReference | AsciidocLinkMacro
  | AsciidocBlockImage | AsciidocInlineImage | AsciidocInclude | AsciidocUrl
  | RstInlineHyperlink | RstNamedTarget | RstImageDirective | RstIncludeDirective
  | RstFileOption | RstDocRole | RstRefRole | RstTocTreeEntry | RstDownloadRole
  | RstNumrefRole | RstTermRole | RstTargetOption | LinkReferenceDefinition
  | MdbookInclude | MkdocsSnippet | MarkdownLiquidLink | MarkdownLiquidUrl
  | MarkdownHugoRef | MarkdownUndefinedReference | MarkdownUndefinedImageReference
  | MarkdownAgentImport | HtmlAnchor | HtmlImage

definition source_construct_list :: "source_construct list" where
  "source_construct_list = [InlineLink, FullReferenceLink, CollapsedReferenceLink, ShortcutReferenceLink, Autolink
     , InlineImage, FullReferenceImage, CollapsedReferenceImage, ShortcutReferenceImage
     , AsciidocCrossReference, AsciidocInternalCrossReference, AsciidocLinkMacro
     , AsciidocBlockImage, AsciidocInlineImage, AsciidocInclude, AsciidocUrl
     , RstInlineHyperlink, RstNamedTarget, RstImageDirective, RstIncludeDirective
     , RstFileOption, RstDocRole, RstRefRole, RstTocTreeEntry, RstDownloadRole
     , RstNumrefRole, RstTermRole, RstTargetOption, LinkReferenceDefinition, MdbookInclude
     , MkdocsSnippet, MarkdownLiquidLink, MarkdownLiquidUrl, MarkdownHugoRef
     , MarkdownUndefinedReference, MarkdownUndefinedImageReference, MarkdownAgentImport
     , HtmlAnchor, HtmlImage]"

primrec source_construct_index :: "source_construct \<Rightarrow> nat" where
  "source_construct_index InlineLink = 0"
| "source_construct_index FullReferenceLink = 1"
| "source_construct_index CollapsedReferenceLink = 2"
| "source_construct_index ShortcutReferenceLink = 3"
| "source_construct_index Autolink = 4"
| "source_construct_index InlineImage = 5"
| "source_construct_index FullReferenceImage = 6"
| "source_construct_index CollapsedReferenceImage = 7"
| "source_construct_index ShortcutReferenceImage = 8"
| "source_construct_index AsciidocCrossReference = 9"
| "source_construct_index AsciidocInternalCrossReference = 10"
| "source_construct_index AsciidocLinkMacro = 11"
| "source_construct_index AsciidocBlockImage = 12"
| "source_construct_index AsciidocInlineImage = 13"
| "source_construct_index AsciidocInclude = 14"
| "source_construct_index AsciidocUrl = 15"
| "source_construct_index RstInlineHyperlink = 16"
| "source_construct_index RstNamedTarget = 17"
| "source_construct_index RstImageDirective = 18"
| "source_construct_index RstIncludeDirective = 19"
| "source_construct_index RstFileOption = 20"
| "source_construct_index RstDocRole = 21"
| "source_construct_index RstRefRole = 22"
| "source_construct_index RstTocTreeEntry = 23"
| "source_construct_index RstDownloadRole = 24"
| "source_construct_index RstNumrefRole = 25"
| "source_construct_index RstTermRole = 26"
| "source_construct_index RstTargetOption = 27"
| "source_construct_index LinkReferenceDefinition = 28"
| "source_construct_index MdbookInclude = 29"
| "source_construct_index MkdocsSnippet = 30"
| "source_construct_index MarkdownLiquidLink = 31"
| "source_construct_index MarkdownLiquidUrl = 32"
| "source_construct_index MarkdownHugoRef = 33"
| "source_construct_index MarkdownUndefinedReference = 34"
| "source_construct_index MarkdownUndefinedImageReference = 35"
| "source_construct_index MarkdownAgentImport = 36"
| "source_construct_index HtmlAnchor = 37"
| "source_construct_index HtmlImage = 38"

lemma source_construct_index_eqD: "source_construct_index a = source_construct_index b \<Longrightarrow> a = b"
proof -
  have "source_construct_list ! source_construct_index x = x" for x
    by (cases x) (simp_all add: source_construct_list_def)
  then show "source_construct_index a = source_construct_index b \<Longrightarrow> a = b" by metis
qed

instantiation source_construct :: linorder
begin
definition less_eq_source_construct :: "source_construct \<Rightarrow> source_construct \<Rightarrow> bool" where
  "less_eq_source_construct a b = (source_construct_index a \<le> source_construct_index b)"
definition less_source_construct :: "source_construct \<Rightarrow> source_construct \<Rightarrow> bool" where
  "less_source_construct a b = (source_construct_index a < source_construct_index b)"
instance
  by standard (auto simp: less_eq_source_construct_def less_source_construct_def intro: source_construct_index_eqD)
end

fun is_image :: "source_construct \<Rightarrow> bool" where
  "is_image InlineImage = True"
| "is_image FullReferenceImage = True"
| "is_image CollapsedReferenceImage = True"
| "is_image ShortcutReferenceImage = True"
| "is_image AsciidocBlockImage = True"
| "is_image AsciidocInlineImage = True"
| "is_image RstImageDirective = True"
| "is_image HtmlImage = True"
| "is_image MarkdownUndefinedImageReference = True"
| "is_image _ = False"

datatype intent_kind =
    RepositoryPath | SameRepositoryGithub | SameRepositoryGitlab | SameRepositoryGitea
  | SameRepositoryBitbucketCloud | SameRepositoryBitbucketDataCenter | ExternalUrl
  | Intent_SiteRoute | Intent_Label | Intent_Unsupported

definition intent_kind_list :: "intent_kind list" where
  "intent_kind_list = [RepositoryPath, SameRepositoryGithub, SameRepositoryGitlab, SameRepositoryGitea
     , SameRepositoryBitbucketCloud, SameRepositoryBitbucketDataCenter, ExternalUrl
     , Intent_SiteRoute, Intent_Label, Intent_Unsupported]"

primrec intent_kind_index :: "intent_kind \<Rightarrow> nat" where
  "intent_kind_index RepositoryPath = 0"
| "intent_kind_index SameRepositoryGithub = 1"
| "intent_kind_index SameRepositoryGitlab = 2"
| "intent_kind_index SameRepositoryGitea = 3"
| "intent_kind_index SameRepositoryBitbucketCloud = 4"
| "intent_kind_index SameRepositoryBitbucketDataCenter = 5"
| "intent_kind_index ExternalUrl = 6"
| "intent_kind_index Intent_SiteRoute = 7"
| "intent_kind_index Intent_Label = 8"
| "intent_kind_index Intent_Unsupported = 9"

lemma intent_kind_index_eqD: "intent_kind_index a = intent_kind_index b \<Longrightarrow> a = b"
proof -
  have "intent_kind_list ! intent_kind_index x = x" for x
    by (cases x) (simp_all add: intent_kind_list_def)
  then show "intent_kind_index a = intent_kind_index b \<Longrightarrow> a = b" by metis
qed

instantiation intent_kind :: linorder
begin
definition less_eq_intent_kind :: "intent_kind \<Rightarrow> intent_kind \<Rightarrow> bool" where
  "less_eq_intent_kind a b = (intent_kind_index a \<le> intent_kind_index b)"
definition less_intent_kind :: "intent_kind \<Rightarrow> intent_kind \<Rightarrow> bool" where
  "less_intent_kind a b = (intent_kind_index a < intent_kind_index b)"
instance
  by standard (auto simp: less_eq_intent_kind_def less_intent_kind_def intro: intent_kind_index_eqD)
end

datatype target_kind =
    Kind_Blob | Kind_Tree | Kind_Either

definition target_kind_list :: "target_kind list" where
  "target_kind_list = [Kind_Blob, Kind_Tree, Kind_Either]"

primrec target_kind_index :: "target_kind \<Rightarrow> nat" where
  "target_kind_index Kind_Blob = 0"
| "target_kind_index Kind_Tree = 1"
| "target_kind_index Kind_Either = 2"

lemma target_kind_index_eqD: "target_kind_index a = target_kind_index b \<Longrightarrow> a = b"
proof -
  have "target_kind_list ! target_kind_index x = x" for x
    by (cases x) (simp_all add: target_kind_list_def)
  then show "target_kind_index a = target_kind_index b \<Longrightarrow> a = b" by metis
qed

instantiation target_kind :: linorder
begin
definition less_eq_target_kind :: "target_kind \<Rightarrow> target_kind \<Rightarrow> bool" where
  "less_eq_target_kind a b = (target_kind_index a \<le> target_kind_index b)"
definition less_target_kind :: "target_kind \<Rightarrow> target_kind \<Rightarrow> bool" where
  "less_target_kind a b = (target_kind_index a < target_kind_index b)"
instance
  by standard (auto simp: less_eq_target_kind_def less_target_kind_def intro: target_kind_index_eqD)
end

datatype git_mode =
    RegularFile | ExecutableFile | Mode_Tree | Mode_Symlink | Mode_Gitlink

definition git_mode_list :: "git_mode list" where
  "git_mode_list = [RegularFile, ExecutableFile, Mode_Tree, Mode_Symlink, Mode_Gitlink]"

primrec git_mode_index :: "git_mode \<Rightarrow> nat" where
  "git_mode_index RegularFile = 0"
| "git_mode_index ExecutableFile = 1"
| "git_mode_index Mode_Tree = 2"
| "git_mode_index Mode_Symlink = 3"
| "git_mode_index Mode_Gitlink = 4"

lemma git_mode_index_eqD: "git_mode_index a = git_mode_index b \<Longrightarrow> a = b"
proof -
  have "git_mode_list ! git_mode_index x = x" for x
    by (cases x) (simp_all add: git_mode_list_def)
  then show "git_mode_index a = git_mode_index b \<Longrightarrow> a = b" by metis
qed

instantiation git_mode :: linorder
begin
definition less_eq_git_mode :: "git_mode \<Rightarrow> git_mode \<Rightarrow> bool" where
  "less_eq_git_mode a b = (git_mode_index a \<le> git_mode_index b)"
definition less_git_mode :: "git_mode \<Rightarrow> git_mode \<Rightarrow> bool" where
  "less_git_mode a b = (git_mode_index a < git_mode_index b)"
instance
  by standard (auto simp: less_eq_git_mode_def less_git_mode_def intro: git_mode_index_eqD)
end

section \<open>Correlation outcomes\<close>

datatype correlation_outcome =
    Ambiguous | Candidate | Exact | Outcome_None

datatype correlation_reason =
    ExactDocumentRenameUnchangedProjection | MultipleCounterparts | NewObservation
  | RemovedObservation | SameExtractionKeyAndProjection | SameIntentSourceChanged
  | SameIntentUnchangedProjection

datatype source_change =
    Source_Added | Source_Changed | Source_Equal | Source_Removed | Source_Unknown

datatype target_change =
    BecameMissing | Target_Changed | Target_Equal | NewlyResolved | NotComparable

datatype impact =
    Impact_DependencyAndSubjectCochanged | Impact_DependencyChangedSubjectUnchanged
  | Impact_NewObservation | Impact_None | Impact_NotApplicable
  | Impact_ObservationCorrelationAmbiguous | Impact_ReferenceResolved
  | Impact_RemovedObservation | Impact_SubjectChanged

section \<open>Attribution and policy steps\<close>

datatype attribution =
    Introduced | NotApplicable | PreExisting | Resolved | Unknown

datatype policy_source =
    BuiltIn | DebtSnapshot | OrganizationFloor | RepositoryPolicy | ResolvedProjection
  | UnsuppressibleClamp | WaiverBundle

record policy_step =
  step_after :: disposition
  step_before :: disposition
  step_rule_id :: string
  step_source :: policy_source

end
