(* ===== verification/Wire_Resolution.thy ===== *)
theory Wire_Resolution
  imports Wire_Taxonomy
begin

text \<open>
  The outcome of resolving one reference, \<open>crates/amiss-wire/src/resolution.rs\<close>. The type
  is polymorphic in the path, as the source's \<open>Resolution<P>\<close> is. An LFS pointer has no
  projection digest: \<open>lfs_pointer_has_no_projection\<close> is what the correlation of target
  content rests on.
\<close>

datatype blob_mode = Blob_Regular | Blob_Executable

datatype blob_content =
    Available (content_raw: digest) (content_projection: digest)
  | LfsPointer (content_raw: digest)

fun content_projection_digest :: "blob_content \<Rightarrow> digest option" where
  "content_projection_digest (Available r p) = Some p"
| "content_projection_digest (LfsPointer r) = None"

fun content_is_lfs_pointer :: "blob_content \<Rightarrow> bool" where
  "content_is_lfs_pointer (LfsPointer r) = True"
| "content_is_lfs_pointer (Available r p) = False"

datatype 'p blob_target =
  BlobTarget (blob_path: 'p) (blob_mode: blob_mode) (blob_content: blob_content)

datatype 'p target = Target_Tree 'p | Target_Blob "'p blob_target"

fun target_projection_digest :: "'p target \<Rightarrow> digest option" where
  "target_projection_digest (Target_Tree p) = None"
| "target_projection_digest (Target_Blob blob) = content_projection_digest (blob_content blob)"

fun target_is_lfs_pointer :: "'p target \<Rightarrow> bool" where
  "target_is_lfs_pointer (Target_Tree p) = False"
| "target_is_lfs_pointer (Target_Blob blob) = content_is_lfs_pointer (blob_content blob)"

datatype 'p missing =
    PathNotFound 'p "'p option" "'p option"
  | LineFragmentOutOfRange 'p
  | HeadingAnchorNotFound 'p "bytes option"
  | LabelNotDeclared
  | SelectionNotFound 'p

datatype 'p declared_untracked = DeclaredUntracked 'p 'p

datatype 'p unsupported_target = Unsupported_Symlink 'p | Unsupported_Gitlink 'p

datatype 'p unsupported_semantics =
    Sem_Query "'p target"
  | Sem_Fragment "'p blob_target"
  | Sem_CodeFragment "'p target"
  | Sem_SiteRoute
  | Sem_UnmodelledRoute
  | Sem_NetworkPath
  | Sem_AttributeDependent
  | Sem_DuplicateLabel
  | Sem_ExternalInventory
  | Sem_RepositoryRoot
  | Sem_OversizedDestination

fun semantics_is_lfs_pointer :: "'p unsupported_semantics \<Rightarrow> bool" where
  "semantics_is_lfs_pointer (Sem_Query t) = target_is_lfs_pointer t"
| "semantics_is_lfs_pointer (Sem_CodeFragment t) = target_is_lfs_pointer t"
| "semantics_is_lfs_pointer (Sem_Fragment blob) = content_is_lfs_pointer (blob_content blob)"
| "semantics_is_lfs_pointer _ = False"

datatype 'p version_scope = KnownPath 'p | KnownCommit oid 'p | UnknownPath

datatype invalid_reference =
    Invalid_Uri | Invalid_PercentEncoding | Invalid_DecodedPathControl | Invalid_PathTraversal
  | Invalid_BackslashSeparator | Invalid_EncodedSlash | Invalid_FragmentEncoding | Invalid_Syntax

datatype external_reference =
    External_Url | External_ForeignRepository | External_IntersphinxInventory | External_SiteBuild

datatype 'p resolution =
    Res_Resolved "'p target"
  | Res_Missing "'p missing"
  | Res_DeclaredUntracked "'p declared_untracked"
  | Res_TypeMismatch "'p target"
  | Res_UnsupportedTarget "'p unsupported_target"
  | Res_UnsupportedSemantics "'p unsupported_semantics"
  | Res_UnsupportedVersion "'p version_scope"
  | Res_Invalid invalid_reference
  | Res_External external_reference

fun resolution_is_lfs_pointer :: "'p resolution \<Rightarrow> bool" where
  "resolution_is_lfs_pointer (Res_Resolved t) = target_is_lfs_pointer t"
| "resolution_is_lfs_pointer (Res_TypeMismatch t) = target_is_lfs_pointer t"
| "resolution_is_lfs_pointer (Res_UnsupportedSemantics s) = semantics_is_lfs_pointer s"
| "resolution_is_lfs_pointer _ = False"

text \<open>
  \<open>located_projection\<close> of \<open>crates/amiss-scan/src/correlate.rs\<close>: the projection of the
  file a reference located, whether or not its meaning was evaluated.
\<close>

fun located_projection :: "'p resolution \<Rightarrow> digest option" where
  "located_projection (Res_Resolved t) = target_projection_digest t"
| "located_projection (Res_UnsupportedSemantics s) =
     (case s of
        Sem_Query t \<Rightarrow> target_projection_digest t
      | Sem_CodeFragment t \<Rightarrow> target_projection_digest t
      | Sem_Fragment blob \<Rightarrow> content_projection_digest (blob_content blob)
      | _ \<Rightarrow> None)"
| "located_projection _ = None"

lemma content_lfs_no_projection:
  "content_is_lfs_pointer c \<longleftrightarrow> content_projection_digest c = None"
  by (cases c) simp_all

lemma target_lfs_no_projection:
  "target_is_lfs_pointer t \<Longrightarrow> target_projection_digest t = None"
  by (cases t) (simp_all add: content_lfs_no_projection)

lemma lfs_pointer_has_no_projection:
  "resolution_is_lfs_pointer r \<Longrightarrow> located_projection r = None"
  by (cases r rule: resolution_is_lfs_pointer.cases)
    (auto simp: target_lfs_no_projection content_lfs_no_projection
      split: unsupported_semantics.splits)

end
