(* ===== verification/Scan_Resources.thy ===== *)
theory Scan_Resources
  imports Wire_Resolution
begin

text \<open>
  Scan errors and the snapshot-scoped resource meters,
  \<open>crates/amiss-scan/src/lib.rs\<close>, \<open>resources.rs\<close> and
  \<open>crates/amiss-wire/src/controls/resources.rs\<close>. A meter is a \<open>u64\<close> total that is charged
  through a mutable reference; the locale \<open>meter\<close> states what such a field of the state
  is, and every counter of the scanner is an instance of it. The memo cache of scanned
  blobs carries no charge and is left out.
\<close>

section \<open>Errors\<close>

datatype fault = DocumentInvalid | DocumentUnparsable | ParserError | ParserPanic | InvalidSourceSpan

datatype git_defect =
    ObjectMissing | ObjectWrongKind | ObjectUnreadable | IndexInvalid | IndexFormatUnsupported
  | IndexUnmerged | IntentToAdd | SnapshotChanged

datatype resource_name =
    Resource_GitObjectBytes | Resource_GitCompressedObjectBytes
  | Resource_AggregateGitCompressedObjectBytesPerEvaluation
  | Resource_GitPackDirectoryEntries | Resource_GitPackFiles | Resource_GitPackIndexBytes
  | Resource_AggregateGitPackIndexBytes | Resource_GitDeltaDepth | Resource_GitIndexBytes
  | Resource_GitTreeEntriesPerSnapshot | Resource_DocumentsPerSnapshot
  | Resource_ControlInputBytes | Resource_SelectedControlBlobBytes
  | Resource_AggregateSelectedControlBytesPerSnapshot | Resource_RepositoryPolicyEntries
  | Resource_DebtItems | Resource_WaiverItems | Resource_RawPathBytes
  | Resource_DocumentBlobBytes | Resource_ReferencedTargetBlobBytes
  | Resource_AggregateReferencedTargetBytesPerSnapshot
  | Resource_IgnoreDeclarationBlobBytes
  | Resource_AggregateIgnoreDeclarationBytesPerSnapshot
  | Resource_AggregateLineFragmentEvaluationBytesPerSnapshot
  | Resource_AggregateHeadingAnchorEvaluationBytesPerSnapshot
  | Resource_ProjectionAssertionsPerSnapshot
  | Resource_AggregateProjectionSelectedBytesPerSnapshot
  | Resource_ProjectionRecordsComparedPerSnapshot
  | Resource_AggregateProjectionProjectedBytesPerSnapshot
  | Resource_AggregateProjectionPreviewBytesPerSnapshot
  | Resource_AggregateDocumentBytesPerSnapshot | Resource_RawLinkDestinationBytes
  | Resource_ParserNesting | Resource_ParserNodesPerDocument
  | Resource_ParserNodesPerSnapshot
  | Resource_AggregateEmbeddedCodeEvaluationBytesPerSnapshot
  | Resource_ReferencesPerDocument | Resource_ReferencesPerSnapshot
  | Resource_DeclaredLabelsPerSnapshot | Resource_OrganizationPolicyEntries
  | Resource_CompleteFindings | Resource_TypedAnalysisErrorsRetained
  | Resource_MachineJsonBytes | Resource_PrivateTemporaryStorageBytes
  | Resource_EvaluatorManagedMemoryBytes

definition resource_name_list :: "resource_name list" where
  "resource_name_list = [Resource_GitObjectBytes, Resource_GitCompressedObjectBytes
     , Resource_AggregateGitCompressedObjectBytesPerEvaluation
     , Resource_GitPackDirectoryEntries, Resource_GitPackFiles, Resource_GitPackIndexBytes
     , Resource_AggregateGitPackIndexBytes, Resource_GitDeltaDepth, Resource_GitIndexBytes
     , Resource_GitTreeEntriesPerSnapshot, Resource_DocumentsPerSnapshot
     , Resource_ControlInputBytes, Resource_SelectedControlBlobBytes
     , Resource_AggregateSelectedControlBytesPerSnapshot, Resource_RepositoryPolicyEntries
     , Resource_DebtItems, Resource_WaiverItems, Resource_RawPathBytes
     , Resource_DocumentBlobBytes, Resource_ReferencedTargetBlobBytes
     , Resource_AggregateReferencedTargetBytesPerSnapshot
     , Resource_IgnoreDeclarationBlobBytes
     , Resource_AggregateIgnoreDeclarationBytesPerSnapshot
     , Resource_AggregateLineFragmentEvaluationBytesPerSnapshot
     , Resource_AggregateHeadingAnchorEvaluationBytesPerSnapshot
     , Resource_ProjectionAssertionsPerSnapshot
     , Resource_AggregateProjectionSelectedBytesPerSnapshot
     , Resource_ProjectionRecordsComparedPerSnapshot
     , Resource_AggregateProjectionProjectedBytesPerSnapshot
     , Resource_AggregateProjectionPreviewBytesPerSnapshot
     , Resource_AggregateDocumentBytesPerSnapshot, Resource_RawLinkDestinationBytes
     , Resource_ParserNesting, Resource_ParserNodesPerDocument
     , Resource_ParserNodesPerSnapshot
     , Resource_AggregateEmbeddedCodeEvaluationBytesPerSnapshot
     , Resource_ReferencesPerDocument, Resource_ReferencesPerSnapshot
     , Resource_DeclaredLabelsPerSnapshot, Resource_OrganizationPolicyEntries
     , Resource_CompleteFindings, Resource_TypedAnalysisErrorsRetained
     , Resource_MachineJsonBytes, Resource_PrivateTemporaryStorageBytes
     , Resource_EvaluatorManagedMemoryBytes]"

primrec resource_name_index :: "resource_name \<Rightarrow> nat" where
  "resource_name_index Resource_GitObjectBytes = 0"
| "resource_name_index Resource_GitCompressedObjectBytes = 1"
| "resource_name_index Resource_AggregateGitCompressedObjectBytesPerEvaluation = 2"
| "resource_name_index Resource_GitPackDirectoryEntries = 3"
| "resource_name_index Resource_GitPackFiles = 4"
| "resource_name_index Resource_GitPackIndexBytes = 5"
| "resource_name_index Resource_AggregateGitPackIndexBytes = 6"
| "resource_name_index Resource_GitDeltaDepth = 7"
| "resource_name_index Resource_GitIndexBytes = 8"
| "resource_name_index Resource_GitTreeEntriesPerSnapshot = 9"
| "resource_name_index Resource_DocumentsPerSnapshot = 10"
| "resource_name_index Resource_ControlInputBytes = 11"
| "resource_name_index Resource_SelectedControlBlobBytes = 12"
| "resource_name_index Resource_AggregateSelectedControlBytesPerSnapshot = 13"
| "resource_name_index Resource_RepositoryPolicyEntries = 14"
| "resource_name_index Resource_DebtItems = 15"
| "resource_name_index Resource_WaiverItems = 16"
| "resource_name_index Resource_RawPathBytes = 17"
| "resource_name_index Resource_DocumentBlobBytes = 18"
| "resource_name_index Resource_ReferencedTargetBlobBytes = 19"
| "resource_name_index Resource_AggregateReferencedTargetBytesPerSnapshot = 20"
| "resource_name_index Resource_IgnoreDeclarationBlobBytes = 21"
| "resource_name_index Resource_AggregateIgnoreDeclarationBytesPerSnapshot = 22"
| "resource_name_index Resource_AggregateLineFragmentEvaluationBytesPerSnapshot = 23"
| "resource_name_index Resource_AggregateHeadingAnchorEvaluationBytesPerSnapshot = 24"
| "resource_name_index Resource_ProjectionAssertionsPerSnapshot = 25"
| "resource_name_index Resource_AggregateProjectionSelectedBytesPerSnapshot = 26"
| "resource_name_index Resource_ProjectionRecordsComparedPerSnapshot = 27"
| "resource_name_index Resource_AggregateProjectionProjectedBytesPerSnapshot = 28"
| "resource_name_index Resource_AggregateProjectionPreviewBytesPerSnapshot = 29"
| "resource_name_index Resource_AggregateDocumentBytesPerSnapshot = 30"
| "resource_name_index Resource_RawLinkDestinationBytes = 31"
| "resource_name_index Resource_ParserNesting = 32"
| "resource_name_index Resource_ParserNodesPerDocument = 33"
| "resource_name_index Resource_ParserNodesPerSnapshot = 34"
| "resource_name_index Resource_AggregateEmbeddedCodeEvaluationBytesPerSnapshot = 35"
| "resource_name_index Resource_ReferencesPerDocument = 36"
| "resource_name_index Resource_ReferencesPerSnapshot = 37"
| "resource_name_index Resource_DeclaredLabelsPerSnapshot = 38"
| "resource_name_index Resource_OrganizationPolicyEntries = 39"
| "resource_name_index Resource_CompleteFindings = 40"
| "resource_name_index Resource_TypedAnalysisErrorsRetained = 41"
| "resource_name_index Resource_MachineJsonBytes = 42"
| "resource_name_index Resource_PrivateTemporaryStorageBytes = 43"
| "resource_name_index Resource_EvaluatorManagedMemoryBytes = 44"

lemma resource_name_index_eqD: "resource_name_index a = resource_name_index b \<Longrightarrow> a = b"
proof -
  have "resource_name_list ! resource_name_index x = x" for x
    by (cases x) (simp_all add: resource_name_list_def)
  then show "resource_name_index a = resource_name_index b \<Longrightarrow> a = b" by metis
qed

instantiation resource_name :: linorder
begin
definition less_eq_resource_name :: "resource_name \<Rightarrow> resource_name \<Rightarrow> bool" where
  "less_eq_resource_name a b = (resource_name_index a \<le> resource_name_index b)"
definition less_resource_name :: "resource_name \<Rightarrow> resource_name \<Rightarrow> bool" where
  "less_resource_name a b = (resource_name_index a < resource_name_index b)"
instance
  by standard (auto simp: less_eq_resource_name_def less_resource_name_def intro: resource_name_index_eqD)
end

datatype analysis_phase =
    Phase_Configuration | Phase_Discovery | Phase_Git | Phase_Internal | Phase_Invocation
  | Phase_Output | Phase_Parse | Phase_Policy | Phase_Resolution

primrec resource_phase :: "resource_name \<Rightarrow> analysis_phase" where
  "resource_phase Resource_GitObjectBytes = Phase_Git"
| "resource_phase Resource_GitCompressedObjectBytes = Phase_Git"
| "resource_phase Resource_AggregateGitCompressedObjectBytesPerEvaluation = Phase_Git"
| "resource_phase Resource_GitPackDirectoryEntries = Phase_Git"
| "resource_phase Resource_GitPackFiles = Phase_Git"
| "resource_phase Resource_GitPackIndexBytes = Phase_Git"
| "resource_phase Resource_AggregateGitPackIndexBytes = Phase_Git"
| "resource_phase Resource_GitDeltaDepth = Phase_Git"
| "resource_phase Resource_GitIndexBytes = Phase_Git"
| "resource_phase Resource_GitTreeEntriesPerSnapshot = Phase_Git"
| "resource_phase Resource_DocumentsPerSnapshot = Phase_Discovery"
| "resource_phase Resource_ControlInputBytes = Phase_Configuration"
| "resource_phase Resource_SelectedControlBlobBytes = Phase_Discovery"
| "resource_phase Resource_AggregateSelectedControlBytesPerSnapshot = Phase_Discovery"
| "resource_phase Resource_RepositoryPolicyEntries = Phase_Configuration"
| "resource_phase Resource_DebtItems = Phase_Configuration"
| "resource_phase Resource_WaiverItems = Phase_Configuration"
| "resource_phase Resource_RawPathBytes = Phase_Git"
| "resource_phase Resource_DocumentBlobBytes = Phase_Discovery"
| "resource_phase Resource_ReferencedTargetBlobBytes = Phase_Resolution"
| "resource_phase Resource_AggregateReferencedTargetBytesPerSnapshot = Phase_Resolution"
| "resource_phase Resource_IgnoreDeclarationBlobBytes = Phase_Resolution"
| "resource_phase Resource_AggregateIgnoreDeclarationBytesPerSnapshot = Phase_Resolution"
| "resource_phase Resource_AggregateLineFragmentEvaluationBytesPerSnapshot = Phase_Resolution"
| "resource_phase Resource_AggregateHeadingAnchorEvaluationBytesPerSnapshot = Phase_Resolution"
| "resource_phase Resource_ProjectionAssertionsPerSnapshot = Phase_Resolution"
| "resource_phase Resource_AggregateProjectionSelectedBytesPerSnapshot = Phase_Resolution"
| "resource_phase Resource_ProjectionRecordsComparedPerSnapshot = Phase_Resolution"
| "resource_phase Resource_AggregateProjectionProjectedBytesPerSnapshot = Phase_Resolution"
| "resource_phase Resource_AggregateProjectionPreviewBytesPerSnapshot = Phase_Resolution"
| "resource_phase Resource_AggregateDocumentBytesPerSnapshot = Phase_Discovery"
| "resource_phase Resource_RawLinkDestinationBytes = Phase_Parse"
| "resource_phase Resource_ParserNesting = Phase_Parse"
| "resource_phase Resource_ParserNodesPerDocument = Phase_Parse"
| "resource_phase Resource_ParserNodesPerSnapshot = Phase_Parse"
| "resource_phase Resource_AggregateEmbeddedCodeEvaluationBytesPerSnapshot = Phase_Parse"
| "resource_phase Resource_ReferencesPerDocument = Phase_Parse"
| "resource_phase Resource_ReferencesPerSnapshot = Phase_Parse"
| "resource_phase Resource_DeclaredLabelsPerSnapshot = Phase_Parse"
| "resource_phase Resource_OrganizationPolicyEntries = Phase_Configuration"
| "resource_phase Resource_CompleteFindings = Phase_Policy"
| "resource_phase Resource_TypedAnalysisErrorsRetained = Phase_Internal"
| "resource_phase Resource_MachineJsonBytes = Phase_Output"
| "resource_phase Resource_PrivateTemporaryStorageBytes = Phase_Internal"
| "resource_phase Resource_EvaluatorManagedMemoryBytes = Phase_Internal"

datatype error =
    Parse fault
  | Git git_defect
  | UnrepresentablePath
  | Internal
  | ResourceLimit resource_name u64 u64

section \<open>Limits and totals\<close>

record scan_limits =
  documents_per_snapshot :: u64
  document_blob_bytes :: u64
  aggregate_document_bytes_per_snapshot :: u64
  raw_link_destination_bytes :: u64
  parser_nesting :: u64
  parser_nodes_per_document :: u64
  parser_nodes_per_snapshot :: u64
  aggregate_embedded_code_evaluation_bytes_per_snapshot :: u64
  references_per_document :: u64
  references_per_snapshot :: u64
  declared_labels_per_snapshot :: u64
  referenced_target_blob_bytes :: u64
  aggregate_referenced_target_bytes_per_snapshot :: u64
  ignore_declaration_blob_bytes :: u64
  aggregate_ignore_declaration_bytes_per_snapshot :: u64
  aggregate_line_fragment_evaluation_bytes_per_snapshot :: u64
  aggregate_heading_anchor_evaluation_bytes_per_snapshot :: u64
  projection_assertions_per_snapshot :: u64
  aggregate_projection_selected_bytes_per_snapshot :: u64
  projection_records_compared_per_snapshot :: u64
  aggregate_projection_projected_bytes_per_snapshot :: u64
  aggregate_projection_preview_bytes_per_snapshot :: u64
  selected_control_blob_bytes :: u64
  aggregate_selected_control_bytes_per_snapshot :: u64
  control_input_bytes :: u64
  repository_policy_entries :: u64
  debt_items :: u64
  waiver_items :: u64
  errors_retained :: u64
  complete_findings :: u64

definition CONTRACT :: scan_limits where
  "CONTRACT =
     \<lparr>documents_per_snapshot = 100000,
      document_blob_bytes = 4194304,
      aggregate_document_bytes_per_snapshot = 83886080,
      raw_link_destination_bytes = 16384,
      parser_nesting = 256,
      parser_nodes_per_document = 250000,
      parser_nodes_per_snapshot = 5000000,
      aggregate_embedded_code_evaluation_bytes_per_snapshot = 536870912,
      references_per_document = 16384,
      references_per_snapshot = 1000000,
      declared_labels_per_snapshot = 1000000,
      referenced_target_blob_bytes = 16777216,
      aggregate_referenced_target_bytes_per_snapshot = 536870912,
      ignore_declaration_blob_bytes = 1048576,
      aggregate_ignore_declaration_bytes_per_snapshot = 16777216,
      aggregate_line_fragment_evaluation_bytes_per_snapshot = 536870912,
      aggregate_heading_anchor_evaluation_bytes_per_snapshot = 536870912,
      projection_assertions_per_snapshot = 10000,
      aggregate_projection_selected_bytes_per_snapshot = 67108864,
      projection_records_compared_per_snapshot = 200000,
      aggregate_projection_projected_bytes_per_snapshot = 67108864,
      aggregate_projection_preview_bytes_per_snapshot = 16777216,
      selected_control_blob_bytes = 16777216,
      aggregate_selected_control_bytes_per_snapshot = 67108864,
      control_input_bytes = 16777216,
      repository_policy_entries = 100000,
      debt_items = 100000,
      waiver_items = 100000,
      errors_retained = 64,
      complete_findings = 100000\<rparr>"

record scan_resources =
  limits :: scan_limits
  documents_total :: u64
  document_bytes_total :: u64
  nodes_total :: u64
  embedded_code_bytes_total :: u64
  references_total :: u64
  labels_total :: u64
  target_bytes_total :: u64
  ignore_declaration_bytes_total :: u64
  line_fragment_bytes_total :: u64
  heading_anchor_bytes_total :: u64
  projection_assertions_total :: u64
  projection_selected_bytes_total :: u64
  projection_compared_records_total :: u64
  projection_projected_bytes_total :: u64
  projection_preview_bytes_total :: u64
  control_bytes_total :: u64
  historical_tree_entries_total :: u64

definition scan_resources_new :: "scan_limits \<Rightarrow> scan_resources" where
  "scan_resources_new lim =
     \<lparr>limits = lim,
      documents_total = 0,
      document_bytes_total = 0,
      nodes_total = 0,
      embedded_code_bytes_total = 0,
      references_total = 0,
      labels_total = 0,
      target_bytes_total = 0,
      ignore_declaration_bytes_total = 0,
      line_fragment_bytes_total = 0,
      heading_anchor_bytes_total = 0,
      projection_assertions_total = 0,
      projection_selected_bytes_total = 0,
      projection_compared_records_total = 0,
      projection_projected_bytes_total = 0,
      projection_preview_bytes_total = 0,
      control_bytes_total = 0,
      historical_tree_entries_total = 0\<rparr>"

datatype aggregate =
    SelectedControlBytes | ReferencedTargetBytes | IgnoreDeclarationBytes | LineFragmentBytes
  | HeadingAnchorBytes | ProjectionAssertions | ProjectionSelectedBytes
  | ProjectionComparedRecords | ProjectionProjectedBytes | ProjectionPreviewBytes

section \<open>Charging\<close>

definition crossing :: "resource_name \<Rightarrow> u64 \<Rightarrow> u64 \<Rightarrow> error" where
  "crossing resource configured_limit observed = ResourceLimit resource configured_limit observed"

definition within_limit :: "u64 \<Rightarrow> u64 \<Rightarrow> resource_name \<Rightarrow> u64 \<Rightarrow> (error, unit) result" where
  "within_limit value limit resource observed =
     (if value \<le> limit then Inr () else Inl (crossing resource limit observed))"

definition bounded_value :: "u64 \<Rightarrow> u64 \<Rightarrow> resource_name \<Rightarrow> (error, u64) result" where
  "bounded_value value limit resource =
     rbind (within_limit value limit resource value) (\<lambda>_. Inr value)"

text \<open>A charge sees the total through a mutable reference: it returns the new total.\<close>

definition charge_aggregate ::
  "u64 \<Rightarrow> resource_name \<Rightarrow> u64 \<Rightarrow> u64 \<Rightarrow> (error, unit) result \<times> u64" where
  "charge_aggregate limit resource amount prior =
     (let charged = saturating_add prior amount in
      case within_limit charged limit resource charged of
        Inl e \<Rightarrow> (Inl e, prior)
      | Inr _ \<Rightarrow> (Inr (), charged))"

definition charge_count ::
  "u64 \<Rightarrow> u64 \<Rightarrow> resource_name \<Rightarrow> u64 \<Rightarrow> (error, unit) result \<times> u64" where
  "charge_count increment limit resource prior =
     (let charged = saturating_add prior increment
      in (within_limit charged limit resource (saturating_add limit 1), charged))"

text \<open>\<open>&mut self.field\<close>: run a charge on one field of the state.\<close>

definition on_field ::
  "(scan_resources \<Rightarrow> u64) \<Rightarrow> (u64 \<Rightarrow> scan_resources \<Rightarrow> scan_resources)
   \<Rightarrow> (u64 \<Rightarrow> (error, unit) result \<times> u64) \<Rightarrow> scan_resources
   \<Rightarrow> (error, unit) result \<times> scan_resources" where
  "on_field get put f s = (case f (get s) of (r, charged) \<Rightarrow> (r, put charged s))"

primrec aggregate_total :: "aggregate \<Rightarrow> scan_resources \<Rightarrow> u64" where
  "aggregate_total SelectedControlBytes = control_bytes_total"
| "aggregate_total ReferencedTargetBytes = target_bytes_total"
| "aggregate_total IgnoreDeclarationBytes = ignore_declaration_bytes_total"
| "aggregate_total LineFragmentBytes = line_fragment_bytes_total"
| "aggregate_total HeadingAnchorBytes = heading_anchor_bytes_total"
| "aggregate_total ProjectionAssertions = projection_assertions_total"
| "aggregate_total ProjectionSelectedBytes = projection_selected_bytes_total"
| "aggregate_total ProjectionComparedRecords = projection_compared_records_total"
| "aggregate_total ProjectionProjectedBytes = projection_projected_bytes_total"
| "aggregate_total ProjectionPreviewBytes = projection_preview_bytes_total"

primrec set_aggregate_total :: "aggregate \<Rightarrow> u64 \<Rightarrow> scan_resources \<Rightarrow> scan_resources" where
  "set_aggregate_total SelectedControlBytes = (\<lambda>v. control_bytes_total_update (\<lambda>_. v))"
| "set_aggregate_total ReferencedTargetBytes = (\<lambda>v. target_bytes_total_update (\<lambda>_. v))"
| "set_aggregate_total IgnoreDeclarationBytes = (\<lambda>v. ignore_declaration_bytes_total_update (\<lambda>_. v))"
| "set_aggregate_total LineFragmentBytes = (\<lambda>v. line_fragment_bytes_total_update (\<lambda>_. v))"
| "set_aggregate_total HeadingAnchorBytes = (\<lambda>v. heading_anchor_bytes_total_update (\<lambda>_. v))"
| "set_aggregate_total ProjectionAssertions = (\<lambda>v. projection_assertions_total_update (\<lambda>_. v))"
| "set_aggregate_total ProjectionSelectedBytes = (\<lambda>v. projection_selected_bytes_total_update (\<lambda>_. v))"
| "set_aggregate_total ProjectionComparedRecords = (\<lambda>v. projection_compared_records_total_update (\<lambda>_. v))"
| "set_aggregate_total ProjectionProjectedBytes = (\<lambda>v. projection_projected_bytes_total_update (\<lambda>_. v))"
| "set_aggregate_total ProjectionPreviewBytes = (\<lambda>v. projection_preview_bytes_total_update (\<lambda>_. v))"

primrec aggregate_limit :: "aggregate \<Rightarrow> scan_limits \<Rightarrow> u64" where
  "aggregate_limit SelectedControlBytes = aggregate_selected_control_bytes_per_snapshot"
| "aggregate_limit ReferencedTargetBytes = aggregate_referenced_target_bytes_per_snapshot"
| "aggregate_limit IgnoreDeclarationBytes = aggregate_ignore_declaration_bytes_per_snapshot"
| "aggregate_limit LineFragmentBytes = aggregate_line_fragment_evaluation_bytes_per_snapshot"
| "aggregate_limit HeadingAnchorBytes = aggregate_heading_anchor_evaluation_bytes_per_snapshot"
| "aggregate_limit ProjectionAssertions = projection_assertions_per_snapshot"
| "aggregate_limit ProjectionSelectedBytes = aggregate_projection_selected_bytes_per_snapshot"
| "aggregate_limit ProjectionComparedRecords = projection_records_compared_per_snapshot"
| "aggregate_limit ProjectionProjectedBytes = aggregate_projection_projected_bytes_per_snapshot"
| "aggregate_limit ProjectionPreviewBytes = aggregate_projection_preview_bytes_per_snapshot"

primrec aggregate_resource :: "aggregate \<Rightarrow> resource_name" where
  "aggregate_resource SelectedControlBytes = Resource_AggregateSelectedControlBytesPerSnapshot"
| "aggregate_resource ReferencedTargetBytes = Resource_AggregateReferencedTargetBytesPerSnapshot"
| "aggregate_resource IgnoreDeclarationBytes = Resource_AggregateIgnoreDeclarationBytesPerSnapshot"
| "aggregate_resource LineFragmentBytes = Resource_AggregateLineFragmentEvaluationBytesPerSnapshot"
| "aggregate_resource HeadingAnchorBytes = Resource_AggregateHeadingAnchorEvaluationBytesPerSnapshot"
| "aggregate_resource ProjectionAssertions = Resource_ProjectionAssertionsPerSnapshot"
| "aggregate_resource ProjectionSelectedBytes = Resource_AggregateProjectionSelectedBytesPerSnapshot"
| "aggregate_resource ProjectionComparedRecords = Resource_ProjectionRecordsComparedPerSnapshot"
| "aggregate_resource ProjectionProjectedBytes = Resource_AggregateProjectionProjectedBytesPerSnapshot"
| "aggregate_resource ProjectionPreviewBytes = Resource_AggregateProjectionPreviewBytesPerSnapshot"

definition charge :: "aggregate \<Rightarrow> u64 \<Rightarrow> scan_resources \<Rightarrow> (error, unit) result \<times> scan_resources" where
  "charge a amount s =
     on_field (aggregate_total a) (set_aggregate_total a)
       (charge_aggregate (aggregate_limit a (limits s)) (aggregate_resource a) amount) s"

definition charge_historical_tree_entries ::
  "u64 \<Rightarrow> u64 \<Rightarrow> scan_resources \<Rightarrow> (error, unit) result \<times> scan_resources" where
  "charge_historical_tree_entries entries limit s =
     on_field historical_tree_entries_total (\<lambda>v. historical_tree_entries_total_update (\<lambda>_. v))
       (charge_count entries limit Resource_GitTreeEntriesPerSnapshot) s"

definition embedded_code_allowance :: "scan_resources \<Rightarrow> u64" where
  "embedded_code_allowance s =
     saturating_sub (aggregate_embedded_code_evaluation_bytes_per_snapshot (limits s))
       (embedded_code_bytes_total s)"

definition charge_embedded_code :: "u64 \<Rightarrow> scan_resources \<Rightarrow> scan_resources" where
  "charge_embedded_code spent s =
     s\<lparr>embedded_code_bytes_total := saturating_add (embedded_code_bytes_total s) spent\<rparr>"

definition embedded_code_crossing :: "u64 \<Rightarrow> scan_resources \<Rightarrow> error" where
  "embedded_code_crossing spent s =
     crossing Resource_AggregateEmbeddedCodeEvaluationBytesPerSnapshot
       (aggregate_embedded_code_evaluation_bytes_per_snapshot (limits s))
       (saturating_add (embedded_code_bytes_total s) spent)"

definition heading_anchor_allowance :: "scan_resources \<Rightarrow> u64" where
  "heading_anchor_allowance s =
     saturating_sub (aggregate_heading_anchor_evaluation_bytes_per_snapshot (limits s))
       (heading_anchor_bytes_total s)"

definition admit_document :: "scan_resources \<Rightarrow> (error, unit) result \<times> scan_resources" where
  "admit_document s =
     on_field documents_total (\<lambda>v. documents_total_update (\<lambda>_. v))
       (charge_count 1 (documents_per_snapshot (limits s)) Resource_DocumentsPerSnapshot) s"

definition charge_document_bytes :: "u64 \<Rightarrow> scan_resources \<Rightarrow> (error, unit) result \<times> scan_resources" where
  "charge_document_bytes declared s =
     (case bounded_value declared (document_blob_bytes (limits s)) Resource_DocumentBlobBytes of
        Inl e \<Rightarrow> (Inl e, s)
      | Inr bytes \<Rightarrow>
          on_field document_bytes_total (\<lambda>v. document_bytes_total_update (\<lambda>_. v))
            (charge_aggregate (aggregate_document_bytes_per_snapshot (limits s))
               Resource_AggregateDocumentBytesPerSnapshot bytes) s)"

definition charge_document :: "u64 \<Rightarrow> scan_resources \<Rightarrow> (error, unit) result \<times> scan_resources" where
  "charge_document declared s =
     (case admit_document s of
        (Inl e, s') \<Rightarrow> (Inl e, s')
      | (Inr _, s') \<Rightarrow> charge_document_bytes declared s')"

definition charge_work :: "u64 \<Rightarrow> u64 \<Rightarrow> scan_resources \<Rightarrow> (error, unit) result \<times> scan_resources" where
  "charge_work work_nodes nesting s =
     (case within_limit nesting (parser_nesting (limits s)) Resource_ParserNesting
             (saturating_add (parser_nesting (limits s)) 1) of
        Inl e \<Rightarrow> (Inl e, s)
      | Inr _ \<Rightarrow>
        (case within_limit work_nodes (parser_nodes_per_document (limits s))
                Resource_ParserNodesPerDocument
                (saturating_add (parser_nodes_per_document (limits s)) 1) of
           Inl e \<Rightarrow> (Inl e, s)
         | Inr _ \<Rightarrow>
             on_field nodes_total (\<lambda>v. nodes_total_update (\<lambda>_. v))
               (charge_count work_nodes (parser_nodes_per_snapshot (limits s))
                  Resource_ParserNodesPerSnapshot) s))"

definition charge_reference :: "u64 \<Rightarrow> scan_resources \<Rightarrow> (error, unit) result \<times> scan_resources" where
  "charge_reference document_references s =
     (let per_document = references_per_document (limits s) in
      if per_document < document_references then
        (Inl (ResourceLimit Resource_ReferencesPerDocument per_document (saturating_add per_document 1)), s)
      else
        on_field references_total (\<lambda>v. references_total_update (\<lambda>_. v))
          (charge_count 1 (references_per_snapshot (limits s)) Resource_ReferencesPerSnapshot) s)"

definition charge_label :: "scan_resources \<Rightarrow> (error, unit) result \<times> scan_resources" where
  "charge_label s =
     on_field labels_total (\<lambda>v. labels_total_update (\<lambda>_. v))
       (charge_count 1 (declared_labels_per_snapshot (limits s)) Resource_DeclaredLabelsPerSnapshot) s"

section \<open>Meters\<close>

text \<open>
  The contract of a counted field: writing it is read back, writing what is there changes
  nothing, and the limits stay as they are.
\<close>

locale meter =
  fixes get :: "scan_resources \<Rightarrow> u64"
    and put :: "u64 \<Rightarrow> scan_resources \<Rightarrow> scan_resources"
  assumes get_put: "get (put v s) = v"
    and put_get: "put (get s) s = s"
    and limits_put: "limits (put v s) = limits s"
begin

lemma aggregate_on_field:
  "on_field get put (charge_aggregate limit resource amount) s =
     (if saturating_add (get s) amount \<le> limit
      then (Inr (), put (saturating_add (get s) amount) s)
      else (Inl (ResourceLimit resource limit (saturating_add (get s) amount)), s))"
  by (simp add: on_field_def charge_aggregate_def within_limit_def crossing_def put_get Let_def)

lemma count_on_field:
  "on_field get put (charge_count increment limit resource) s =
     (within_limit (saturating_add (get s) increment) limit resource (saturating_add limit 1),
      put (saturating_add (get s) increment) s)"
  by (simp add: on_field_def charge_count_def Let_def)

lemma limits_on_field: "limits (snd (on_field get put f s)) = limits s"
  by (simp add: on_field_def limits_put split: prod.splits)

lemma aggregate_bounded:
  assumes "get s \<le> limit"
  shows "get (snd (on_field get put (charge_aggregate limit resource amount) s)) \<le> limit"
  using assms by (simp add: aggregate_on_field get_put)

lemma count_bounded:
  assumes "fst (on_field get put (charge_count increment limit resource) s) = Inr ()"
  shows "get (snd (on_field get put (charge_count increment limit resource) s)) \<le> limit"
  using assms by (simp add: count_on_field within_limit_def get_put split: if_splits)

end

interpretation aggregate_meter: meter "aggregate_total a" "set_aggregate_total a" for a
  by unfold_locales (cases a; simp)+

interpretation documents_meter: meter documents_total "\<lambda>v. documents_total_update (\<lambda>_. v)"
  by unfold_locales simp_all

interpretation document_bytes_meter: meter document_bytes_total "\<lambda>v. document_bytes_total_update (\<lambda>_. v)"
  by unfold_locales simp_all

interpretation nodes_meter: meter nodes_total "\<lambda>v. nodes_total_update (\<lambda>_. v)"
  by unfold_locales simp_all

interpretation references_meter: meter references_total "\<lambda>v. references_total_update (\<lambda>_. v)"
  by unfold_locales simp_all

interpretation labels_meter: meter labels_total "\<lambda>v. labels_total_update (\<lambda>_. v)"
  by unfold_locales simp_all

interpretation historical_meter:
  meter historical_tree_entries_total "\<lambda>v. historical_tree_entries_total_update (\<lambda>_. v)"
  by unfold_locales simp_all

lemma saturating_add_le_iff:
  fixes t :: u64
  assumes "limit \<noteq> - 1"
  shows "saturating_add t n \<le> limit \<longleftrightarrow> unat t + unat n \<le> unat limit"
    and "unat t + unat n \<le> unat limit \<Longrightarrow> saturating_add t n = t + n"
proof -
  have max: "unat (- 1 :: u64) = 2 ^ 64 - 1"
    by (simp add: unsigned_minus_1_eq_mask mask_eq_exp_minus_1)
  have "unat limit < 2 ^ 64" using unsigned_less [of limit] by simp
  moreover have "unat limit \<noteq> 2 ^ 64 - 1" using assms max by (metis word_unat_eq_iff)
  ultimately have lim: "unat limit < 2 ^ 64 - 1" by linarith
  then show "saturating_add t n \<le> limit \<longleftrightarrow> unat t + unat n \<le> unat limit"
    by (auto simp: word_le_nat_alt unat_saturating_add min_def)
  show "saturating_add t n = t + n" if "unat t + unat n \<le> unat limit"
    using that lim by (simp add: saturating_add_def)
qed

text \<open>
  C21. Charging an aggregate is exact wherever the limit is below the largest \<open>u64\<close>: the
  charge succeeds exactly when the true sum stays within the limit and then the total is
  that sum; otherwise it names the resource, the limit and the sum it saw, and the state is
  unchanged, so a rejected member is never counted.
\<close>

theorem charge_exact:
  assumes "aggregate_limit a (limits s) \<noteq> - 1"
  shows "charge a n s =
    (if unat (aggregate_total a s) + unat n \<le> unat (aggregate_limit a (limits s))
     then (Inr (), set_aggregate_total a (aggregate_total a s + n) s)
     else (Inl (ResourceLimit (aggregate_resource a) (aggregate_limit a (limits s))
                 (saturating_add (aggregate_total a s) n)), s))"
  using saturating_add_le_iff [OF assms, of "aggregate_total a s" n]
  by (simp add: charge_def aggregate_meter.aggregate_on_field)

theorem charge_exact_witness:
  "charge LineFragmentBytes 536870913 (scan_resources_new CONTRACT) =
     (Inl (ResourceLimit Resource_AggregateLineFragmentEvaluationBytesPerSnapshot 536870912 536870913),
      scan_resources_new CONTRACT)"
proof -
  have lim: "aggregate_limit LineFragmentBytes (limits (scan_resources_new CONTRACT)) = 536870912"
    and tot: "aggregate_total LineFragmentBytes (scan_resources_new CONTRACT) = 0"
    by (simp_all add: scan_resources_new_def CONTRACT_def)
  have "aggregate_limit LineFragmentBytes (limits (scan_resources_new CONTRACT)) \<noteq> - 1"
    unfolding lim by simp
  from charge_exact [OF this, of 536870913] show ?thesis
    unfolding lim tot by simp
qed

section \<open>Runs of charges\<close>

datatype charge_op =
    Op_Charge aggregate u64
  | Op_AdmitDocument
  | Op_DocumentBytes u64
  | Op_Document u64
  | Op_Work u64 u64
  | Op_Reference u64
  | Op_Label

fun run_op :: "charge_op \<Rightarrow> scan_resources \<Rightarrow> (error, unit) result \<times> scan_resources" where
  "run_op (Op_Charge a n) = charge a n"
| "run_op Op_AdmitDocument = admit_document"
| "run_op (Op_DocumentBytes n) = charge_document_bytes n"
| "run_op (Op_Document n) = charge_document n"
| "run_op (Op_Work n d) = charge_work n d"
| "run_op (Op_Reference n) = charge_reference n"
| "run_op Op_Label = charge_label"

fun run_ops :: "charge_op list \<Rightarrow> scan_resources \<Rightarrow> (error, unit) result \<times> scan_resources" where
  "run_ops [] s = (Inr (), s)"
| "run_ops (op # ops) s =
     (case run_op op s of (Inl e, s') \<Rightarrow> (Inl e, s') | (Inr _, s') \<Rightarrow> run_ops ops s')"

definition within_limits :: "scan_resources \<Rightarrow> bool" where
  "within_limits s \<longleftrightarrow>
     (\<forall>a. aggregate_total a s \<le> aggregate_limit a (limits s))
     \<and> documents_total s \<le> documents_per_snapshot (limits s)
     \<and> document_bytes_total s \<le> aggregate_document_bytes_per_snapshot (limits s)
     \<and> nodes_total s \<le> parser_nodes_per_snapshot (limits s)
     \<and> references_total s \<le> references_per_snapshot (limits s)
     \<and> labels_total s \<le> declared_labels_per_snapshot (limits s)"

fun charged_to :: "aggregate \<Rightarrow> charge_op \<Rightarrow> nat" where
  "charged_to a (Op_Charge b n) = (if a = b then unat n else 0)"
| "charged_to a _ = 0"

lemma aggregate_total_set:
  "aggregate_total a (set_aggregate_total b v s) = (if a = b then v else aggregate_total a s)"
  by (cases a; cases b) simp_all

lemma set_aggregate_total_other [simp]:
  "limits (set_aggregate_total b v s) = limits s"
  "documents_total (set_aggregate_total b v s) = documents_total s"
  "document_bytes_total (set_aggregate_total b v s) = document_bytes_total s"
  "nodes_total (set_aggregate_total b v s) = nodes_total s"
  "references_total (set_aggregate_total b v s) = references_total s"
  "labels_total (set_aggregate_total b v s) = labels_total s"
  by (cases b; simp)+

lemma aggregate_total_other [simp]:
  "aggregate_total a (s\<lparr>documents_total := v\<rparr>) = aggregate_total a s"
  "aggregate_total a (s\<lparr>document_bytes_total := v\<rparr>) = aggregate_total a s"
  "aggregate_total a (s\<lparr>nodes_total := v\<rparr>) = aggregate_total a s"
  "aggregate_total a (s\<lparr>references_total := v\<rparr>) = aggregate_total a s"
  "aggregate_total a (s\<lparr>labels_total := v\<rparr>) = aggregate_total a s"
  by (cases a; simp)+

text \<open>What one successful operation does to the state.\<close>

definition op_effect :: "charge_op \<Rightarrow> scan_resources \<Rightarrow> scan_resources \<Rightarrow> bool" where
  "op_effect op s s' \<longleftrightarrow> limits s' = limits s \<and> (within_limits s \<longrightarrow> within_limits s')
     \<and> (\<forall>a. aggregate_limit a (limits s) \<noteq> - 1 \<longrightarrow>
          unat (aggregate_total a s') = unat (aggregate_total a s) + charged_to a op)"

lemma charge_effect:
  assumes "charge b n s = (Inr (), s')"
  shows "op_effect (Op_Charge b n) s s'"
proof -
  have le: "saturating_add (aggregate_total b s) n \<le> aggregate_limit b (limits s)"
    and s': "s' = set_aggregate_total b (saturating_add (aggregate_total b s) n) s"
    using assms by (simp_all add: charge_def aggregate_meter.aggregate_on_field split: if_splits)
  have "unat (saturating_add (aggregate_total b s) n) = unat (aggregate_total b s) + unat n"
    if "aggregate_limit b (limits s) \<noteq> - 1"
  proof -
    have "unat (aggregate_total b s) + unat n \<le> unat (aggregate_limit b (limits s))"
      using saturating_add_le_iff(1) [OF that] le by blast
    moreover have "unat (aggregate_limit b (limits s)) < 2 ^ 64"
      using unsigned_less [of "aggregate_limit b (limits s)"] by simp
    ultimately show ?thesis by (simp add: unat_saturating_add)
  qed
  with le show ?thesis
    by (auto simp: op_effect_def s' aggregate_total_set within_limits_def)
qed

lemma admit_effect:
  assumes "admit_document s = (Inr (), s')"
  shows "op_effect Op_AdmitDocument s s'"
  using assms
  by (auto simp: admit_document_def documents_meter.count_on_field within_limit_def op_effect_def
      within_limits_def split: if_splits)

lemma document_bytes_effect:
  assumes "charge_document_bytes n s = (Inr (), s')"
  shows "op_effect (Op_DocumentBytes n) s s'"
  using assms
  by (auto simp: charge_document_bytes_def document_bytes_meter.aggregate_on_field bounded_value_def
      within_limit_def op_effect_def within_limits_def split: if_splits sum.splits)

lemma document_effect:
  assumes "charge_document n s = (Inr (), s')"
  shows "op_effect (Op_Document n) s s'"
proof -
  from assms obtain t where t: "admit_document s = (Inr (), t)" "charge_document_bytes n t = (Inr (), s')"
    by (auto simp: charge_document_def split: prod.splits sum.splits)
  show ?thesis
    using admit_effect [OF t(1)] document_bytes_effect [OF t(2)] by (simp add: op_effect_def)
qed

lemma work_effect:
  assumes "charge_work n d s = (Inr (), s')"
  shows "op_effect (Op_Work n d) s s'"
  using assms
  by (auto simp: charge_work_def nodes_meter.count_on_field within_limit_def op_effect_def
      within_limits_def split: if_splits)

lemma reference_effect:
  assumes "charge_reference n s = (Inr (), s')"
  shows "op_effect (Op_Reference n) s s'"
  using assms
  by (auto simp: charge_reference_def Let_def references_meter.count_on_field within_limit_def
      op_effect_def within_limits_def split: if_splits)

lemma label_effect:
  assumes "charge_label s = (Inr (), s')"
  shows "op_effect Op_Label s s'"
  using assms
  by (auto simp: charge_label_def labels_meter.count_on_field within_limit_def op_effect_def
      within_limits_def split: if_splits)

lemmas op_effects = charge_effect admit_effect document_bytes_effect document_effect work_effect
  reference_effect label_effect

lemma run_op_effect: "run_op op s = (Inr (), s') \<Longrightarrow> op_effect op s s'"
  by (cases op) (simp_all add: op_effects)

lemma run_ops_effect:
  assumes "run_ops ops s = (Inr (), s')"
  shows "limits s' = limits s \<and> (within_limits s \<longrightarrow> within_limits s')
     \<and> (\<forall>a. aggregate_limit a (limits s) \<noteq> - 1 \<longrightarrow>
          unat (aggregate_total a s') = unat (aggregate_total a s) + sum_list (map (charged_to a) ops))"
  using assms
proof (induction ops arbitrary: s)
  case (Cons op ops)
  then obtain t where t: "run_op op s = (Inr (), t)" "run_ops ops t = (Inr (), s')"
    by (auto split: prod.splits sum.splits)
  from run_op_effect [OF t(1)] Cons.IH [OF t(2)] show ?case
    by (simp add: op_effect_def)
qed simp

lemma within_limits_new: "within_limits (scan_resources_new lim)"
proof -
  have "aggregate_total a (scan_resources_new lim) = 0" for a
    by (cases a) (simp_all add: scan_resources_new_def)
  then show ?thesis by (simp add: within_limits_def) (simp add: scan_resources_new_def)
qed

text \<open>
  C3. A scan that is not stopped by a crossing keeps every counter within its limit, and
  its books are exact: for each aggregate whose limit is below the largest \<open>u64\<close>, the total
  is the sum of the amounts the successful run charged to it, with no saturation and no
  charge lost or counted twice. The run has the charges that are checked against a ceiling of
  the scan: the embedded-code counter, which \<open>charge_embedded_code\<close> raises without a check, and
  the historical tree entries, whose ceiling comes with each call, are not in it.
\<close>

theorem run_ops_accounting:
  assumes "run_ops ops (scan_resources_new lim) = (Inr (), s)"
  shows "within_limits s \<and> limits s = lim
     \<and> (aggregate_limit a lim \<noteq> - 1 \<longrightarrow>
          unat (aggregate_total a s) = sum_list (map (charged_to a) ops))"
proof -
  have "aggregate_total a (scan_resources_new lim) = 0" "limits (scan_resources_new lim) = lim"
    by (cases a; simp add: scan_resources_new_def)+
  with run_ops_effect [OF assms] within_limits_new [of lim] show ?thesis by simp
qed

theorem run_ops_accounting_witness:
  "\<exists>s. run_ops [Op_Document 10, Op_Charge LineFragmentBytes 7, Op_Label, Op_Charge LineFragmentBytes 5]
       (scan_resources_new CONTRACT) = (Inr (), s)
     \<and> unat (line_fragment_bytes_total s) = 12 \<and> within_limits s"
proof -
  let ?ops = "[Op_Document 10, Op_Charge LineFragmentBytes 7, Op_Label, Op_Charge LineFragmentBytes 5]"
  obtain s where s: "run_ops ?ops (scan_resources_new CONTRACT) = (Inr (), s)"
    by (simp add: charge_document_def admit_document_def charge_document_bytes_def charge_label_def
        charge_def on_field_def charge_count_def charge_aggregate_def bounded_value_def
        within_limit_def saturating_add_def scan_resources_new_def CONTRACT_def)
  have "aggregate_limit LineFragmentBytes CONTRACT \<noteq> - 1"
    by (simp add: CONTRACT_def)
  with run_ops_accounting [OF s, of LineFragmentBytes] s show ?thesis
    by (intro exI [of _ s]) simp
qed

text \<open>
  The embedded-code total is charged without a check; it stays within its ceiling because a
  parse is granted no more than the allowance.
\<close>

lemma charge_embedded_code_bounded:
  assumes "embedded_code_bytes_total s \<le> aggregate_embedded_code_evaluation_bytes_per_snapshot (limits s)"
    and "spent \<le> embedded_code_allowance s"
  shows "embedded_code_bytes_total (charge_embedded_code spent s)
     \<le> aggregate_embedded_code_evaluation_bytes_per_snapshot (limits (charge_embedded_code spent s))"
  using assms
  by (auto simp: charge_embedded_code_def embedded_code_allowance_def word_le_nat_alt
      unat_saturating_add unat_saturating_sub)

end
