(* ===== verification/Wire_Names.thy ===== *)
theory Wire_Names
  imports Scan_Resources
begin

text \<open>
  The spellings the enumerations carry on the wire, the kebab-case names \<open>strum\<close> derives for
  \<open>FindingKind\<close>, the promotable and the eligible kinds, \<open>Profile\<close> and \<open>ResourceName\<close>. Rule
  identities are built from them and the sorted sets of the controls are ordered by them.
\<close>

primrec finding_kind_str :: "finding_kind \<Rightarrow> bytes" where
  "finding_kind_str ExplicitTargetMissing = ''explicit-target-missing''"
| "finding_kind_str ExplicitTargetTypeMismatch = ''explicit-target-type-mismatch''"
| "finding_kind_str Kind_InvalidReference = ''invalid-reference''"
| "finding_kind_str TargetDeclaredUntracked = ''target-declared-untracked''"
| "finding_kind_str UnsupportedReferenceSemantics = ''unsupported-reference-semantics''"
| "finding_kind_str UnsupportedDocumentFormat = ''unsupported-document-format''"
| "finding_kind_str UnsupportedTargetKind = ''unsupported-target-kind''"
| "finding_kind_str UnsupportedVersionScope = ''unsupported-version-scope''"
| "finding_kind_str UnsupportedCapability = ''unsupported-capability''"
| "finding_kind_str DependencyChangedSubjectUnchanged = ''dependency-changed-subject-unchanged''"
| "finding_kind_str DependencyAndSubjectCochanged = ''dependency-and-subject-cochanged''"
| "finding_kind_str SubjectChanged = ''subject-changed''"
| "finding_kind_str TranslationDrift = ''translation-drift''"
| "finding_kind_str ExplicitReferenceRemoved = ''explicit-reference-removed''"
| "finding_kind_str DocumentRemoved = ''document-removed''"
| "finding_kind_str OpaqueMdxRegion = ''opaque-mdx-region''"
| "finding_kind_str OpaqueHtmlRegion = ''opaque-html-region''"
| "finding_kind_str ObservationCorrelationAmbiguous = ''observation-correlation-ambiguous''"
| "finding_kind_str UnlinkedDocument = ''unlinked-document''"
| "finding_kind_str SiteBuildDefect = ''site-build-defect''"
| "finding_kind_str PolicyWeakened = ''policy-weakened''"
| "finding_kind_str CoverageReduced = ''coverage-reduced''"
| "finding_kind_str ControlPlaneChanged = ''control-plane-changed''"
| "finding_kind_str DebtWorsened = ''debt-worsened''"
| "finding_kind_str DebtExpired = ''debt-expired''"
| "finding_kind_str WaiverInvalid = ''waiver-invalid''"
| "finding_kind_str ClaimBroken = ''claim-broken''"
| "finding_kind_str ClaimTargetMissing = ''claim-target-missing''"
| "finding_kind_str ProjectionDrift = ''projection-drift''"

primrec promotable_str :: "promotable_finding_kind \<Rightarrow> bytes" where
  "promotable_str Promotable_ExplicitTargetMissing = ''explicit-target-missing''"
| "promotable_str Promotable_ExplicitTargetTypeMismatch = ''explicit-target-type-mismatch''"
| "promotable_str Promotable_InvalidReference = ''invalid-reference''"

datatype eligible_finding_kind = Eligible_ExplicitTargetMissing | Eligible_ExplicitTargetTypeMismatch

primrec eligible_str :: "eligible_finding_kind \<Rightarrow> bytes" where
  "eligible_str Eligible_ExplicitTargetMissing = ''explicit-target-missing''"
| "eligible_str Eligible_ExplicitTargetTypeMismatch = ''explicit-target-type-mismatch''"

primrec profile_str :: "profile \<Rightarrow> bytes" where
  "profile_str Observe = ''observe''"
| "profile_str EnforceIntroduced = ''enforce-introduced''"
| "profile_str Enforce = ''enforce''"

primrec resource_name_str :: "resource_name \<Rightarrow> bytes" where
  "resource_name_str Resource_GitObjectBytes = ''git-object-bytes''"
| "resource_name_str Resource_GitCompressedObjectBytes = ''git-compressed-object-bytes''"
| "resource_name_str Resource_AggregateGitCompressedObjectBytesPerEvaluation = ''aggregate-git-compressed-object-bytes-per-evaluation''"
| "resource_name_str Resource_GitPackDirectoryEntries = ''git-pack-directory-entries''"
| "resource_name_str Resource_GitPackFiles = ''git-pack-files''"
| "resource_name_str Resource_GitPackIndexBytes = ''git-pack-index-bytes''"
| "resource_name_str Resource_AggregateGitPackIndexBytes = ''aggregate-git-pack-index-bytes''"
| "resource_name_str Resource_GitDeltaDepth = ''git-delta-depth''"
| "resource_name_str Resource_GitIndexBytes = ''git-index-bytes''"
| "resource_name_str Resource_GitTreeEntriesPerSnapshot = ''git-tree-entries-per-snapshot''"
| "resource_name_str Resource_DocumentsPerSnapshot = ''documents-per-snapshot''"
| "resource_name_str Resource_ControlInputBytes = ''control-input-bytes''"
| "resource_name_str Resource_SelectedControlBlobBytes = ''selected-control-blob-bytes''"
| "resource_name_str Resource_AggregateSelectedControlBytesPerSnapshot = ''aggregate-selected-control-bytes-per-snapshot''"
| "resource_name_str Resource_RepositoryPolicyEntries = ''repository-policy-entries''"
| "resource_name_str Resource_DebtItems = ''debt-items''"
| "resource_name_str Resource_WaiverItems = ''waiver-items''"
| "resource_name_str Resource_RawPathBytes = ''raw-path-bytes''"
| "resource_name_str Resource_DocumentBlobBytes = ''document-blob-bytes''"
| "resource_name_str Resource_ReferencedTargetBlobBytes = ''referenced-target-blob-bytes''"
| "resource_name_str Resource_AggregateReferencedTargetBytesPerSnapshot = ''aggregate-referenced-target-bytes-per-snapshot''"
| "resource_name_str Resource_IgnoreDeclarationBlobBytes = ''ignore-declaration-blob-bytes''"
| "resource_name_str Resource_AggregateIgnoreDeclarationBytesPerSnapshot = ''aggregate-ignore-declaration-bytes-per-snapshot''"
| "resource_name_str Resource_AggregateLineFragmentEvaluationBytesPerSnapshot = ''aggregate-line-fragment-evaluation-bytes-per-snapshot''"
| "resource_name_str Resource_AggregateHeadingAnchorEvaluationBytesPerSnapshot = ''aggregate-heading-anchor-evaluation-bytes-per-snapshot''"
| "resource_name_str Resource_ProjectionAssertionsPerSnapshot = ''projection-assertions-per-snapshot''"
| "resource_name_str Resource_AggregateProjectionSelectedBytesPerSnapshot = ''aggregate-projection-selected-bytes-per-snapshot''"
| "resource_name_str Resource_ProjectionRecordsComparedPerSnapshot = ''projection-records-compared-per-snapshot''"
| "resource_name_str Resource_AggregateProjectionProjectedBytesPerSnapshot = ''aggregate-projection-projected-bytes-per-snapshot''"
| "resource_name_str Resource_AggregateProjectionPreviewBytesPerSnapshot = ''aggregate-projection-preview-bytes-per-snapshot''"
| "resource_name_str Resource_AggregateDocumentBytesPerSnapshot = ''aggregate-document-bytes-per-snapshot''"
| "resource_name_str Resource_RawLinkDestinationBytes = ''raw-link-destination-bytes''"
| "resource_name_str Resource_ParserNesting = ''parser-nesting''"
| "resource_name_str Resource_ParserNodesPerDocument = ''parser-nodes-per-document''"
| "resource_name_str Resource_ParserNodesPerSnapshot = ''parser-nodes-per-snapshot''"
| "resource_name_str Resource_AggregateEmbeddedCodeEvaluationBytesPerSnapshot = ''aggregate-embedded-code-evaluation-bytes-per-snapshot''"
| "resource_name_str Resource_ReferencesPerDocument = ''references-per-document''"
| "resource_name_str Resource_ReferencesPerSnapshot = ''references-per-snapshot''"
| "resource_name_str Resource_DeclaredLabelsPerSnapshot = ''declared-labels-per-snapshot''"
| "resource_name_str Resource_OrganizationPolicyEntries = ''organization-policy-entries''"
| "resource_name_str Resource_CompleteFindings = ''complete-findings''"
| "resource_name_str Resource_TypedAnalysisErrorsRetained = ''typed-analysis-errors-retained''"
| "resource_name_str Resource_MachineJsonBytes = ''machine-json-bytes''"
| "resource_name_str Resource_PrivateTemporaryStorageBytes = ''private-temporary-storage-bytes''"
| "resource_name_str Resource_EvaluatorManagedMemoryBytes = ''evaluator-managed-memory-bytes''"

end
