(* ===== verification/Text_Ops.thy ===== *)
theory Text_Ops
  imports Prelude
begin

text \<open>
  The slice and string operations of the Rust standard library that the readers of
  documents and configuration files use, beyond those of the prelude: prefixes, suffixes,
  substring search, joining, and trimming by Unicode scalar.
\<close>

section \<open>Slices\<close>

definition starts_with :: "'a list \<Rightarrow> 'a list \<Rightarrow> bool" where
  "starts_with xs p = (strip_prefix p xs \<noteq> None)"

definition ends_in :: "'a list \<Rightarrow> 'a list \<Rightarrow> bool" where
  "ends_in xs p = (strip_suffix p xs \<noteq> None)"

definition contains_bytes :: "'a list \<Rightarrow> 'a list \<Rightarrow> bool" where
  "contains_bytes xs needle = list_ex (\<lambda>i. starts_with (drop i xs) needle) [0..<Suc (length xs)]"

text \<open>\<open>Iterator::rposition\<close> and \<open>position\<close>.\<close>

definition rposition :: "('a \<Rightarrow> bool) \<Rightarrow> 'a list \<Rightarrow> nat option" where
  "rposition P xs = find (\<lambda>i. P (xs ! i)) (rev [0..<length xs])"

definition position :: "('a \<Rightarrow> bool) \<Rightarrow> 'a list \<Rightarrow> nat option" where
  "position P xs = find (\<lambda>i. P (xs ! i)) [0..<length xs]"

text \<open>\<open>slice::join\<close> with one separator.\<close>

fun join_with :: "'a \<Rightarrow> 'a list list \<Rightarrow> 'a list" where
  "join_with s [] = []"
| "join_with s [x] = x"
| "join_with s (x # y # ys) = x @ s # join_with s (y # ys)"

text \<open>\<open>str::find\<close> of a text and \<open>str::split_once\<close> on it.\<close>

definition find_text :: "'a list \<Rightarrow> 'a list \<Rightarrow> nat option" where
  "find_text needle xs = find (\<lambda>i. starts_with (drop i xs) needle) [0..<Suc (length xs)]"

definition split_text :: "'a list \<Rightarrow> 'a list \<Rightarrow> ('a list \<times> 'a list) option" where
  "split_text needle xs = map_option (\<lambda>i. (take i xs, drop (i + length needle) xs)) (find_text needle xs)"

section \<open>Trimming\<close>

definition trim_start_by :: "('a \<Rightarrow> bool) \<Rightarrow> 'a list \<Rightarrow> 'a list" where
  "trim_start_by P xs = dropWhile P xs"

definition trim_end_by :: "('a \<Rightarrow> bool) \<Rightarrow> 'a list \<Rightarrow> 'a list" where
  "trim_end_by P xs = rev (dropWhile P (rev xs))"

definition trim_by :: "('a \<Rightarrow> bool) \<Rightarrow> 'a list \<Rightarrow> 'a list" where
  "trim_by P xs = trim_end_by P (trim_start_by P xs)"

text \<open>\<open>u8::is_ascii_whitespace\<close>: space, tab, line feed, form feed, carriage return.\<close>

definition is_ascii_whitespace :: "byte \<Rightarrow> bool" where
  "is_ascii_whitespace b = (b \<in> {CHR '' '', CHR 0x09, CHR 0x0A, CHR 0x0C, CHR 0x0D})"

abbreviation trim_ascii_start :: "bytes \<Rightarrow> bytes" where
  "trim_ascii_start \<equiv> trim_start_by is_ascii_whitespace"

abbreviation trim_ascii :: "bytes \<Rightarrow> bytes" where
  "trim_ascii \<equiv> trim_by is_ascii_whitespace"

abbreviation trim_blanks :: "bytes \<Rightarrow> bytes" where
  "trim_blanks \<equiv> trim_by (\<lambda>b. b = CHR '' '' \<or> b = CHR 0x09)"

text \<open>The scalars of a text with the bytes that spell each; a text is valid UTF-8.\<close>

function str_chars :: "bytes \<Rightarrow> (nat \<times> bytes) list" where
  "str_chars s =
     (case utf8_next s of
        None \<Rightarrow> []
      | Some (c, rest) \<Rightarrow> (c, take (length s - length rest) s) # str_chars rest)"
  by pat_completeness auto

termination
  by (relation "measure length") (auto dest: utf8_next_shrinks)

declare str_chars.simps [simp del]

text \<open>\<open>char::is_whitespace\<close> and \<open>char::is_control\<close>.\<close>

definition scalar_is_whitespace :: "nat \<Rightarrow> bool" where
  "scalar_is_whitespace c \<longleftrightarrow>
     (9 \<le> c \<and> c \<le> 13) \<or> c = 32 \<or> c = 133 \<or> c = 160 \<or> c = 5760 \<or> (8192 \<le> c \<and> c \<le> 8202)
     \<or> c = 8232 \<or> c = 8233 \<or> c = 8239 \<or> c = 8287 \<or> c = 12288"

definition char_is_control :: "nat \<Rightarrow> bool" where
  "char_is_control c \<longleftrightarrow> c < 32 \<or> (127 \<le> c \<and> c < 160)"

definition any_control :: "bytes \<Rightarrow> bool" where
  "any_control b = (case utf8_decode b of None \<Rightarrow> True | Some cs \<Rightarrow> list_ex char_is_control cs)"

definition str_trim_start :: "bytes \<Rightarrow> bytes" where
  "str_trim_start s = concat (map snd (trim_start_by (\<lambda>(c, _). scalar_is_whitespace c) (str_chars s)))"

definition str_trim_end :: "bytes \<Rightarrow> bytes" where
  "str_trim_end s = concat (map snd (trim_end_by (\<lambda>(c, _). scalar_is_whitespace c) (str_chars s)))"

definition str_trim :: "bytes \<Rightarrow> bytes" where
  "str_trim s = str_trim_end (str_trim_start s)"

section \<open>Lemmas\<close>

lemma starts_with_append [simp]: "starts_with (p @ xs) p"
  by (simp add: starts_with_def strip_prefix_Some_iff)

lemma starts_with_iff: "starts_with xs p \<longleftrightarrow> (\<exists>r. xs = p @ r)"
  by (simp add: starts_with_def strip_prefix_Some_iff flip: ex_simps)

lemma ends_in_iff: "ends_in xs p \<longleftrightarrow> (\<exists>r. xs = r @ p)"
  by (simp add: ends_in_def strip_suffix_Some_iff flip: ex_simps)

lemma rposition_Some:
  "rposition P xs = Some i \<longleftrightarrow> i < length xs \<and> P (xs ! i) \<and> (\<forall>j. i < j \<longrightarrow> j < length xs \<longrightarrow> \<not> P (xs ! j))"
proof -
  have "find Q (rev [0..<n]) = Some i \<longleftrightarrow> i < n \<and> Q i \<and> (\<forall>j. i < j \<longrightarrow> j < n \<longrightarrow> \<not> Q j)" for Q n
    by (induction n) (auto simp: less_Suc_eq)
  then show ?thesis by (simp add: rposition_def)
qed

lemma rposition_None: "rposition P xs = None \<longleftrightarrow> list_all (\<lambda>x. \<not> P x) xs"
  by (auto simp: rposition_def find_None_iff list_all_length)

lemma split_on_join [simp]: "join_with s (split_on s xs) = xs"
proof (induction xs)
  case (Cons x xs)
  then show ?case by (cases "split_on s xs") (auto, (cases "tl (split_on s xs)"; simp)+)
qed simp

lemma join_with_Cons: "join_with s (x # xs) = (if xs = [] then x else x @ s # join_with s xs)"
  by (cases xs) auto

lemma join_with_snoc: "join_with s (xs @ [x]) = (if xs = [] then x else join_with s xs @ s # x)"
  by (induction xs) (auto simp: join_with_Cons)

lemma join_split_on:
  "xs \<noteq> [] \<Longrightarrow> \<forall>x \<in> set xs. s \<notin> set x \<Longrightarrow> split_on s (join_with s xs) = xs"
  by (induction xs) (auto simp: join_with_Cons split_on_append split_on_notin)

lemma rposition_append_slash: "s \<notin> set ys \<Longrightarrow> rposition (\<lambda>b. b = s) (xs @ s # ys) = Some (length xs)"
  by (auto simp: rposition_Some nth_append nth_Cons split: nat.splits)

lemma rposition_slash_None: "rposition (\<lambda>b. b = s) xs = None \<longleftrightarrow> s \<notin> set xs"
  by (auto simp: rposition_None list_all_iff)

lemma split_on_snoc:
  obtains init fin where "split_on s xs = init @ [fin]" and "xs = join_with s (init @ [fin])" and "s \<notin> set fin"
proof -
  obtain init fin where segs: "split_on s xs = init @ [fin]" by (metis append_butlast_last_id split_on_not_Nil)
  moreover have "xs = join_with s (init @ [fin])" by (simp flip: segs)
  moreover have "s \<notin> set fin" by (rule split_on_pieces [of _ _ xs]) (simp add: segs)
  ultimately show ?thesis by (rule that)
qed

end
