(* ===== verification/Wire_Controls.thy ===== *)
theory Wire_Controls
  imports Wire_Names Wire_Identity Text_Ops
begin

text \<open>
  The grammar checks the controls share, \<open>crates/amiss-wire/src/controls.rs\<close> with the errors
  of \<open>de.rs\<close>, and the two exception controls, \<open>controls/{fact,debt,waiver}.rs\<close>. What \<open>serde_json\<close>
  and the canonicalizer write for a fact and for its key are parameters, functions to the
  written bytes, \<open>None\<close> where the writer fails; SHA-256 is the parameter \<open>sha\<close>. The checks are
  shown to accept exactly the documents that meet the stated conditions.
\<close>

section \<open>Errors\<close>

datatype error_kind =
    Kind_Json bytes | Kind_MissingField | Kind_UnknownField | Kind_DuplicateKey | Kind_WrongType
  | Kind_InvalidValue | Kind_UnsortedSet | Kind_DuplicateMember | Kind_LimitExceeded
  | Kind_DigestMismatch | Kind_Inconsistent | Kind_Noncanonical

record wire_error =
  error_path :: bytes
  error_kind :: error_kind

definition wire_error_new :: "bytes \<Rightarrow> error_kind \<Rightarrow> wire_error" where
  "wire_error_new path kind = \<lparr>error_path = path, error_kind = kind\<rparr>"

definition fail :: "bytes \<Rightarrow> error_kind \<Rightarrow> (wire_error, 'a) result" where
  "fail path kind = Inl (wire_error_new path kind)"

definition then_some :: "bool \<Rightarrow> 'e \<Rightarrow> ('e, unit) result" where
  "then_some ok e = (if ok then Inr () else Inl e)"

fun each_from ::
  "nat \<Rightarrow> (nat \<Rightarrow> 'a \<Rightarrow> ('e, unit) result) \<Rightarrow> 'a list \<Rightarrow> ('e, unit) result" where
  "each_from n f [] = Inr ()"
| "each_from n f (x # xs) = rbind (f n x) (\<lambda>_. each_from (Suc n) f xs)"

definition indexed :: "bytes \<Rightarrow> nat \<Rightarrow> bytes" where
  "indexed path index = path @ ''['' @ decimal index @ '']''"

section \<open>Shared checks\<close>

definition ord_cmp :: "'k::linorder \<Rightarrow> 'k \<Rightarrow> ordering" where
  "ord_cmp a b = (if a < b then Less else if a = b then Equal else Greater)"

fun sorted_set_from ::
  "nat \<Rightarrow> bytes \<Rightarrow> 'a list \<Rightarrow> ('a \<Rightarrow> 'a \<Rightarrow> ordering) \<Rightarrow> (wire_error, unit) result" where
  "sorted_set_from n path (left # right # rest) compare =
     (case compare left right of
        Less \<Rightarrow> sorted_set_from (Suc n) path (right # rest) compare
      | Equal \<Rightarrow> fail (indexed path (Suc n)) Kind_DuplicateMember
      | Greater \<Rightarrow> fail (indexed path (Suc n)) Kind_UnsortedSet)"
| "sorted_set_from n path xs compare = Inr ()"

definition sorted_set ::
  "bytes \<Rightarrow> 'a list \<Rightarrow> ('a \<Rightarrow> 'a \<Rightarrow> ordering) \<Rightarrow> (wire_error, unit) result" where
  "sorted_set path items compare = sorted_set_from 0 path items compare"

definition provider_run_id_valid :: "bytes \<Rightarrow> bool" where
  "provider_run_id_valid b \<longleftrightarrow>
     b \<noteq> [] \<and> length b \<le> 128 \<and> is_ascii_alphanumeric (hd b) \<and> is_ascii_alphanumeric (last b)
     \<and> list_all (\<lambda>c. is_ascii_alphanumeric c \<or> c \<in> set ''._:/-'') b"

definition validate_repository :: "bytes \<Rightarrow> repository_identity \<Rightarrow> (wire_error, unit) result" where
  "validate_repository path repository =
     (if repository_identity_new (host repository) (owner repository) (repo_name repository) = Some repository
      then Inr () else fail path Kind_InvalidValue)"

fun owner_str :: "owner_id \<Rightarrow> bytes" where
  "owner_str (OwnerId s) = s"

fun artifact_str :: "artifact_id \<Rightarrow> bytes" where
  "artifact_str (ArtifactId s) = s"

definition validate_owner :: "bytes \<Rightarrow> owner_id \<Rightarrow> (wire_error, unit) result" where
  "validate_owner path owner' =
     (if owner_id_new (owner_str owner') = Some owner' then Inr () else fail path Kind_InvalidValue)"

definition validate_instant :: "bytes \<Rightarrow> utc_instant \<Rightarrow> (wire_error, unit) result" where
  "validate_instant path instant =
     (if instant_new (instant_str instant) = Some instant then Inr () else fail path Kind_InvalidValue)"

record tree_identity =
  tree_format :: object_format
  tree_oid :: oid

definition validate_tree :: "bytes \<Rightarrow> tree_identity \<Rightarrow> (wire_error, unit) result" where
  "validate_tree path tree =
     (if object_format (tree_oid tree) = tree_format tree then Inr () else fail path Kind_InvalidValue)"

text \<open>\<open>char::is_whitespace\<close> of the standard library: the Unicode property White_Space.\<close>

definition valid_reason :: "bytes \<Rightarrow> bool" where
  "valid_reason b =
     (case utf8_decode b of
        None \<Rightarrow> False
      | Some cs \<Rightarrow> 1 \<le> length cs \<and> length cs \<le> 1024 \<and> list_ex (\<lambda>c. \<not> scalar_is_whitespace c) cs)"

section \<open>Facts\<close>

record repository_target_intent =
  target_commit_oid :: "oid option"
  fragment_digest :: "digest option"
  target_path :: repo_path_text
  query_digest :: "digest option"
  target_target_kind :: target_kind

record reference_scope =
  scope_document :: repo_path_text
  normalized_target_intent :: repository_target_intent
  source_projection_digest :: digest
  scope_construct :: source_construct

record control_key_input =
  key_finding_kind :: eligible_finding_kind
  key_scope :: reference_scope

datatype missing_resolution =
    Missing_HeadingAnchorNotFound "bytes option" repo_path_text
  | Missing_LabelNotDeclared
  | Missing_LineFragmentOutOfRange repo_path_text
  | Missing_PathNotFound "repo_path_text option" repo_path_text "repo_path_text option option"
  | Missing_SelectionNotFound repo_path_text

datatype structural_resolution =
    Structural_Missing missing_resolution
  | Structural_TypeMismatch "repo_path_text target"

record control_fact =
  fact_resolution :: structural_resolution
  fact_multiplicity :: u64
  fact_finding_kind :: eligible_finding_kind
  fact_key_input :: control_key_input

definition resolution_kind :: "structural_resolution \<Rightarrow> eligible_finding_kind" where
  "resolution_kind r =
     (case r of
        Structural_Missing _ \<Rightarrow> Eligible_ExplicitTargetMissing
      | Structural_TypeMismatch _ \<Rightarrow> Eligible_ExplicitTargetTypeMismatch)"

definition fact_validate :: "control_fact \<Rightarrow> (wire_error, unit) result" where
  "fact_validate f =
     (if fact_finding_kind f \<noteq> key_finding_kind (fact_key_input f)
         \<or> fact_finding_kind f \<noteq> resolution_kind (fact_resolution f)
      then fail ''$'' Kind_Inconsistent
      else then_some (fact_multiplicity f = 1) (wire_error_new ''$'' Kind_Inconsistent))"

text \<open>What the writers put out for the key, plain JSON, and for the fact, canonical JSON.\<close>

record fact_writer =
  write_key :: "control_key_input \<Rightarrow> bytes option"
  write_fact :: "control_fact \<Rightarrow> bytes option"

definition FINDING_KEY_DOMAIN :: bytes where
  "FINDING_KEY_DOMAIN = ''amiss/scanner-finding-key''"

definition FACT_DOMAIN :: bytes where
  "FACT_DOMAIN = ''amiss/scanner-fact''"

definition fact_digests ::
  "sha256 \<Rightarrow> fact_writer \<Rightarrow> bytes \<Rightarrow> control_fact \<Rightarrow> (wire_error, digest \<times> digest) result" where
  "fact_digests sha w path f =
     (case fact_validate f of
        Inl e \<Rightarrow> Inl (wire_error_new path (error_kind e))
      | Inr _ \<Rightarrow>
        rbind (ok_or (wire_error_new path Kind_InvalidValue)
            (map_option (sealed_digest sha FINDING_KEY_DOMAIN) (write_key w (fact_key_input f))))
          (\<lambda>key. rbind (ok_or (wire_error_new path Kind_InvalidValue)
              (map_option (sealed_digest sha FACT_DOMAIN) (write_fact w f)))
            (\<lambda>digest. Inr (key, digest))))"

section \<open>Debt snapshots\<close>

record debt_item =
  debt_id :: artifact_id
  debt_finding_key :: digest
  accepted_fact :: control_fact
  accepted_fact_digest :: digest
  debt_owner :: owner_id
  debt_reason :: bytes
  debt_created_at :: utc_instant
  debt_expires_at :: utc_instant

record debt_snapshot =
  debt_repository :: repository_identity
  debt_ref_name :: branch_ref
  debt_floor_digest :: digest
  adoption_tree :: tree_identity
  adoption_report_payload_digest :: digest
  debt_snapshot_created_at :: utc_instant
  snapshot_items :: "debt_item list"

definition validate_debt_item ::
  "sha256 \<Rightarrow> fact_writer \<Rightarrow> bytes \<Rightarrow> debt_item \<Rightarrow> (wire_error, unit) result" where
  "validate_debt_item sha w path item =
     rbind (fact_digests sha w (path @ ''.accepted_fact'') (accepted_fact item)) (\<lambda>(key, digest).
       if debt_finding_key item \<noteq> key then fail (path @ ''.finding_key'') Kind_DigestMismatch
       else if accepted_fact_digest item \<noteq> digest
       then fail (path @ ''.accepted_fact_digest'') Kind_DigestMismatch
       else rbind (validate_owner (path @ ''.owner'') (debt_owner item)) (\<lambda>_.
         if \<not> valid_reason (debt_reason item) then fail (path @ ''.reason'') Kind_InvalidValue
         else rbind (validate_instant (path @ ''.created_at'') (debt_created_at item)) (\<lambda>_.
           rbind (validate_instant (path @ ''.expires_at'') (debt_expires_at item)) (\<lambda>_.
             then_some (debt_created_at item < debt_expires_at item)
               (wire_error_new path Kind_Inconsistent)))))"

fun debt_keys_loop ::
  "utc_instant \<Rightarrow> digest list \<Rightarrow> debt_item list \<Rightarrow> (wire_error, unit) result" where
  "debt_keys_loop created keys [] = Inr ()"
| "debt_keys_loop created keys (item # items) =
     (if debt_finding_key item \<in> set keys then fail ''$.items'' Kind_DuplicateMember
      else if created < debt_created_at item then fail ''$.items'' Kind_Inconsistent
      else debt_keys_loop created (debt_finding_key item # keys) items)"

definition debt_snapshot_validate ::
  "sha256 \<Rightarrow> fact_writer \<Rightarrow> debt_snapshot \<Rightarrow> (wire_error, unit) result" where
  "debt_snapshot_validate sha w s =
     rbind (validate_repository ''$.repository'' (debt_repository s)) (\<lambda>_.
     rbind (validate_tree ''$.adoption_tree'' (adoption_tree s)) (\<lambda>_.
     rbind (validate_instant ''$.created_at'' (debt_snapshot_created_at s)) (\<lambda>_.
       if length (snapshot_items s) > 100000 then fail ''$.items'' Kind_LimitExceeded
       else rbind (each_from 0 (\<lambda>index. validate_debt_item sha w (indexed ''$.items'' index)) (snapshot_items s)) (\<lambda>_.
         rbind (sorted_set ''$.items'' (snapshot_items s)
             (\<lambda>left right. ord_cmp (artifact_str (debt_id left)) (artifact_str (debt_id right)))) (\<lambda>_.
           debt_keys_loop (debt_snapshot_created_at s) [] (snapshot_items s))))))"

section \<open>Waiver bundles\<close>

record waiver_item =
  waiver_id :: artifact_id
  waiver_finding_key :: digest
  authorized_fact :: control_fact
  authorized_fact_digest :: digest
  candidate_tree :: tree_identity
  waiver_owner :: owner_id
  issuer :: owner_id
  waiver_reason :: bytes
  waiver_created_at :: utc_instant
  not_before :: utc_instant
  waiver_expires_at :: utc_instant

record waiver_bundle =
  waiver_repository :: repository_identity
  waiver_ref_name :: branch_ref
  waiver_floor_digest :: digest
  waiver_bundle_created_at :: utc_instant
  bundle_items :: "waiver_item list"

definition validate_waiver_item ::
  "sha256 \<Rightarrow> fact_writer \<Rightarrow> bytes \<Rightarrow> waiver_item \<Rightarrow> (wire_error, unit) result" where
  "validate_waiver_item sha w path item =
     rbind (fact_digests sha w (path @ ''.authorized_fact'') (authorized_fact item)) (\<lambda>(key, digest).
       if waiver_finding_key item \<noteq> key then fail (path @ ''.finding_key'') Kind_DigestMismatch
       else if authorized_fact_digest item \<noteq> digest
       then fail (path @ ''.authorized_fact_digest'') Kind_DigestMismatch
       else rbind (validate_tree (path @ ''.candidate_tree'') (candidate_tree item)) (\<lambda>_.
         rbind (validate_owner (path @ ''.owner'') (waiver_owner item)) (\<lambda>_.
         rbind (validate_owner (path @ ''.issuer'') (issuer item)) (\<lambda>_.
         if \<not> valid_reason (waiver_reason item) then fail (path @ ''.reason'') Kind_InvalidValue
         else rbind (validate_instant (path @ ''.created_at'') (waiver_created_at item)) (\<lambda>_.
           rbind (validate_instant (path @ ''.not_before'') (not_before item)) (\<lambda>_.
           rbind (validate_instant (path @ ''.expires_at'') (waiver_expires_at item)) (\<lambda>_.
             then_some (waiver_created_at item \<le> not_before item \<and> not_before item < waiver_expires_at item)
               (wire_error_new path Kind_Inconsistent))))))))"

definition waiver_order ::
  "waiver_item \<Rightarrow> object_format \<times> bytes \<times> digest \<times> bytes" where
  "waiver_order item = (tree_format (candidate_tree item), raw (tree_oid (candidate_tree item)),
     waiver_finding_key item, artifact_str (waiver_id item))"

fun waiver_pairs_loop :: "waiver_item list \<Rightarrow> (wire_error, unit) result" where
  "waiver_pairs_loop (left # right # rest) =
     (if candidate_tree left = candidate_tree right \<and> waiver_finding_key left = waiver_finding_key right
      then fail ''$.items'' Kind_DuplicateMember
      else waiver_pairs_loop (right # rest))"
| "waiver_pairs_loop _ = Inr ()"

fun waiver_ids_loop ::
  "utc_instant \<Rightarrow> bytes list \<Rightarrow> waiver_item list \<Rightarrow> (wire_error, unit) result" where
  "waiver_ids_loop created ids [] = Inr ()"
| "waiver_ids_loop created ids (item # items) =
     (if artifact_str (waiver_id item) \<in> set ids then fail ''$.items'' Kind_DuplicateMember
      else if created < waiver_created_at item then fail ''$.items'' Kind_Inconsistent
      else waiver_ids_loop created (artifact_str (waiver_id item) # ids) items)"

definition waiver_bundle_validate ::
  "sha256 \<Rightarrow> fact_writer \<Rightarrow> waiver_bundle \<Rightarrow> (wire_error, unit) result" where
  "waiver_bundle_validate sha w b =
     rbind (validate_repository ''$.repository'' (waiver_repository b)) (\<lambda>_.
     rbind (validate_instant ''$.created_at'' (waiver_bundle_created_at b)) (\<lambda>_.
       if length (bundle_items b) > 100000 then fail ''$.items'' Kind_LimitExceeded
       else rbind (each_from 0 (\<lambda>index. validate_waiver_item sha w (indexed ''$.items'' index)) (bundle_items b)) (\<lambda>_.
         rbind (sorted_set ''$.items'' (bundle_items b)
             (\<lambda>left right. ord_cmp (waiver_order left) (waiver_order right))) (\<lambda>_.
         rbind (waiver_pairs_loop (bundle_items b)) (\<lambda>_.
           waiver_ids_loop (waiver_bundle_created_at b) [] (bundle_items b))))))"

section \<open>What the checks accept\<close>

lemma fail_Inr [simp]: "fail p k \<noteq> Inr x" "Inr x \<noteq> fail p k"
  by (simp_all add: fail_def)

lemma then_some_Inr [simp]: "then_some c e = Inr u \<longleftrightarrow> c"
  by (simp add: then_some_def)

lemma rbind_unit_Inr: "rbind m (\<lambda>_. k) = Inr (u :: unit) \<longleftrightarrow> (\<exists>x. m = Inr x) \<and> k = Inr ()"
  by (cases m) auto

lemma each_from_Inr:
  assumes "\<And>n x. f n x = Inr () \<longleftrightarrow> P x"
  shows "each_from n f xs = Inr () \<longleftrightarrow> list_all P xs"
  by (induction xs arbitrary: n) (simp_all add: rbind_unit_Inr assms)

lemma sorted_set_from_Inr:
  "sorted_set_from n path xs (\<lambda>l r. ord_cmp (key l) (key r)) = Inr () \<longleftrightarrow> sorted_wrt (<) (map key xs)"
proof (induction xs arbitrary: n rule: induct_list012)
  case (3 l r rest)
  then show ?case
    by (auto simp: ord_cmp_def split: ordering.splits dest: less_trans)
qed simp_all

lemma sorted_set_Inr:
  "sorted_set path xs (\<lambda>l r. ord_cmp (key l) (key r)) = Inr () \<longleftrightarrow> sorted_wrt (<) (map key xs)"
  by (simp add: sorted_set_def sorted_set_from_Inr)

definition fact_names :: "sha256 \<Rightarrow> fact_writer \<Rightarrow> control_fact \<Rightarrow> digest \<Rightarrow> digest \<Rightarrow> bool" where
  "fact_names sha w f key digest \<longleftrightarrow>
     fact_finding_kind f = key_finding_kind (fact_key_input f)
     \<and> fact_finding_kind f = resolution_kind (fact_resolution f) \<and> fact_multiplicity f = 1
     \<and> map_option (sealed_digest sha FINDING_KEY_DOMAIN) (write_key w (fact_key_input f)) = Some key
     \<and> map_option (sealed_digest sha FACT_DOMAIN) (write_fact w f) = Some digest"

lemma fact_digests_Inr: "fact_digests sha w path f = Inr (key, digest) \<longleftrightarrow> fact_names sha w f key digest"
  by (auto simp: fact_digests_def fact_names_def fact_validate_def rbind_Inr_iff ok_or_Inr_iff fail_def then_some_def)

lemma fact_names_unique:
  "fact_names sha w f k d \<Longrightarrow> fact_names sha w f k' d' \<Longrightarrow> k = k' \<and> d = d'"
  by (auto simp: fact_names_def)

definition instant_ok :: "utc_instant \<Rightarrow> bool" where
  "instant_ok i \<longleftrightarrow> instant_new (instant_str i) = Some i"

definition owner_ok :: "owner_id \<Rightarrow> bool" where
  "owner_ok i \<longleftrightarrow> owner_id_new (owner_str i) = Some i"

definition repository_ok :: "repository_identity \<Rightarrow> bool" where
  "repository_ok r \<longleftrightarrow> valid_components (host r) (owner r) (repo_name r)"

definition tree_ok :: "tree_identity \<Rightarrow> bool" where
  "tree_ok t \<longleftrightarrow> object_format (tree_oid t) = tree_format t"

lemma validate_Inr [simp]:
  "validate_instant p i = Inr u \<longleftrightarrow> instant_ok i"
  "validate_owner p o' = Inr u \<longleftrightarrow> owner_ok o'"
  "validate_tree p t = Inr u \<longleftrightarrow> tree_ok t"
  "validate_repository p r = Inr u \<longleftrightarrow> repository_ok r"
  by (auto simp: validate_instant_def validate_owner_def validate_tree_def validate_repository_def
      instant_ok_def owner_ok_def tree_ok_def repository_ok_def repository_identity_new_def)

definition debt_item_ok :: "sha256 \<Rightarrow> fact_writer \<Rightarrow> debt_item \<Rightarrow> bool" where
  "debt_item_ok sha w item \<longleftrightarrow>
     fact_names sha w (accepted_fact item) (debt_finding_key item) (accepted_fact_digest item)
     \<and> owner_ok (debt_owner item) \<and> valid_reason (debt_reason item)
     \<and> instant_ok (debt_created_at item) \<and> instant_ok (debt_expires_at item)
     \<and> debt_created_at item < debt_expires_at item"

lemma validate_debt_item_Inr: "validate_debt_item sha w path item = Inr () \<longleftrightarrow> debt_item_ok sha w item"
proof -
  have "validate_debt_item sha w path item = Inr () \<longleftrightarrow>
      (\<exists>k d. fact_names sha w (accepted_fact item) k d \<and> debt_finding_key item = k \<and> accepted_fact_digest item = d
        \<and> owner_ok (debt_owner item) \<and> valid_reason (debt_reason item)
        \<and> instant_ok (debt_created_at item) \<and> instant_ok (debt_expires_at item)
        \<and> debt_created_at item < debt_expires_at item)"
    unfolding validate_debt_item_def rbind_Inr_iff [of "fact_digests _ _ _ _"] split_paired_Ex
    by (auto simp: fact_digests_Inr rbind_unit_Inr split: if_splits)
  then show ?thesis by (auto simp: debt_item_ok_def)
qed

lemma debt_keys_loop_Inr:
  "debt_keys_loop created keys items = Inr () \<longleftrightarrow>
     distinct (map debt_finding_key items) \<and> set keys \<inter> debt_finding_key ` set items = {}
     \<and> list_all (\<lambda>item. debt_created_at item \<le> created) items"
  by (induction items arbitrary: keys) (auto simp: not_less)

text \<open>
  C11. A debt snapshot is accepted exactly when its repository, tree and instants are well
  formed, it holds at most 100,000 items, every item names the key and the fact digest of
  its own accepted fact and lives a nonempty time, the identities are strictly sorted, no
  finding key is repeated, and no item is younger than the snapshot.
\<close>

theorem debt_snapshot_validate_iff:
  "debt_snapshot_validate sha w s = Inr () \<longleftrightarrow>
     repository_ok (debt_repository s) \<and> tree_ok (adoption_tree s)
     \<and> instant_ok (debt_snapshot_created_at s) \<and> length (snapshot_items s) \<le> 100000
     \<and> list_all (debt_item_ok sha w) (snapshot_items s)
     \<and> sorted_wrt (<) (map (artifact_str \<circ> debt_id) (snapshot_items s))
     \<and> distinct (map debt_finding_key (snapshot_items s))
     \<and> list_all (\<lambda>item. debt_created_at item \<le> debt_snapshot_created_at s) (snapshot_items s)"
proof -
  have items: "each_from 0 (\<lambda>index. validate_debt_item sha w (indexed ''$.items'' index)) xs = Inr ()
      \<longleftrightarrow> list_all (debt_item_ok sha w) xs" for xs
    by (rule each_from_Inr) (rule validate_debt_item_Inr)
  show ?thesis
    by (simp add: debt_snapshot_validate_def rbind_unit_Inr items debt_keys_loop_Inr
        sorted_set_Inr [where key = "\<lambda>i. artifact_str (debt_id i)"] comp_def not_le)
qed

definition waiver_item_ok :: "sha256 \<Rightarrow> fact_writer \<Rightarrow> waiver_item \<Rightarrow> bool" where
  "waiver_item_ok sha w item \<longleftrightarrow>
     fact_names sha w (authorized_fact item) (waiver_finding_key item) (authorized_fact_digest item)
     \<and> tree_ok (candidate_tree item) \<and> owner_ok (waiver_owner item) \<and> owner_ok (issuer item)
     \<and> valid_reason (waiver_reason item) \<and> instant_ok (waiver_created_at item)
     \<and> instant_ok (not_before item) \<and> instant_ok (waiver_expires_at item)
     \<and> waiver_created_at item \<le> not_before item \<and> not_before item < waiver_expires_at item"

lemma validate_waiver_item_Inr: "validate_waiver_item sha w path item = Inr () \<longleftrightarrow> waiver_item_ok sha w item"
proof -
  have "validate_waiver_item sha w path item = Inr () \<longleftrightarrow>
      (\<exists>k d. fact_names sha w (authorized_fact item) k d \<and> waiver_finding_key item = k
        \<and> authorized_fact_digest item = d \<and> tree_ok (candidate_tree item)
        \<and> owner_ok (waiver_owner item) \<and> owner_ok (issuer item) \<and> valid_reason (waiver_reason item)
        \<and> instant_ok (waiver_created_at item) \<and> instant_ok (not_before item) \<and> instant_ok (waiver_expires_at item)
        \<and> waiver_created_at item \<le> not_before item \<and> not_before item < waiver_expires_at item)"
    unfolding validate_waiver_item_def rbind_Inr_iff [of "fact_digests _ _ _ _"] split_paired_Ex
    by (auto simp: fact_digests_Inr rbind_unit_Inr split: if_splits)
  then show ?thesis by (auto simp: waiver_item_ok_def)
qed

lemma waiver_ids_loop_Inr:
  "waiver_ids_loop created ids items = Inr () \<longleftrightarrow>
     distinct (map (artifact_str \<circ> waiver_id) items) \<and> set ids \<inter> (artifact_str \<circ> waiver_id) ` set items = {}
     \<and> list_all (\<lambda>item. waiver_created_at item \<le> created) items"
  by (induction items arbitrary: ids) (auto simp: not_less)

definition waiver_target :: "waiver_item \<Rightarrow> object_format \<times> bytes \<times> digest" where
  "waiver_target item = (tree_format (candidate_tree item), raw (tree_oid (candidate_tree item)), waiver_finding_key item)"

lemma waiver_target_eq_iff:
  assumes "tree_ok (candidate_tree a)" and "tree_ok (candidate_tree b)"
  shows "waiver_target a = waiver_target b \<longleftrightarrow>
     candidate_tree a = candidate_tree b \<and> waiver_finding_key a = waiver_finding_key b"
  using assms
  by (cases "candidate_tree a"; cases "candidate_tree b"; cases "tree_oid (candidate_tree a)";
      cases "tree_oid (candidate_tree b)") (auto simp: waiver_target_def tree_ok_def)

lemma waiver_order_target: "waiver_order a < waiver_order b \<Longrightarrow> waiver_target a \<le> waiver_target b"
  by (auto simp: waiver_order_def waiver_target_def less_prod_def less_eq_prod_def)

lemma waiver_pairs_loop_Inr:
  assumes "sorted_wrt (<) (map waiver_order items)" and "list_all (\<lambda>i. tree_ok (candidate_tree i)) items"
  shows "waiver_pairs_loop items = Inr () \<longleftrightarrow> distinct (map waiver_target items)"
  using assms
proof (induction items rule: waiver_pairs_loop.induct)
  case (1 l r rest)
  have eq: "waiver_target l = waiver_target r \<longleftrightarrow>
      candidate_tree l = candidate_tree r \<and> waiver_finding_key l = waiver_finding_key r"
    using 1(3) by (intro waiver_target_eq_iff) simp_all
  show ?case
  proof (cases "waiver_target l = waiver_target r")
    case True
    with eq show ?thesis by simp
  next
    case False
    have IH: "waiver_pairs_loop (r # rest) = Inr () \<longleftrightarrow> distinct (map waiver_target (r # rest))"
      using False eq 1 by auto
    have "waiver_target l < waiver_target r"
      using False waiver_order_target [of l r] 1(2) by (simp add: order.strict_iff_order)
    moreover have "waiver_target r \<le> waiver_target i" if "i \<in> set rest" for i
      using waiver_order_target [of r i] 1(2) that by simp
    ultimately have "waiver_target l \<notin> waiver_target ` set rest" by force
    with False eq IH show ?thesis by auto
  qed
qed simp_all

text \<open>
  C10. A waiver bundle is accepted exactly when its repository and instants are well formed,
  it holds at most 100,000 items, every item names the key and the fact digest of its own
  authorized fact and is active for a nonempty time that does not start before it was
  created, the items are strictly sorted, no two items waive one finding of one tree, no
  identity is repeated, and no item is younger than the bundle. The source compares only
  neighbours, which the order makes enough.
\<close>

theorem waiver_bundle_validate_iff:
  "waiver_bundle_validate sha w b = Inr () \<longleftrightarrow>
     repository_ok (waiver_repository b) \<and> instant_ok (waiver_bundle_created_at b)
     \<and> length (bundle_items b) \<le> 100000
     \<and> list_all (waiver_item_ok sha w) (bundle_items b)
     \<and> sorted_wrt (<) (map waiver_order (bundle_items b))
     \<and> distinct (map (\<lambda>i. (candidate_tree i, waiver_finding_key i)) (bundle_items b))
     \<and> distinct (map (artifact_str \<circ> waiver_id) (bundle_items b))
     \<and> list_all (\<lambda>item. waiver_created_at item \<le> waiver_bundle_created_at b) (bundle_items b)"
proof -
  let ?xs = "bundle_items b"
  have items: "each_from 0 (\<lambda>index. validate_waiver_item sha w (indexed ''$.items'' index)) xs = Inr ()
      \<longleftrightarrow> list_all (waiver_item_ok sha w) xs" for xs
    by (rule each_from_Inr) (rule validate_waiver_item_Inr)
  have pairs: "waiver_pairs_loop ?xs = Inr () \<longleftrightarrow> distinct (map (\<lambda>i. (candidate_tree i, waiver_finding_key i)) ?xs)"
    if "sorted_wrt (<) (map waiver_order ?xs)" "list_all (waiver_item_ok sha w) ?xs"
  proof -
    have trees: "tree_ok (candidate_tree i)" if "i \<in> set ?xs" for i
      using that \<open>list_all _ _\<close> by (auto simp: list_all_iff waiver_item_ok_def)
    have "distinct (map waiver_target ?xs) \<longleftrightarrow> distinct (map (\<lambda>i. (candidate_tree i, waiver_finding_key i)) ?xs)"
      unfolding distinct_map inj_on_def using waiver_target_eq_iff [OF trees trees] by auto
    with waiver_pairs_loop_Inr [OF that(1)] trees show ?thesis by (simp add: list_all_iff)
  qed
  have "waiver_bundle_validate sha w b = Inr () \<longleftrightarrow>
     repository_ok (waiver_repository b) \<and> instant_ok (waiver_bundle_created_at b) \<and> length ?xs \<le> 100000
     \<and> list_all (waiver_item_ok sha w) ?xs \<and> sorted_wrt (<) (map waiver_order ?xs)
     \<and> waiver_pairs_loop ?xs = Inr () \<and> distinct (map (artifact_str \<circ> waiver_id) ?xs)
     \<and> list_all (\<lambda>item. waiver_created_at item \<le> waiver_bundle_created_at b) ?xs"
    by (simp add: waiver_bundle_validate_def rbind_unit_Inr items waiver_ids_loop_Inr
        sorted_set_Inr [where key = waiver_order] not_le)
  then show ?thesis using pairs by blast
qed

end
