(* ===== verification/Wire_Policy.thy ===== *)
theory Wire_Policy
  imports Wire_Controls
begin

text \<open>
  The policy controls and their checks: the repository policy, \<open>controls/policy.rs\<close>, the
  organization floor, \<open>controls/floor.rs\<close>, the trusted-time statement,
  \<open>controls/trusted_time.rs\<close>, and the execution constraint,
  \<open>controls/execution_constraint.rs\<close>. Enumerations with one value, the schema tags, carry no
  information and are left out of the records. The largest integer a JSON number carries
  exactly, the constant of \<open>js_int\<close>, is \<open>2 ^ 53 - 1\<close>.
\<close>

section \<open>Repository policy\<close>

datatype include_kind = Include_Document | Include_Tree

definition include_kind_index :: "include_kind \<Rightarrow> nat" where
  "include_kind_index k = (case k of Include_Document \<Rightarrow> 0 | Include_Tree \<Rightarrow> 1)"

datatype projection_kind = CodeTextV1 | SortedRowsV1 | DecimalCountV1 | ContainsV1

datatype key_format = Format_Toml | Format_Json

record document_include =
  include_path :: repo_path_text
  include_kind :: include_kind
  include_suffix :: "bytes option"
  include_adapter :: "adapter option"

record finding_disposition =
  disposition_kind :: promotable_finding_kind
  disposition_value :: policy_disposition

datatype projection_source =
    Source_BlobLines repo_path_text u64 u64
  | Source_NamedRegion repo_path_text bytes bytes
  | Source_TreePaths repo_path_text "bytes option" u64
  | Source_RecordValue artifact_id bytes
  | Source_RecordSet artifact_id
  | Source_Blob repo_path_text
  | Source_KeyValue repo_path_text key_format "bytes list"

record projection_assertion =
  assertion_document :: repo_path_text
  assertion_name :: bytes
  assertion_projection :: projection_kind
  assertion_source :: projection_source

record scanner_policy =
  document_includes :: "document_include list"
  projection_assertions :: "projection_assertion list option"
  protected_inventory :: "repo_path_text list"
  finding_dispositions :: "finding_disposition list"
  default_branch_aliases :: "branch_ref list option"
  anchor_renderers :: "bytes list option"
  translation_pairs :: "(repo_path_text \<times> repo_path_text) list option"

definition MAX_SAFE_INT :: nat where
  "MAX_SAFE_INT = 2 ^ 53 - 1"

definition exact_suffix_valid :: "bytes \<Rightarrow> bool" where
  "exact_suffix_valid s =
     (case s of
        [] \<Rightarrow> False
      | c # tail \<Rightarrow> c = CHR ''.'' \<and> tail \<noteq> [] \<and> length s \<le> 64
          \<and> \<not> list_ex (\<lambda>b. b = CHR ''/'' \<or> b = CHR 0x5C \<or> b = CHR 0x00) tail)"

definition validate_document_include :: "bytes \<Rightarrow> document_include \<Rightarrow> (wire_error, unit) result" where
  "validate_document_include path inc =
     (if include_suffix inc \<noteq> None \<and> include_kind inc \<noteq> Include_Tree
      then fail (path @ ''.suffix'') Kind_Inconsistent
      else if (case include_suffix inc of None \<Rightarrow> False | Some s \<Rightarrow> \<not> exact_suffix_valid s)
      then fail (path @ ''.suffix'') Kind_InvalidValue
      else Inr ())"

definition safe_line_valid :: "u64 \<Rightarrow> bool" where
  "safe_line_valid line \<longleftrightarrow> 1 \<le> unat line \<and> unat line \<le> MAX_SAFE_INT"

definition is_ascii_graphic :: "byte \<Rightarrow> bool" where
  "is_ascii_graphic b \<longleftrightarrow> 33 \<le> byte_nat b \<and> byte_nat b \<le> 126"

definition source_marker_valid :: "bytes \<Rightarrow> bool" where
  "source_marker_valid b \<longleftrightarrow> b \<noteq> [] \<and> length b \<le> 256 \<and> list_ex is_ascii_graphic b
     \<and> list_all (\<lambda>c. is_ascii_graphic c \<or> c = CHR '' '') b"

definition record_key_valid :: "bytes \<Rightarrow> bool" where
  "record_key_valid key \<longleftrightarrow> key \<noteq> [] \<and> length key \<le> 4096 \<and> \<not> any_control key"

definition projection_source_compatible :: "projection_kind \<Rightarrow> projection_source \<Rightarrow> bool" where
  "projection_source_compatible projection' source =
     (case source of
        Source_TreePaths _ _ _ \<Rightarrow> projection' \<in> {SortedRowsV1, DecimalCountV1}
      | Source_RecordSet _ \<Rightarrow> projection' \<in> {SortedRowsV1, DecimalCountV1}
      | _ \<Rightarrow> projection' \<in> {CodeTextV1, ContainsV1})"

definition validate_projection_source ::
  "bytes \<Rightarrow> projection_kind \<Rightarrow> projection_source \<Rightarrow> (wire_error, unit) result" where
  "validate_projection_source path projection' source =
     rbind
       (case source of
          Source_BlobLines _ first last' \<Rightarrow>
            if \<not> safe_line_valid first \<or> \<not> safe_line_valid last' then fail path Kind_InvalidValue
            else if last' < first then fail path Kind_Inconsistent else Inr ()
        | Source_NamedRegion _ start end' \<Rightarrow>
            if \<not> source_marker_valid start \<or> \<not> source_marker_valid end' then fail path Kind_InvalidValue
            else if start = end' then fail path Kind_Inconsistent else Inr ()
        | Source_TreePaths _ suffix' depth \<Rightarrow>
            if \<not> safe_line_valid depth
               \<or> \<not> (case suffix' of None \<Rightarrow> True | Some s \<Rightarrow> exact_suffix_valid s)
            then fail path Kind_InvalidValue else Inr ()
        | Source_RecordValue _ key \<Rightarrow>
            if \<not> record_key_valid key then fail path Kind_InvalidValue else Inr ()
        | Source_KeyValue _ _ key \<Rightarrow>
            if key = [] \<or> length key > 16
               \<or> \<not> list_all (\<lambda>s. s \<noteq> [] \<and> length s \<le> 256 \<and> \<not> any_control s) key
            then fail path Kind_InvalidValue else Inr ()
        | Source_RecordSet _ \<Rightarrow> Inr ()
        | Source_Blob _ \<Rightarrow> Inr ())
       (\<lambda>_. then_some (projection_source_compatible projection' source)
              (wire_error_new path Kind_Inconsistent))"

definition check_projection_source ::
  "projection_kind \<Rightarrow> projection_source \<Rightarrow> (wire_error, unit) result" where
  "check_projection_source projection' source = validate_projection_source ''$'' projection' source"

text \<open>\<open>governed_name_valid\<close> of \<open>crates/amiss-wire/src/extraction.rs\<close>.\<close>

definition governed_name_valid :: "bytes \<Rightarrow> bool" where
  "governed_name_valid b \<longleftrightarrow> b \<noteq> [] \<and> is_ascii_alphanumeric (hd b) \<and> length b \<le> 120
     \<and> list_all (\<lambda>c. is_ascii_alphanumeric c \<or> c \<in> set ''._-'') b"

definition validate_projection_assertion ::
  "bytes \<Rightarrow> projection_assertion \<Rightarrow> (wire_error, unit) result" where
  "validate_projection_assertion path a =
     (if \<not> governed_name_valid (assertion_name a) then fail (path @ ''.name'') Kind_InvalidValue
      else validate_projection_source (path @ ''.source'') (assertion_projection a) (assertion_source a))"

definition renderer_spelled :: "bytes \<Rightarrow> bool" where
  "renderer_spelled name' \<longleftrightarrow> length name' \<le> 64
     \<and> (case name' of [] \<Rightarrow> False | c # _ \<Rightarrow> is_ascii_lowercase c)
     \<and> list_all (\<lambda>b. is_ascii_lowercase b \<or> is_ascii_digit b \<or> b = CHR ''-'') name'"

definition or_empty :: "'a list option \<Rightarrow> 'a list" where
  "or_empty x = (case x of None \<Rightarrow> [] | Some xs \<Rightarrow> xs)"

fun position_of :: "nat \<Rightarrow> ('a \<Rightarrow> bool) \<Rightarrow> 'a list \<Rightarrow> nat option" where
  "position_of n P [] = None"
| "position_of n P (x # xs) = (if P x then Some n else position_of (Suc n) P xs)"

definition validate_renderers :: "bytes list \<Rightarrow> (wire_error, unit) result" where
  "validate_renderers renderers =
     (if renderers = [] \<or> length renderers > 16 then fail ''$.anchor_renderers'' Kind_LimitExceeded
      else rbind (each_from 0 (\<lambda>index name'.
             if \<not> renderer_spelled name' then fail (indexed ''$.anchor_renderers'' index) Kind_InvalidValue
             else Inr ()) renderers)
        (\<lambda>_. sorted_set ''$.anchor_renderers'' renderers ord_cmp))"

definition validate_translations :: "(repo_path_text \<times> repo_path_text) list \<Rightarrow> (wire_error, unit) result" where
  "validate_translations pairs =
     (if length pairs > 64 then fail ''$.translations'' Kind_LimitExceeded
      else case position_of 0 (\<lambda>(source, target). source = target) pairs of
        Some index \<Rightarrow> fail (indexed ''$.translations'' index) Kind_Inconsistent
      | None \<Rightarrow> sorted_set ''$.translations'' pairs
          (\<lambda>l r. ord_cmp (as_text (fst l), as_text (snd l)) (as_text (fst r), as_text (snd r))))"

definition include_order :: "document_include \<Rightarrow> bytes \<times> nat" where
  "include_order inc = (as_text (include_path inc), include_kind_index (include_kind inc))"

definition assertion_order :: "projection_assertion \<Rightarrow> bytes \<times> bytes" where
  "assertion_order a = (as_text (assertion_document a), assertion_name a)"

definition scanner_policy_validate :: "scanner_policy \<Rightarrow> (wire_error, unit) result" where
  "scanner_policy_validate p =
     (if length (document_includes p) > 100000 then fail ''$.document_includes'' Kind_LimitExceeded
      else rbind (each_from 0 (\<lambda>index. validate_document_include (indexed ''$.document_includes'' index))
          (document_includes p)) (\<lambda>_.
        rbind (sorted_set ''$.document_includes'' (document_includes p)
            (\<lambda>l r. ord_cmp (include_order l) (include_order r))) (\<lambda>_.
        let assertions = or_empty (projection_assertions p) in
        if length assertions > 100000 then fail ''$.projection_assertions'' Kind_LimitExceeded
        else rbind (each_from 0 (\<lambda>index. validate_projection_assertion
            (indexed ''$.projection_assertions'' index)) assertions) (\<lambda>_.
          rbind (sorted_set ''$.projection_assertions'' assertions
              (\<lambda>l r. ord_cmp (assertion_order l) (assertion_order r))) (\<lambda>_.
          if length (protected_inventory p) > 100000 then fail ''$.protected_inventory'' Kind_LimitExceeded
          else rbind (sorted_set ''$.protected_inventory'' (protected_inventory p)
              (\<lambda>l r. ord_cmp (as_text l) (as_text r))) (\<lambda>_.
            if length (finding_dispositions p) > 3 then fail ''$.finding_dispositions'' Kind_LimitExceeded
            else rbind (sorted_set ''$.finding_dispositions'' (finding_dispositions p)
                (\<lambda>l r. ord_cmp (promotable_str (disposition_kind l)) (promotable_str (disposition_kind r)))) (\<lambda>_.
              let aliases = or_empty (default_branch_aliases p) in
              if length aliases > 16 then fail ''$.default_branch_aliases'' Kind_LimitExceeded
              else rbind (sorted_set ''$.default_branch_aliases'' aliases
                  (\<lambda>l r. ord_cmp (branch_ref_str l) (branch_ref_str r))) (\<lambda>_.
                rbind (validate_translations (or_empty (translation_pairs p))) (\<lambda>_.
                  case anchor_renderers p of
                    None \<Rightarrow> Inr ()
                  | Some renderers \<Rightarrow> validate_renderers renderers)))))))))"

section \<open>Organization floors\<close>

record resource_limit =
  limit_resource :: resource_name
  limit_maximum :: int

record organization_floor =
  floor_id :: artifact_id
  floor_repository :: repository_identity
  floor_ref_name :: branch_ref
  minimum_profile :: profile
  minimum_dispositions :: "finding_disposition list"
  floor_inventory_paths :: "repo_path_text list"
  protected_control_paths :: "repo_path_text list"
  waivable_finding_kinds :: "eligible_finding_kind list"
  authorized_debt_owners :: "owner_id list"
  authorized_waiver_issuers :: "owner_id list"
  resource_limits :: "resource_limit list"

datatype floor_defect = Defect_Schema wire_error | Defect_Entries u64 u64

definition ORGANIZATION_POLICY_ENTRIES_LIMIT :: u64 where
  "ORGANIZATION_POLICY_ENTRIES_LIMIT = 100000"

definition MACHINE_JSON_BYTES :: u64 where
  "MACHINE_JSON_BYTES = 268435456"

definition resource_maximum_valid :: "resource_name \<Rightarrow> int \<Rightarrow> bool" where
  "resource_maximum_valid resource maximum =
     (if resource = Resource_TypedAnalysisErrorsRetained then 1 \<le> maximum \<and> maximum \<le> 64
      else if resource = Resource_MachineJsonBytes then maximum = uint MACHINE_JSON_BYTES
      else 0 \<le> maximum \<and> maximum \<le> int MAX_SAFE_INT)"

definition validate_paths :: "bytes \<Rightarrow> repo_path_text list \<Rightarrow> (wire_error, unit) result" where
  "validate_paths path items =
     (if length items > 100000 then fail path Kind_LimitExceeded
      else sorted_set path items (\<lambda>l r. ord_cmp (as_text l) (as_text r)))"

definition validate_owners :: "bytes \<Rightarrow> owner_id list \<Rightarrow> (wire_error, unit) result" where
  "validate_owners path owners =
     (if length owners > 10000 then fail path Kind_LimitExceeded
      else rbind (each_from 0 (\<lambda>index. validate_owner (indexed path index)) owners)
        (\<lambda>_. sorted_set path owners (\<lambda>l r. ord_cmp (owner_str l) (owner_str r))))"

definition validate_floor_shape :: "organization_floor \<Rightarrow> (wire_error, unit) result" where
  "validate_floor_shape f =
     (if length (minimum_dispositions f) > 3 then fail ''$.minimum_dispositions'' Kind_LimitExceeded
      else rbind (sorted_set ''$.minimum_dispositions'' (minimum_dispositions f)
          (\<lambda>l r. ord_cmp (promotable_str (disposition_kind l)) (promotable_str (disposition_kind r)))) (\<lambda>_.
        rbind (validate_paths ''$.protected_inventory'' (floor_inventory_paths f)) (\<lambda>_.
        rbind (validate_paths ''$.protected_control_paths'' (protected_control_paths f)) (\<lambda>_.
        if length (waivable_finding_kinds f) > 2 then fail ''$.waivable_finding_kinds'' Kind_LimitExceeded
        else rbind (sorted_set ''$.waivable_finding_kinds'' (waivable_finding_kinds f)
            (\<lambda>l r. ord_cmp (eligible_str l) (eligible_str r))) (\<lambda>_.
          rbind (validate_owners ''$.authorized_debt_owners'' (authorized_debt_owners f)) (\<lambda>_.
          rbind (validate_owners ''$.authorized_waiver_issuers'' (authorized_waiver_issuers f)) (\<lambda>_.
          if length (resource_limits f) > length resource_name_list
          then fail ''$.resource_limits'' Kind_LimitExceeded
          else rbind (each_from 0 (\<lambda>index row.
                 if \<not> resource_maximum_valid (limit_resource row) (limit_maximum row)
                 then fail (indexed ''$.resource_limits'' index @ ''.maximum'') Kind_InvalidValue
                 else Inr ()) (resource_limits f)) (\<lambda>_.
            sorted_set ''$.resource_limits'' (resource_limits f)
              (\<lambda>l r. ord_cmp (resource_name_str (limit_resource l)) (resource_name_str (limit_resource r)))))))))))"

definition floor_entries :: "organization_floor \<Rightarrow> u64" where
  "floor_entries f =
     fold (\<lambda>n total'. saturating_add total' (u64_of_usize n))
       [length (minimum_dispositions f), length (floor_inventory_paths f),
        length (protected_control_paths f), length (waivable_finding_kinds f),
        length (authorized_debt_owners f), length (authorized_waiver_issuers f),
        length (resource_limits f)] 0"

definition u64_of_i64 :: "int \<Rightarrow> u64" where
  "u64_of_i64 i = (if 0 \<le> i then word_of_int i else - 1)"

definition schema_defect :: "(wire_error, 'a) result \<Rightarrow> (floor_defect, 'a) result" where
  "schema_defect r = (case r of Inl e \<Rightarrow> Inl (Defect_Schema e) | Inr a \<Rightarrow> Inr a)"

definition organization_floor_validate :: "organization_floor \<Rightarrow> (floor_defect, unit) result" where
  "organization_floor_validate f =
     rbind (schema_defect (validate_repository ''$.repository'' (floor_repository f))) (\<lambda>_.
       let combined = floor_entries f in
       if ORGANIZATION_POLICY_ENTRIES_LIMIT < combined
       then Inl (Defect_Entries ORGANIZATION_POLICY_ENTRIES_LIMIT
              (saturating_add ORGANIZATION_POLICY_ENTRIES_LIMIT 1))
       else rbind (schema_defect (validate_floor_shape f)) (\<lambda>_.
         case find (\<lambda>row. limit_resource row = Resource_OrganizationPolicyEntries) (resource_limits f) of
           None \<Rightarrow> Inr ()
         | Some row \<Rightarrow>
             let declared = u64_of_i64 (limit_maximum row) in
             if declared < combined then Inl (Defect_Entries declared (saturating_add declared 1))
             else Inr ()))"

section \<open>Trusted time\<close>

record trusted_time_statement =
  candidate_identity_digest :: digest
  evaluation_instant :: utc_instant
  time_provider :: bytes
  provider_run_attempt :: u64
  provider_run_id :: bytes
  time_ref_name :: branch_ref
  time_repository :: repository_identity
  valid_until :: utc_instant

definition STATEMENT_TTL_MAX_SECONDS :: int where
  "STATEMENT_TTL_MAX_SECONDS = 600"

text \<open>
  The difference of two instants of the calendar is far from the bounds of \<open>i64\<close>, where the
  saturating subtraction of the source is subtraction.
\<close>

definition trusted_time_validate :: "trusted_time_statement \<Rightarrow> (wire_error, unit) result" where
  "trusted_time_validate t =
     rbind (validate_repository ''$.repository'' (time_repository t)) (\<lambda>_.
     rbind (then_some (case artifact_id_try_from (time_provider t) of Inl _ \<Rightarrow> False | Inr _ \<Rightarrow> True)
         (wire_error_new ''$.provider'' Kind_InvalidValue)) (\<lambda>_.
     rbind (then_some (provider_run_id_valid (provider_run_id t))
         (wire_error_new ''$.provider_run_id'' Kind_InvalidValue)) (\<lambda>_.
     rbind (then_some (1 \<le> unat (provider_run_attempt t) \<and> unat (provider_run_attempt t) \<le> MAX_SAFE_INT)
         (wire_error_new ''$.provider_run_attempt'' Kind_InvalidValue)) (\<lambda>_.
     rbind (validate_instant ''$.evaluation_instant'' (evaluation_instant t)) (\<lambda>_.
     rbind (validate_instant ''$.valid_until'' (valid_until t)) (\<lambda>_.
       let lifetime = epoch_seconds (valid_until t) - epoch_seconds (evaluation_instant t)
       in then_some (1 \<le> lifetime \<and> lifetime \<le> STATEMENT_TTL_MAX_SECONDS)
            (wire_error_new ''$.valid_until'' Kind_InvalidValue)))))))"

section \<open>Execution constraints\<close>

datatype constraint_platform =
    LinuxX8664 | LinuxAarch64 | MacosX8664 | MacosAarch64 | WindowsX8664 | WindowsAarch64

fun platform_artifact_name :: "constraint_platform \<Rightarrow> artifact_id" where
  "platform_artifact_name LinuxX8664 = ArtifactId ''amiss-linux-x86_64''"
| "platform_artifact_name LinuxAarch64 = ArtifactId ''amiss-linux-aarch64''"
| "platform_artifact_name MacosX8664 = ArtifactId ''amiss-macos-x86_64''"
| "platform_artifact_name MacosAarch64 = ArtifactId ''amiss-macos-aarch64''"
| "platform_artifact_name WindowsX8664 = ArtifactId ''amiss-windows-x86_64''"
| "platform_artifact_name WindowsAarch64 = ArtifactId ''amiss-windows-aarch64''"

definition status_name_byte :: "byte \<Rightarrow> bool" where
  "status_name_byte b \<longleftrightarrow> is_ascii_alphanumeric b \<or> b \<in> set '' ._/:-''"

fun status_name_scan :: "bytes \<Rightarrow> bool" where
  "status_name_scan [] = True"
| "status_name_scan (b # rest) = (if \<not> status_name_byte b then False else status_name_scan rest)"

definition valid_required_status_name :: "bytes \<Rightarrow> bool" where
  "valid_required_status_name b =
     (case b of
        [] \<Rightarrow> False
      | first # _ \<Rightarrow>
          if length b > 160 \<or> \<not> is_ascii_alphanumeric first \<or> last b = CHR '' '' then False
          else status_name_scan b)"

datatype required_status_name = RequiredStatusName bytes

definition required_status_name_try_from :: "bytes \<Rightarrow> (string, required_status_name) result" where
  "required_status_name_try_from b =
     (if valid_required_status_name b then Inr (RequiredStatusName b)
      else Inl ''invalid required status name'')"

record execution_constraint_descriptor =
  action_commit_oid :: oid
  action_object_format :: object_format
  action_repository :: repository_identity
  action_tree_oid :: oid
  bootstrap_digest :: digest
  manifest_path :: repo_path_text
  release_manifest_digest :: digest
  required_status_name :: required_status_name
  selected_platform :: constraint_platform

definition execution_constraint_validate ::
  "execution_constraint_descriptor \<Rightarrow> (wire_error, unit) result" where
  "execution_constraint_validate d =
     rbind (validate_repository ''$.action_repository'' (action_repository d)) (\<lambda>_.
     rbind (if object_format (action_commit_oid d) \<noteq> action_object_format d
            then fail ''$.action_commit_oid'' Kind_InvalidValue else Inr ()) (\<lambda>_.
       if object_format (action_tree_oid d) \<noteq> action_object_format d
       then fail ''$.action_tree_oid'' Kind_InvalidValue else Inr ()))"

section \<open>What the checks accept\<close>

lemma position_of_None: "position_of n P xs = None \<longleftrightarrow> list_all (\<lambda>x. \<not> P x) xs"
  by (induction xs arbitrary: n) auto

definition include_ok :: "document_include \<Rightarrow> bool" where
  "include_ok inc =
     (case include_suffix inc of
        None \<Rightarrow> True
      | Some s \<Rightarrow> include_kind inc = Include_Tree \<and> exact_suffix_valid s)"

definition source_ok :: "projection_source \<Rightarrow> bool" where
  "source_ok source =
     (case source of
        Source_BlobLines _ first last' \<Rightarrow> safe_line_valid first \<and> safe_line_valid last' \<and> first \<le> last'
      | Source_NamedRegion _ start end' \<Rightarrow>
          source_marker_valid start \<and> source_marker_valid end' \<and> start \<noteq> end'
      | Source_TreePaths _ suffix' depth \<Rightarrow>
          safe_line_valid depth \<and> (case suffix' of None \<Rightarrow> True | Some s \<Rightarrow> exact_suffix_valid s)
      | Source_RecordValue _ key \<Rightarrow> record_key_valid key
      | Source_KeyValue _ _ key \<Rightarrow> key \<noteq> [] \<and> length key \<le> 16
          \<and> list_all (\<lambda>s. s \<noteq> [] \<and> length s \<le> 256 \<and> \<not> any_control s) key
      | _ \<Rightarrow> True)"

definition assertion_ok :: "projection_assertion \<Rightarrow> bool" where
  "assertion_ok a \<longleftrightarrow> governed_name_valid (assertion_name a) \<and> source_ok (assertion_source a)
     \<and> projection_source_compatible (assertion_projection a) (assertion_source a)"

lemma validate_document_include_Inr: "validate_document_include path inc = Inr () \<longleftrightarrow> include_ok inc"
  by (auto simp: validate_document_include_def include_ok_def split: option.splits)

lemma validate_projection_source_Inr:
  "validate_projection_source path k source = Inr () \<longleftrightarrow> source_ok source \<and> projection_source_compatible k source"
  by (cases source) (auto simp: validate_projection_source_def source_ok_def rbind_unit_Inr)

lemma validate_projection_assertion_Inr: "validate_projection_assertion path a = Inr () \<longleftrightarrow> assertion_ok a"
  by (simp add: validate_projection_assertion_def assertion_ok_def validate_projection_source_Inr)

lemma validate_renderers_Inr:
  "validate_renderers rs = Inr () \<longleftrightarrow>
     rs \<noteq> [] \<and> length rs \<le> 16 \<and> list_all renderer_spelled rs \<and> sorted_wrt (<) rs"
proof -
  have spelled: "each_from 0 (\<lambda>index name'.
      if \<not> renderer_spelled name' then fail (indexed ''$.anchor_renderers'' index) Kind_InvalidValue
      else Inr ()) rs = Inr () \<longleftrightarrow> list_all renderer_spelled rs"
    by (rule each_from_Inr) simp
  have sorted: "sorted_set ''$.anchor_renderers'' rs ord_cmp = Inr () \<longleftrightarrow> sorted_wrt (<) rs"
    using sorted_set_Inr [of _ rs "\<lambda>x. x"] by simp
  show ?thesis
    by (cases "rs = [] \<or> 16 < length rs")
      (auto simp: validate_renderers_def rbind_unit_Inr spelled [simplified] sorted)
qed

lemma validate_translations_Inr:
  "validate_translations ts = Inr () \<longleftrightarrow>
     length ts \<le> 64 \<and> list_all (\<lambda>(s, t). s \<noteq> t) ts
     \<and> sorted_wrt (<) (map (\<lambda>(s, t). (as_text s, as_text t)) ts)"
proof -
  have none: "position_of 0 (\<lambda>(source, target). source = target) ts = None \<longleftrightarrow> list_all (\<lambda>(s, t). s \<noteq> t) ts"
    unfolding position_of_None by (auto simp: list_all_iff)
  have sorted: "sorted_set ''$.translations'' ts
      (\<lambda>l r. ord_cmp (as_text (fst l), as_text (snd l)) (as_text (fst r), as_text (snd r))) = Inr ()
      \<longleftrightarrow> sorted_wrt (<) (map (\<lambda>(s, t). (as_text s, as_text t)) ts)"
    unfolding sorted_set_Inr [of _ ts "\<lambda>l. (as_text (fst l), as_text (snd l))"] by (simp add: case_prod_unfold)
  show ?thesis
    unfolding validate_translations_def sorted [symmetric] none [symmetric]
    by (auto split: option.splits)
qed

text \<open>
  C25. A repository policy is accepted exactly when every set is within its ceiling and
  strictly sorted, so without a repeated member, every include, assertion, translation and
  renderer is well formed, and no tree is declared a translation of itself.
\<close>

theorem scanner_policy_validate_iff:
  "scanner_policy_validate p = Inr () \<longleftrightarrow>
     length (document_includes p) \<le> 100000 \<and> list_all include_ok (document_includes p)
     \<and> sorted_wrt (<) (map include_order (document_includes p))
     \<and> length (or_empty (projection_assertions p)) \<le> 100000
     \<and> list_all assertion_ok (or_empty (projection_assertions p))
     \<and> sorted_wrt (<) (map assertion_order (or_empty (projection_assertions p)))
     \<and> length (protected_inventory p) \<le> 100000
     \<and> sorted_wrt (<) (map as_text (protected_inventory p))
     \<and> length (finding_dispositions p) \<le> 3
     \<and> sorted_wrt (<) (map (promotable_str \<circ> disposition_kind) (finding_dispositions p))
     \<and> length (or_empty (default_branch_aliases p)) \<le> 16
     \<and> sorted_wrt (<) (map branch_ref_str (or_empty (default_branch_aliases p)))
     \<and> length (or_empty (translation_pairs p)) \<le> 64
     \<and> list_all (\<lambda>(s, t). s \<noteq> t) (or_empty (translation_pairs p))
     \<and> sorted_wrt (<) (map (\<lambda>(s, t). (as_text s, as_text t)) (or_empty (translation_pairs p)))
     \<and> (case anchor_renderers p of None \<Rightarrow> True
        | Some rs \<Rightarrow> rs \<noteq> [] \<and> length rs \<le> 16 \<and> list_all renderer_spelled rs \<and> sorted_wrt (<) rs)"
proof -
  have incs: "each_from 0 (\<lambda>index. validate_document_include (indexed ''$.document_includes'' index)) xs = Inr ()
      \<longleftrightarrow> list_all include_ok xs" for xs
    by (rule each_from_Inr) (rule validate_document_include_Inr)
  have assertions: "each_from 0 (\<lambda>index. validate_projection_assertion (indexed ''$.projection_assertions'' index)) xs
      = Inr () \<longleftrightarrow> list_all assertion_ok xs" for xs
    by (rule each_from_Inr) (rule validate_projection_assertion_Inr)
  have renderers: "(case anchor_renderers p of None \<Rightarrow> Inr () | Some rs \<Rightarrow> validate_renderers rs) = Inr () \<longleftrightarrow>
      (case anchor_renderers p of None \<Rightarrow> True
        | Some rs \<Rightarrow> rs \<noteq> [] \<and> length rs \<le> 16 \<and> list_all renderer_spelled rs \<and> sorted_wrt (<) rs)"
    by (simp add: validate_renderers_Inr split: option.splits)
  note sets = sorted_set_Inr [where key = include_order] sorted_set_Inr [where key = assertion_order]
    sorted_set_Inr [where key = as_text] sorted_set_Inr [where key = branch_ref_str]
    sorted_set_Inr [where key = "\<lambda>x. promotable_str (disposition_kind x)"]
  show ?thesis
    unfolding scanner_policy_validate_def Let_def
    by (simp add: rbind_unit_Inr incs assertions sets renderers validate_translations_Inr comp_def not_le
        split del: option.split)
qed

definition floor_size :: "organization_floor \<Rightarrow> nat" where
  "floor_size f = length (minimum_dispositions f) + length (floor_inventory_paths f)
     + length (protected_control_paths f) + length (waivable_finding_kinds f)
     + length (authorized_debt_owners f) + length (authorized_waiver_issuers f) + length (resource_limits f)"

definition floor_shape_ok :: "organization_floor \<Rightarrow> bool" where
  "floor_shape_ok f \<longleftrightarrow>
     length (minimum_dispositions f) \<le> 3
     \<and> sorted_wrt (<) (map (promotable_str \<circ> disposition_kind) (minimum_dispositions f))
     \<and> length (floor_inventory_paths f) \<le> 100000 \<and> sorted_wrt (<) (map as_text (floor_inventory_paths f))
     \<and> length (protected_control_paths f) \<le> 100000 \<and> sorted_wrt (<) (map as_text (protected_control_paths f))
     \<and> length (waivable_finding_kinds f) \<le> 2 \<and> sorted_wrt (<) (map eligible_str (waivable_finding_kinds f))
     \<and> length (authorized_debt_owners f) \<le> 10000 \<and> list_all owner_ok (authorized_debt_owners f)
     \<and> sorted_wrt (<) (map owner_str (authorized_debt_owners f))
     \<and> length (authorized_waiver_issuers f) \<le> 10000 \<and> list_all owner_ok (authorized_waiver_issuers f)
     \<and> sorted_wrt (<) (map owner_str (authorized_waiver_issuers f))
     \<and> length (resource_limits f) \<le> length resource_name_list
     \<and> list_all (\<lambda>row. resource_maximum_valid (limit_resource row) (limit_maximum row)) (resource_limits f)
     \<and> sorted_wrt (<) (map (resource_name_str \<circ> limit_resource) (resource_limits f))"

lemma validate_paths_Inr:
  "validate_paths path xs = Inr () \<longleftrightarrow> length xs \<le> 100000 \<and> sorted_wrt (<) (map as_text xs)"
  by (simp add: validate_paths_def sorted_set_Inr [where key = as_text])

lemma validate_owners_Inr:
  "validate_owners path xs = Inr () \<longleftrightarrow>
     length xs \<le> 10000 \<and> list_all owner_ok xs \<and> sorted_wrt (<) (map owner_str xs)"
proof -
  have "each_from 0 (\<lambda>index. validate_owner (indexed path index)) xs = Inr () \<longleftrightarrow> list_all owner_ok xs"
    by (rule each_from_Inr) simp
  then show ?thesis
    by (simp add: validate_owners_def rbind_unit_Inr sorted_set_Inr [where key = owner_str] not_le)
qed

lemma validate_floor_shape_Inr: "validate_floor_shape f = Inr () \<longleftrightarrow> floor_shape_ok f"
proof -
  have limits: "each_from 0 (\<lambda>index row.
      if \<not> resource_maximum_valid (limit_resource row) (limit_maximum row)
      then fail (indexed ''$.resource_limits'' index @ ''.maximum'') Kind_InvalidValue
      else Inr ()) xs = Inr () \<longleftrightarrow> list_all (\<lambda>row. resource_maximum_valid (limit_resource row) (limit_maximum row)) xs" for xs
    by (rule each_from_Inr) simp
  note sets = sorted_set_Inr [where key = eligible_str]
    sorted_set_Inr [where key = "\<lambda>x. promotable_str (disposition_kind x)"]
    sorted_set_Inr [where key = "\<lambda>x. resource_name_str (limit_resource x)"]
  show ?thesis
    by (simp add: validate_floor_shape_def floor_shape_ok_def rbind_unit_Inr validate_paths_Inr validate_owners_Inr
        limits [simplified] sets comp_def not_le)
qed

lemma floor_entries_size: "unat (floor_entries f) = min (2 ^ 64 - 1) (floor_size f)"
proof -
  have "unat (fold (\<lambda>n t. saturating_add t (u64_of_usize n)) ns s)
      = min (2 ^ 64 - 1) (unat s + sum_list ns)" for ns and s :: u64
  proof (induction ns arbitrary: s)
    case Nil
    have "unat s < 2 ^ LENGTH(64)" by (rule unsigned_less)
    then show ?case by simp
  next
    case (Cons n ns)
    then show ?case by (simp add: u64_simps)
  qed
  note * = this
  show ?thesis unfolding floor_entries_def * by (simp add: floor_size_def)
qed

lemma schema_defect_Inr [simp]: "schema_defect r = Inr x \<longleftrightarrow> r = Inr x"
  by (simp add: schema_defect_def split: sum.splits)

lemma u64_of_i64_exact:
  assumes "0 \<le> i" and "i \<le> int MAX_SAFE_INT"
  shows "unat (u64_of_i64 i) = nat i"
proof -
  have "i < 2 ^ 64" using assms(2) by (simp add: MAX_SAFE_INT_def)
  with assms(1) show ?thesis by (simp add: u64_of_i64_def unsigned_of_int take_bit_int_eq_self)
qed

definition declared_limit_ok :: "organization_floor \<Rightarrow> bool" where
  "declared_limit_ok f =
     (case find (\<lambda>row. limit_resource row = Resource_OrganizationPolicyEntries) (resource_limits f) of
        None \<Rightarrow> True
      | Some row \<Rightarrow> int (floor_size f) \<le> limit_maximum row)"

text \<open>
  C26. An organization floor is accepted exactly when its repository and its sets are well
  formed, it holds at most 100,000 entries counted together, and no more than the limit on
  entries it declares itself. The saturating sum of the source never hides an entry.
\<close>

theorem organization_floor_validate_iff:
  "organization_floor_validate f = Inr () \<longleftrightarrow>
     repository_ok (floor_repository f) \<and> floor_size f \<le> 100000 \<and> floor_shape_ok f \<and> declared_limit_ok f"
proof -
  have entries: "floor_entries f \<le> ORGANIZATION_POLICY_ENTRIES_LIMIT \<longleftrightarrow> floor_size f \<le> 100000"
    by (simp add: word_le_nat_alt floor_entries_size min_le_iff_disj ORGANIZATION_POLICY_ENTRIES_LIMIT_def)
  have declared: "(case find (\<lambda>row. limit_resource row = Resource_OrganizationPolicyEntries) (resource_limits f) of
        None \<Rightarrow> Inr ()
      | Some row \<Rightarrow>
          let declared = u64_of_i64 (limit_maximum row) in
          if declared < floor_entries f then Inl (Defect_Entries declared (saturating_add declared 1))
          else Inr ()) = Inr () \<longleftrightarrow> declared_limit_ok f"
    if shape: "floor_shape_ok f" and size: "floor_size f \<le> 100000"
  proof (cases "find (\<lambda>row. limit_resource row = Resource_OrganizationPolicyEntries) (resource_limits f)")
    case (Some row)
    then have "row \<in> set (resource_limits f)" "limit_resource row = Resource_OrganizationPolicyEntries"
      by (auto simp: find_Some_iff)
    with shape have "0 \<le> limit_maximum row" "limit_maximum row \<le> int MAX_SAFE_INT"
      by (auto simp: floor_shape_ok_def list_all_iff resource_maximum_valid_def dest!: bspec [of _ _ row])
    then have "u64_of_i64 (limit_maximum row) < floor_entries f \<longleftrightarrow> nat (limit_maximum row) < floor_size f"
      using size by (simp add: word_less_nat_alt u64_of_i64_exact floor_entries_size)
    with \<open>0 \<le> limit_maximum row\<close> Some show ?thesis
      by (auto simp: declared_limit_ok_def Let_def not_less)
  qed (simp add: declared_limit_ok_def)
  show ?thesis
    using declared
    by (auto simp: organization_floor_validate_def rbind_unit_Inr Let_def validate_floor_shape_Inr
        entries [symmetric] not_less split: if_splits)
qed

text \<open>
  C27. A trusted-time statement is accepted exactly when its fields are well formed and it is
  valid for at least one second and at most 600, so its evaluation instant comes before its
  end in the order the evaluation compares instants by.
\<close>

theorem trusted_time_validate_iff:
  "trusted_time_validate t = Inr () \<longleftrightarrow>
     repository_ok (time_repository t) \<and> id_body_valid (time_provider t) 128
     \<and> provider_run_id_valid (provider_run_id t)
     \<and> 1 \<le> unat (provider_run_attempt t) \<and> unat (provider_run_attempt t) \<le> MAX_SAFE_INT
     \<and> instant_ok (evaluation_instant t) \<and> instant_ok (valid_until t)
     \<and> evaluation_instant t < valid_until t
     \<and> epoch_seconds (valid_until t) \<le> epoch_seconds (evaluation_instant t) + 600"
proof -
  have "evaluation_instant t < valid_until t \<longleftrightarrow>
      epoch_seconds (evaluation_instant t) < epoch_seconds (valid_until t)"
    if "instant_ok (evaluation_instant t)" "instant_ok (valid_until t)"
    using that unfolding instant_ok_def by (rule instant_less_iff)
  moreover have "(case artifact_id_try_from (time_provider t) of Inl _ \<Rightarrow> False | Inr _ \<Rightarrow> True)
      \<longleftrightarrow> id_body_valid (time_provider t) 128"
    by (simp add: artifact_id_try_from_def)
  ultimately show ?thesis
    by (auto simp: trusted_time_validate_def rbind_unit_Inr Let_def STATEMENT_TTL_MAX_SECONDS_def)
qed

end
