(* ===== verification/Wire_Errors.thy ===== *)
theory Wire_Errors
  imports Wire_Names
begin

text \<open>
  The closed analysis-error codes with their phase, the reason they make an evaluation
  unavailable and their fixed description, \<open>crates/amiss-wire/src/report/model/error.rs\<close>, and
  the error detail with its row, \<open>report/error.rs\<close>. The derived order of a detail compares
  its fields in declaration order.
\<close>

section \<open>Codes\<close>

datatype analysis_error_code =
    Code_InvalidInvocation | Code_InvalidEvent | Code_InvalidProfile | Code_RequestUnreadable
  | Code_ConfigurationInvalid | Code_DuplicateJsonKey | Code_InvalidUtf8
  | Code_InvalidJson | Code_UnknownSchema | Code_UnknownField | Code_NoncanonicalArray
  | Code_DigestMismatch | Code_ControlBindingMismatch | Code_ExceptionOverlap
  | Code_UnsupportedCapability | Code_GitRepositoryUnavailable | Code_GitObjectMissing
  | Code_GitObjectWrongKind | Code_GitObjectUnreadable | Code_GitIndexInvalid
  | Code_GitIndexOutsideRepository | Code_GitIndexFormatUnsupported
  | Code_GitIndexUnmerged | Code_GitIntentToAdd | Code_GitSnapshotChanged
  | Code_UnrepresentablePath | Code_DocumentInvalid | Code_ParserError | Code_ParserPanic
  | Code_InvalidSourceSpan | Code_ResolutionError | Code_ResourceLimitExceeded
  | Code_OutputLimitExceeded | Code_TooManyErrors | Code_ReportConstructionFailed
  | Code_SandboxViolation | Code_TrustedTimeInvalid | Code_InternalError

definition analysis_error_code_list :: "analysis_error_code list" where
  "analysis_error_code_list = [Code_InvalidInvocation, Code_InvalidEvent, Code_InvalidProfile, Code_RequestUnreadable
     , Code_ConfigurationInvalid, Code_DuplicateJsonKey, Code_InvalidUtf8
     , Code_InvalidJson, Code_UnknownSchema, Code_UnknownField, Code_NoncanonicalArray
     , Code_DigestMismatch, Code_ControlBindingMismatch, Code_ExceptionOverlap
     , Code_UnsupportedCapability, Code_GitRepositoryUnavailable, Code_GitObjectMissing
     , Code_GitObjectWrongKind, Code_GitObjectUnreadable, Code_GitIndexInvalid
     , Code_GitIndexOutsideRepository, Code_GitIndexFormatUnsupported
     , Code_GitIndexUnmerged, Code_GitIntentToAdd, Code_GitSnapshotChanged
     , Code_UnrepresentablePath, Code_DocumentInvalid, Code_ParserError, Code_ParserPanic
     , Code_InvalidSourceSpan, Code_ResolutionError, Code_ResourceLimitExceeded
     , Code_OutputLimitExceeded, Code_TooManyErrors, Code_ReportConstructionFailed
     , Code_SandboxViolation, Code_TrustedTimeInvalid, Code_InternalError]"

primrec analysis_error_code_index :: "analysis_error_code \<Rightarrow> nat" where
  "analysis_error_code_index Code_InvalidInvocation = 0"
| "analysis_error_code_index Code_InvalidEvent = 1"
| "analysis_error_code_index Code_InvalidProfile = 2"
| "analysis_error_code_index Code_RequestUnreadable = 3"
| "analysis_error_code_index Code_ConfigurationInvalid = 4"
| "analysis_error_code_index Code_DuplicateJsonKey = 5"
| "analysis_error_code_index Code_InvalidUtf8 = 6"
| "analysis_error_code_index Code_InvalidJson = 7"
| "analysis_error_code_index Code_UnknownSchema = 8"
| "analysis_error_code_index Code_UnknownField = 9"
| "analysis_error_code_index Code_NoncanonicalArray = 10"
| "analysis_error_code_index Code_DigestMismatch = 11"
| "analysis_error_code_index Code_ControlBindingMismatch = 12"
| "analysis_error_code_index Code_ExceptionOverlap = 13"
| "analysis_error_code_index Code_UnsupportedCapability = 14"
| "analysis_error_code_index Code_GitRepositoryUnavailable = 15"
| "analysis_error_code_index Code_GitObjectMissing = 16"
| "analysis_error_code_index Code_GitObjectWrongKind = 17"
| "analysis_error_code_index Code_GitObjectUnreadable = 18"
| "analysis_error_code_index Code_GitIndexInvalid = 19"
| "analysis_error_code_index Code_GitIndexOutsideRepository = 20"
| "analysis_error_code_index Code_GitIndexFormatUnsupported = 21"
| "analysis_error_code_index Code_GitIndexUnmerged = 22"
| "analysis_error_code_index Code_GitIntentToAdd = 23"
| "analysis_error_code_index Code_GitSnapshotChanged = 24"
| "analysis_error_code_index Code_UnrepresentablePath = 25"
| "analysis_error_code_index Code_DocumentInvalid = 26"
| "analysis_error_code_index Code_ParserError = 27"
| "analysis_error_code_index Code_ParserPanic = 28"
| "analysis_error_code_index Code_InvalidSourceSpan = 29"
| "analysis_error_code_index Code_ResolutionError = 30"
| "analysis_error_code_index Code_ResourceLimitExceeded = 31"
| "analysis_error_code_index Code_OutputLimitExceeded = 32"
| "analysis_error_code_index Code_TooManyErrors = 33"
| "analysis_error_code_index Code_ReportConstructionFailed = 34"
| "analysis_error_code_index Code_SandboxViolation = 35"
| "analysis_error_code_index Code_TrustedTimeInvalid = 36"
| "analysis_error_code_index Code_InternalError = 37"

lemma analysis_error_code_index_eqD: "analysis_error_code_index a = analysis_error_code_index b \<Longrightarrow> a = b"
proof -
  have "analysis_error_code_list ! analysis_error_code_index x = x" for x
    by (cases x) (simp_all add: analysis_error_code_list_def)
  then show "analysis_error_code_index a = analysis_error_code_index b \<Longrightarrow> a = b" by metis
qed

instantiation analysis_error_code :: linorder
begin
definition less_eq_analysis_error_code :: "analysis_error_code \<Rightarrow> analysis_error_code \<Rightarrow> bool" where
  "less_eq_analysis_error_code a b = (analysis_error_code_index a \<le> analysis_error_code_index b)"
definition less_analysis_error_code :: "analysis_error_code \<Rightarrow> analysis_error_code \<Rightarrow> bool" where
  "less_analysis_error_code a b = (analysis_error_code_index a < analysis_error_code_index b)"
instance
  by standard (auto simp: less_eq_analysis_error_code_def less_analysis_error_code_def intro: analysis_error_code_index_eqD)
end

datatype evaluation_unavailable_reason =
    Reason_InvalidEvent | Reason_InvalidInvocation | Reason_InvalidProfile | Reason_RequestUnreadable

record analysis_route =
  route_phase :: analysis_phase
  evaluation_reason :: "evaluation_unavailable_reason option"

definition INVALID_INVOCATION :: analysis_route where
  "INVALID_INVOCATION = \<lparr>route_phase = Phase_Invocation, evaluation_reason = Some Reason_InvalidInvocation\<rparr>"

definition INVALID_EVENT :: analysis_route where
  "INVALID_EVENT = \<lparr>route_phase = Phase_Invocation, evaluation_reason = Some Reason_InvalidEvent\<rparr>"

definition INVALID_PROFILE :: analysis_route where
  "INVALID_PROFILE = \<lparr>route_phase = Phase_Invocation, evaluation_reason = Some Reason_InvalidProfile\<rparr>"

definition REQUEST_UNREADABLE :: analysis_route where
  "REQUEST_UNREADABLE = \<lparr>route_phase = Phase_Invocation, evaluation_reason = Some Reason_RequestUnreadable\<rparr>"

definition CONFIGURATION :: analysis_route where
  "CONFIGURATION = \<lparr>route_phase = Phase_Configuration, evaluation_reason = None\<rparr>"

definition GIT :: analysis_route where
  "GIT = \<lparr>route_phase = Phase_Git, evaluation_reason = None\<rparr>"

definition PARSE :: analysis_route where
  "PARSE = \<lparr>route_phase = Phase_Parse, evaluation_reason = None\<rparr>"

definition RESOLUTION :: analysis_route where
  "RESOLUTION = \<lparr>route_phase = Phase_Resolution, evaluation_reason = None\<rparr>"

definition POLICY :: analysis_route where
  "POLICY = \<lparr>route_phase = Phase_Policy, evaluation_reason = None\<rparr>"

definition OUTPUT :: analysis_route where
  "OUTPUT = \<lparr>route_phase = Phase_Output, evaluation_reason = None\<rparr>"

definition INTERNAL :: analysis_route where
  "INTERNAL = \<lparr>route_phase = Phase_Internal, evaluation_reason = None\<rparr>"

primrec error_route :: "analysis_error_code \<Rightarrow> analysis_route option" where
  "error_route Code_InvalidInvocation = Some INVALID_INVOCATION"
| "error_route Code_InvalidEvent = Some INVALID_EVENT"
| "error_route Code_InvalidProfile = Some INVALID_PROFILE"
| "error_route Code_RequestUnreadable = Some REQUEST_UNREADABLE"
| "error_route Code_ConfigurationInvalid = Some CONFIGURATION"
| "error_route Code_DuplicateJsonKey = Some CONFIGURATION"
| "error_route Code_InvalidUtf8 = Some CONFIGURATION"
| "error_route Code_InvalidJson = Some CONFIGURATION"
| "error_route Code_UnknownSchema = Some CONFIGURATION"
| "error_route Code_UnknownField = Some CONFIGURATION"
| "error_route Code_NoncanonicalArray = Some CONFIGURATION"
| "error_route Code_DigestMismatch = Some CONFIGURATION"
| "error_route Code_ControlBindingMismatch = Some CONFIGURATION"
| "error_route Code_ExceptionOverlap = Some CONFIGURATION"
| "error_route Code_UnsupportedCapability = Some POLICY"
| "error_route Code_GitRepositoryUnavailable = Some GIT"
| "error_route Code_GitObjectMissing = Some GIT"
| "error_route Code_GitObjectWrongKind = Some GIT"
| "error_route Code_GitObjectUnreadable = Some GIT"
| "error_route Code_GitIndexInvalid = Some GIT"
| "error_route Code_GitIndexOutsideRepository = Some GIT"
| "error_route Code_GitIndexFormatUnsupported = Some GIT"
| "error_route Code_GitIndexUnmerged = Some GIT"
| "error_route Code_GitIntentToAdd = Some GIT"
| "error_route Code_GitSnapshotChanged = Some GIT"
| "error_route Code_UnrepresentablePath = Some GIT"
| "error_route Code_DocumentInvalid = Some PARSE"
| "error_route Code_ParserError = Some PARSE"
| "error_route Code_ParserPanic = Some PARSE"
| "error_route Code_InvalidSourceSpan = Some PARSE"
| "error_route Code_ResolutionError = Some RESOLUTION"
| "error_route Code_ResourceLimitExceeded = None"
| "error_route Code_OutputLimitExceeded = Some OUTPUT"
| "error_route Code_TooManyErrors = Some INTERNAL"
| "error_route Code_ReportConstructionFailed = Some OUTPUT"
| "error_route Code_SandboxViolation = Some INTERNAL"
| "error_route Code_TrustedTimeInvalid = Some CONFIGURATION"
| "error_route Code_InternalError = Some INTERNAL"

primrec error_meaning :: "analysis_error_code \<Rightarrow> string" where
  "error_meaning Code_InvalidInvocation =
     ''the command line does not match the closed grammar; each documented option '' @
     ''appears at most once and nothing else is accepted''"
| "error_meaning Code_InvalidEvent =
     ''the declared repository, ref, default-branch, or forge identity is unusable as '' @
     ''written; pass a lowercase owner and name, full refs/heads/ references, and '' @
     ''--forge for a host outside the known table, as the stderr reason line names''"
| "error_meaning Code_InvalidProfile =
     ''the profile is not observe, enforce-introduced, or enforce; pass one of those '' @
     ''three to --profile''"
| "error_meaning Code_RequestUnreadable =
     ''the machine evaluation request bytes could not be read; nothing was evaluated, '' @
     ''so resend the whole sealed request frame on stdin with nothing after it''"
| "error_meaning Code_ConfigurationInvalid =
     ''a policy or control input violates its schema; correct the file the row names, '' @
     ''since one unknown field or malformed value makes the whole file invalid rather '' @
     ''than partly honored''"
| "error_meaning Code_DuplicateJsonKey =
     ''a JSON input repeats an object key; drop the duplicate, since strict parsing '' @
     ''refuses the file rather than choosing one of the values''"
| "error_meaning Code_InvalidUtf8 =
     ''a JSON input carries bytes that are not UTF-8''"
| "error_meaning Code_InvalidJson =
     ''an input that must be JSON does not parse as strict JSON; fix the syntax in the '' @
     ''file the row names''"
| "error_meaning Code_UnknownSchema =
     ''a JSON input declares a schema identifier this engine does not recognize; '' @
     ''correct the identifier, or upgrade to a release that defines it''"
| "error_meaning Code_UnknownField =
     ''a JSON input carries a field its closed schema does not define; unknown fields '' @
     ''refuse rather than pass through unread''"
| "error_meaning Code_NoncanonicalArray =
     ''a JSON input array violates its required canonical ordering or uniqueness; sort '' @
     ''it and drop the repeated members''"
| "error_meaning Code_DigestMismatch =
     ''a digest carried by an input does not match the bytes it names; the input is '' @
     ''stale or altered''"
| "error_meaning Code_ControlBindingMismatch =
     ''an external control is bound to a different repository, ref, or run identity '' @
     ''than this evaluation; nothing is applied, so reissue the control against the '' @
     ''identity under review or leave it out''"
| "error_meaning Code_ExceptionOverlap =
     ''accepted exception items select the same finding more than once; narrow the '' @
     ''debt and waiver items until each finding is selected once, since overlap is '' @
     ''refused rather than double-suppressed''"
| "error_meaning Code_UnsupportedCapability =
     ''a candidate document declares a reserved amiss: capability this engine does not '' @
     ''implement; correct the declaration in the named document, or upgrade to a '' @
     ''release that implements it''"
| "error_meaning Code_GitRepositoryUnavailable =
     ''the --repo path does not open as a Git repository of the declared object '' @
     ''format; pass the checkout root from git rev-parse --show-toplevel and match '' @
     ''--object-format to git rev-parse --show-object-format''"
| "error_meaning Code_GitObjectMissing =
     ''a commit, tree, or blob the run needs is absent from the object store; fetch '' @
     ''full history or name commits the store holds, and for a whole-tree scan pass '' @
     ''--base $(git rev-parse HEAD) --index rather than the all-zero or empty-tree id''"
| "error_meaning Code_GitObjectWrongKind =
     ''a Git object is not the kind its use requires, as when a named commit resolves '' @
     ''to another type''"
| "error_meaning Code_GitObjectUnreadable =
     ''a Git object exists but its bytes cannot be decoded; the object store is '' @
     ''damaged, so check it with git fsck and restore it from a fresh clone''"
| "error_meaning Code_GitIndexInvalid =
     ''the staged index file does not parse under the index grammar; remove .git/index '' @
     ''and run git reset to rebuild it, or compare two commits instead of the index''"
| "error_meaning Code_GitIndexOutsideRepository =
     ''GIT_INDEX_FILE names an index outside this repository's own git directory, and '' @
     ''the scan reads nothing there; unset it, or run from the repository whose Git '' @
     ''process set it''"
| "error_meaning Code_GitIndexFormatUnsupported =
     ''the index uses Git's split or sparse format, which this reader does not expand; '' @
     ''compare two commits instead, or turn the format off with git update-index '' @
     ''--no-split-index, or git config index.sparse false and git sparse-checkout '' @
     ''reapply''"
| "error_meaning Code_GitIndexUnmerged =
     ''the index holds unmerged conflict entries, so no single staged state exists; '' @
     ''finish or abort the merge before checking the index''"
| "error_meaning Code_GitIntentToAdd =
     ''the index holds an intent-to-add entry whose content is not staged; stage the '' @
     ''file or drop the intent entry before checking the index''"
| "error_meaning Code_GitSnapshotChanged =
     ''the staged index changed while the run was reading it; rerun when the '' @
     ''repository is quiet''"
| "error_meaning Code_UnrepresentablePath =
     ''a tree or index name is outside the path grammar, a backslash, a NUL, or a dot '' @
     ''segment; the exact bytes are disclosed as hex''"
| "error_meaning Code_DocumentInvalid =
     ''a document's bytes cannot be decoded as its format requires; save the file as '' @
     ''UTF-8 or fix the syntax its grammar refused, and only that document is '' @
     ''unsupported, never the run''"
| "error_meaning Code_ParserError =
     ''the pinned parser failed on a document; this is an Amiss defect rather than a '' @
     ''fault in the file, so report it as a bug with the named document''"
| "error_meaning Code_ParserPanic =
     ''the pinned parser panicked on a document; the panic is caught and the run is '' @
     ''incomplete, so report it as an Amiss bug with the named document''"
| "error_meaning Code_InvalidSourceSpan =
     ''the parser returned a node whose byte span does not address the document; the '' @
     ''parse is not trusted, so report it as an Amiss bug with the named document''"
| "error_meaning Code_ResolutionError =
     ''reference resolution failed internally; no input fixes this, so report it as an '' @
     ''Amiss bug with the command line''"
| "error_meaning Code_ResourceLimitExceeded =
     ''a named resource crossed its ceiling, and no option raises one, so the input '' @
     ''has to come under it; the row carries the resource, the configured limit, and '' @
     ''the observed lower bound''"
| "error_meaning Code_OutputLimitExceeded =
     ''the serialized report would cross the machine-json-bytes ceiling; no option '' @
     ''raises it and findings are never dropped to fit, so the repository is past what '' @
     ''one report holds''"
| "error_meaning Code_TooManyErrors =
     ''more distinct analysis errors accumulated than the retention ceiling; the '' @
     ''lowest-keyed rows are kept and this sentinel stands for the rest, so fix those '' @
     ''and rerun for what is left''"
| "error_meaning Code_ReportConstructionFailed =
     ''the report could not be constructed or emitted; the run has no trustworthy '' @
     ''output, so check that the output stream can still be written, then report it as '' @
     ''an Amiss bug''"
| "error_meaning Code_SandboxViolation =
     ''the run breached its sandbox descriptor; the result is not trustworthy, so '' @
     ''discard it and report an Amiss bug with the command line''"
| "error_meaning Code_TrustedTimeInvalid =
     ''a control that needs trusted time has no statement that verifies, absent or '' @
     ''failing its binding; the run will not act on an unverified clock, so supply a '' @
     ''statement bound to this run or drop the control''"
| "error_meaning Code_InternalError =
     ''an engine invariant failed; this is a defect in Amiss, not in the input, so '' @
     ''discard the run and report it as a bug with the command line''"

section \<open>Details and rows\<close>

record error_detail =
  detail_code :: analysis_error_code
  detail_path :: "rpath option"
  detail_path_bytes :: "bytes option"
  detail_resource :: "(resource_name \<times> u64 \<times> u64) option"
  detail_json_path :: "bytes option"

definition detail_key ::
  "error_detail \<Rightarrow> analysis_error_code \<times> rpath option \<times> bytes option
     \<times> (resource_name \<times> u64 \<times> u64) option \<times> bytes option" where
  "detail_key d = (detail_code d, detail_path d, detail_path_bytes d, detail_resource d, detail_json_path d)"

lemma detail_key_inj: "detail_key a = detail_key b \<longleftrightarrow> a = b"
  by (cases a; cases b) (auto simp: detail_key_def)

record analysis_error =
  row_code :: analysis_error_code
  row_configured_limit :: "u64 option"
  row_description :: string
  row_json_path :: "bytes option"
  row_observed_lower_bound :: "u64 option"
  row_path :: "rpath option"
  row_path_bytes :: "bytes option"
  row_phase :: analysis_phase
  row_resource :: "resource_name option"

definition I64_MAX :: u64 where
  "I64_MAX = 2 ^ 63 - 1"

definition error_row :: "error_detail \<Rightarrow> analysis_error" where
  "error_row d =
     (let phase = (case detail_resource d of
            None \<Rightarrow> (case error_route (detail_code d) of
                None \<Rightarrow> Phase_Internal | Some route \<Rightarrow> route_phase route)
          | Some (resource, _, _) \<Rightarrow> resource_phase resource)
      in \<lparr>row_code = detail_code d,
          row_configured_limit = map_option (\<lambda>(_, limit, _). min limit I64_MAX) (detail_resource d),
          row_description = error_meaning (detail_code d),
          row_json_path = detail_json_path d,
          row_observed_lower_bound = map_option (\<lambda>(_, _, observed). min observed I64_MAX) (detail_resource d),
          row_path = detail_path d,
          row_path_bytes = detail_path_bytes d,
          row_phase = phase,
          row_resource = map_option fst (detail_resource d)\<rparr>)"

fun fault_code :: "fault \<Rightarrow> analysis_error_code" where
  "fault_code DocumentInvalid = Code_DocumentInvalid"
| "fault_code DocumentUnparsable = Code_DocumentInvalid"
| "fault_code ParserError = Code_ParserError"
| "fault_code ParserPanic = Code_ParserPanic"
| "fault_code InvalidSourceSpan = Code_InvalidSourceSpan"

end
