(* ===== verification/Scan_Forest.thy ===== *)
theory Scan_Forest
  imports Scan_Resources
begin

text \<open>
  The disjoint-set forest of \<open>crates/amiss-scan/src/correlate/components.rs\<close>
  (\<open>ComponentForest\<close>, \<open>root_position\<close>, \<open>union\<close>). The root search halves paths while it
  walks; its loop has no bound in the source, so the model is a partial function and its
  termination is a theorem about forests whose parents never point forward. A forest is
  refined to the equivalence its unions generate.
\<close>

section \<open>Definitions\<close>

record 'a forest =
  identities :: "'a list"
  parents :: "nat list"

text \<open>
  \<open>slice::binary_search\<close> on a sorted slice of distinct values: the position of the value.
\<close>

fun position_from :: "nat \<Rightarrow> 'a list \<Rightarrow> 'a \<Rightarrow> nat option" where
  "position_from n [] x = None"
| "position_from n (y # ys) x = (if y = x then Some n else position_from (Suc n) ys x)"

definition binary_search :: "'a list \<Rightarrow> 'a \<Rightarrow> nat option" where
  "binary_search xs x = position_from 0 xs x"

partial_function (option) root_loop ::
  "nat \<Rightarrow> nat list \<Rightarrow> ((error, nat) result \<times> nat list) option" where
  "root_loop position ps =
     (if length ps \<le> position then Some (Inl Internal, ps)
      else let parent = ps ! position in
        if length ps \<le> parent then Some (Inl Internal, ps)
        else let grandparent = ps ! parent in
          if parent = grandparent then Some (Inr parent, ps)
          else root_loop parent (ps[position := grandparent]))"

definition root_position ::
  "'a \<Rightarrow> 'a forest \<Rightarrow> ((error, nat) result \<times> 'a forest) option" where
  "root_position identity f =
     (case binary_search (identities f) identity of
        None \<Rightarrow> Some (Inl Internal, f)
      | Some position \<Rightarrow>
          (case root_loop position (parents f) of
             None \<Rightarrow> None
           | Some (r, ps) \<Rightarrow> Some (r, f\<lparr>parents := ps\<rparr>)))"

definition forest_union ::
  "'a \<Rightarrow> 'a \<Rightarrow> 'a forest \<Rightarrow> ((error, unit) result \<times> 'a forest) option" where
  "forest_union left right f =
     (case root_position left f of
        None \<Rightarrow> None
      | Some (Inl e, f1) \<Rightarrow> Some (Inl e, f1)
      | Some (Inr left_root, f1) \<Rightarrow>
        (case root_position right f1 of
           None \<Rightarrow> None
         | Some (Inl e, f2) \<Rightarrow> Some (Inl e, f2)
         | Some (Inr right_root, f2) \<Rightarrow>
             if left_root = right_root then Some (Inr (), f2)
             else
               let (root, child) =
                     if left_root < right_root then (left_root, right_root)
                     else (right_root, left_root)
               in if length (parents f2) \<le> child then Some (Inl Internal, f2)
                  else Some (Inr (), f2\<lparr>parents := (parents f2)[child := root]\<rparr>)))"

section \<open>Roots\<close>

definition backward :: "nat list \<Rightarrow> bool" where
  "backward ps \<longleftrightarrow> (\<forall>i < length ps. ps ! i \<le> i)"

function root :: "nat list \<Rightarrow> nat \<Rightarrow> nat" where
  "root ps i = (if i < length ps \<and> ps ! i < i then root ps (ps ! i) else i)"
  by pat_completeness auto
termination by (relation "measure snd") auto

declare root.simps [simp del]

lemma root_le: "root ps i \<le> i"
  by (induction ps i rule: root.induct) (subst root.simps, force)

lemma root_less_length: "i < length ps \<Longrightarrow> root ps i < length ps"
  using root_le [of ps i] by linarith

lemma root_parent:
  assumes "backward ps" and "i < length ps"
  shows "root ps (ps ! i) = root ps i"
proof (cases "ps ! i < i")
  case True
  with assms show ?thesis by (simp add: root.simps [of ps i])
next
  case False
  with assms have "ps ! i = i" by (auto simp: backward_def intro: order_antisym)
  then show ?thesis by simp
qed

lemma root_fixed:
  assumes "backward ps" and "i < length ps"
  shows "ps ! root ps i = root ps i"
  using assms
proof (induction ps i rule: root.induct)
  case (1 ps i)
  show ?case
  proof (cases "ps ! i < i")
    case True
    with 1 show ?thesis by (simp add: root.simps [of ps i])
  next
    case False
    with 1 have "ps ! i = i" by (auto simp: backward_def intro: order_antisym)
    then show ?thesis by (simp add: root.simps [of ps i])
  qed
qed

lemma root_of_fixed: "ps ! i = i \<Longrightarrow> root ps i = i"
  by (simp add: root.simps)

lemma root_idem:
  assumes "backward ps" and "i < length ps"
  shows "root ps (root ps i) = root ps i"
  using root_of_fixed root_fixed [OF assms] .

lemma backward_update:
  "backward ps \<Longrightarrow> i < length ps \<Longrightarrow> v \<le> i \<Longrightarrow> backward (ps[i := v])"
  by (auto simp: backward_def nth_list_update)

text \<open>Redirecting a position to another of the same root changes no root.\<close>

lemma root_redirect:
  assumes b: "backward ps" and i: "i < length ps" and v: "v < i" "root ps v = root ps i"
  shows "root (ps[i := v]) j = root ps j"
proof (induction j rule: less_induct)
  case (less j)
  show ?case
  proof (cases "j < length ps")
    case False
    then show ?thesis by (simp add: root.simps)
  next
    case j: True
    show ?thesis
    proof (cases "j = i")
      case True
      with v i have "root (ps[i := v]) j = root (ps[i := v]) v"
        by (simp add: root.simps [of "ps[i := v]" i])
      also have "\<dots> = root ps v" using less.IH v True by simp
      finally show ?thesis using v True by simp
    next
      case False
      show ?thesis
      proof (cases "ps ! j < j")
        case True
        with False j less.IH [OF True] show ?thesis by (simp add: root.simps [of _ j])
      next
        case no: False
        with False show ?thesis by (simp add: root.simps [of _ j])
      qed
    qed
  qed
qed

text \<open>Hanging one root under an earlier one merges exactly their two classes.\<close>

lemma root_merge:
  assumes b: "backward ps" and c: "child < length ps" "ps ! child = child"
    and r: "r < child" "ps ! r = r"
  shows "root (ps[child := r]) j = (if root ps j = child then r else root ps j)"
proof (induction j rule: less_induct)
  case (less j)
  show ?case
  proof (cases "j = child")
    case True
    have "root (ps[child := r]) r = r"
      using r by (intro root_of_fixed) simp
    with True c r show ?thesis
      by (simp add: root.simps [of "ps[child := r]" child] root_of_fixed)
  next
    case False
    show ?thesis
    proof (cases "j < length ps \<and> ps ! j < j")
      case True
      with False less.IH [of "ps ! j"] show ?thesis by (simp add: root.simps [of _ j])
    next
      case no: False
      with False show ?thesis by (auto simp: root.simps [of _ j])
    qed
  qed
qed

section \<open>The root search returns\<close>

lemma root_loop_correct:
  assumes "backward ps" and "i < length ps"
  shows "\<exists>ps'. root_loop i ps = Some (Inr (root ps i), ps') \<and> length ps' = length ps
     \<and> backward ps' \<and> (\<forall>j. root ps' j = root ps j)"
  using assms
proof (induction i arbitrary: ps rule: less_induct)
  case (less i)
  have parent: "ps ! i \<le> i" "ps ! i < length ps"
    using less.prems by (auto simp: backward_def intro: le_less_trans)
  then have grand: "ps ! (ps ! i) \<le> ps ! i"
    using less.prems(1) by (simp add: backward_def)
  show ?case
  proof (cases "ps ! i = ps ! (ps ! i)")
    case True
    then have "root ps i = ps ! i"
      using root_parent [OF less.prems] root_of_fixed [of ps "ps ! i"] by simp
    with True less.prems parent show ?thesis
      by (subst root_loop.simps) (simp add: Let_def)
  next
    case False
    with grand have lt: "ps ! (ps ! i) < ps ! i" by simp
    with parent have "ps ! i < i" by (metis False nat_less_le)
    let ?qs = "ps[i := ps ! (ps ! i)]"
    have gp: "ps ! (ps ! i) < i" "root ps (ps ! (ps ! i)) = root ps i"
      using lt parent less.prems root_parent by auto
    note same = root_redirect [OF less.prems gp]
    have "backward ?qs" using less.prems gp by (intro backward_update) simp_all
    from less.IH [OF \<open>ps ! i < i\<close> this] parent
    obtain ps' where ps': "root_loop (ps ! i) ?qs = Some (Inr (root ?qs (ps ! i)), ps')"
        "length ps' = length ps" "backward ps'" "\<forall>j. root ps' j = root ?qs j"
      by auto
    have "root ?qs (ps ! i) = root ps i" using same root_parent [OF less.prems] by simp
    with ps' same False less.prems parent show ?thesis
      by (subst root_loop.simps) (simp add: Let_def)
  qed
qed

lemma position_from_Some:
  assumes "position_from n xs x = Some i"
  shows "\<exists>k < length xs. i = n + k \<and> xs ! k = x"
  using assms
proof (induction xs arbitrary: n)
  case (Cons y ys)
  show ?case
  proof (cases "y = x")
    case True
    with Cons.prems show ?thesis by (intro exI [of _ 0]) simp
  next
    case False
    with Cons.prems Cons.IH [of "Suc n"] obtain k where "k < length ys" "i = Suc n + k" "ys ! k = x"
      by auto
    then show ?thesis by (intro exI [of _ "Suc k"]) simp
  qed
qed simp

lemma position_from_None: "position_from n xs x = None \<longleftrightarrow> x \<notin> set xs"
  by (induction xs arbitrary: n) auto

lemma binary_search_None: "binary_search xs x = None \<longleftrightarrow> x \<notin> set xs"
  by (simp add: binary_search_def position_from_None)

lemma binary_search_Some:
  assumes "binary_search xs x = Some i"
  shows "i < length xs" and "xs ! i = x"
  using position_from_Some [of 0 xs x i] assms by (auto simp: binary_search_def)

section \<open>Forests\<close>

definition forest_ok :: "'a forest \<Rightarrow> bool" where
  "forest_ok f \<longleftrightarrow> distinct (identities f) \<and> length (parents f) = length (identities f)
     \<and> backward (parents f)"

definition members :: "'a forest \<Rightarrow> 'a set" where
  "members f = set (identities f)"

text \<open>The root of an identity, the number the components are keyed by.\<close>

definition rep :: "'a forest \<Rightarrow> 'a \<Rightarrow> nat" where
  "rep f x = (case binary_search (identities f) x of None \<Rightarrow> 0 | Some i \<Rightarrow> root (parents f) i)"

definition new_forest :: "'a list \<Rightarrow> 'a forest" where
  "new_forest ids = \<lparr>identities = ids, parents = [0..<length ids]\<rparr>"

lemma member_position:
  assumes "x \<in> members f"
  obtains i where "binary_search (identities f) x = Some i"
  using assms binary_search_None [of "identities f" x] by (auto simp: members_def)

lemma root_position_correct:
  assumes "forest_ok f" and "x \<in> members f"
  shows "\<exists>f'. root_position x f = Some (Inr (rep f x), f') \<and> forest_ok f'
     \<and> identities f' = identities f \<and> (\<forall>y. rep f' y = rep f y)"
proof -
  obtain i where i: "binary_search (identities f) x = Some i"
    using member_position [OF assms(2)] .
  then have "i < length (parents f)"
    using binary_search_Some(1) [OF i] assms(1) by (simp add: forest_ok_def)
  with assms(1) root_loop_correct [of "parents f" i] obtain ps where
    ps: "root_loop i (parents f) = Some (Inr (root (parents f) i), ps)" "length ps = length (parents f)"
      "backward ps" "\<forall>j. root ps j = root (parents f) j"
    by (auto simp: forest_ok_def)
  with i assms(1) show ?thesis
    by (auto simp: root_position_def rep_def forest_ok_def split: option.splits)
qed

lemma root_position_unknown:
  "x \<notin> members f \<Longrightarrow> root_position x f = Some (Inl Internal, f)"
  using binary_search_None [of "identities f" x] by (simp add: root_position_def members_def)

lemma rep_fixed:
  assumes "forest_ok f" and "x \<in> members f"
  shows "rep f x < length (parents f)" and "parents f ! rep f x = rep f x"
proof -
  obtain i where i: "binary_search (identities f) x = Some i"
    using member_position [OF assms(2)] .
  then have "i < length (parents f)"
    using binary_search_Some(1) [OF i] assms(1) by (simp add: forest_ok_def)
  with root_less_length [of i "parents f"] root_fixed [of "parents f" i] i assms(1)
  show "rep f x < length (parents f)" "parents f ! rep f x = rep f x"
    by (simp_all add: rep_def forest_ok_def)
qed

definition merged :: "nat \<Rightarrow> nat \<Rightarrow> nat \<Rightarrow> nat" where
  "merged a b c = (if c = a \<or> c = b then min a b else c)"

lemma forest_hang:
  assumes "forest_ok f" and "c < length (parents f)" and "parents f ! c = c"
    and "r < c" and "parents f ! r = r"
  shows "forest_ok (f\<lparr>parents := (parents f)[c := r]\<rparr>)"
    and "y \<in> members f \<Longrightarrow> rep (f\<lparr>parents := (parents f)[c := r]\<rparr>) y = merged r c (rep f y)"
proof -
  show "forest_ok (f\<lparr>parents := (parents f)[c := r]\<rparr>)"
    using assms by (auto simp: forest_ok_def intro: backward_update)
  show "rep (f\<lparr>parents := (parents f)[c := r]\<rparr>) y = merged r c (rep f y)" if y: "y \<in> members f"
  proof -
    obtain i where "binary_search (identities f) y = Some i"
      using member_position [OF y] .
    with root_merge [OF _ assms(2-5), of i] assms(1,4) show ?thesis
      by (auto simp: rep_def merged_def forest_ok_def)
  qed
qed

lemma forest_union_correct:
  assumes "forest_ok f" and "x \<in> members f" and "y \<in> members f"
  shows "\<exists>f'. forest_union x y f = Some (Inr (), f') \<and> forest_ok f' \<and> identities f' = identities f
     \<and> (\<forall>z \<in> members f. rep f' z = merged (rep f x) (rep f y) (rep f z))"
proof -
  obtain f1 where f1: "root_position x f = Some (Inr (rep f x), f1)" "forest_ok f1"
      "identities f1 = identities f" "\<forall>z. rep f1 z = rep f z"
    using root_position_correct [OF assms(1,2)] by blast
  have mem: "members f1 = members f" using f1(3) by (simp add: members_def)
  obtain f2 where f2: "root_position y f1 = Some (Inr (rep f y), f2)" "forest_ok f2"
      "identities f2 = identities f" "\<forall>z. rep f2 z = rep f z"
    using root_position_correct [OF f1(2), of y] mem assms(3) f1(3,4) by auto
  have mem2: "members f2 = members f" using f2(3) by (simp add: members_def)
  note fx = rep_fixed [OF f2(2), of x, unfolded mem2, OF assms(2)]
  note fy = rep_fixed [OF f2(2), of y, unfolded mem2, OF assms(3)]
  show ?thesis
  proof (cases "rep f x" "rep f y" rule: linorder_cases)
    case equal
    with f1(1) f2 show ?thesis
      by (intro exI [of _ f2]) (auto simp: forest_union_def merged_def)
  next
    case less
    then show ?thesis
      using f1(1) f2 fx fy forest_hang [OF f2(2), of "rep f y" "rep f x"] mem2
      by (auto simp: forest_union_def merged_def)
  next
    case greater
    then show ?thesis
      using f1(1) f2 fx fy forest_hang [OF f2(2), of "rep f x" "rep f y"] mem2
      by (auto simp: forest_union_def merged_def)
  qed
qed

section \<open>The partition a forest stands for\<close>

text \<open>
  The contract of a disjoint-set structure: merging two members keeps the members and
  identifies exactly their two classes.
\<close>

locale disjoint_sets =
  fixes ok :: "'s \<Rightarrow> bool"
    and carrier :: "'s \<Rightarrow> 'a set"
    and class_of :: "'s \<Rightarrow> 'a \<Rightarrow> nat"
    and merge :: "'a \<Rightarrow> 'a \<Rightarrow> 's \<Rightarrow> 's"
  assumes merge_ok: "ok s \<Longrightarrow> x \<in> carrier s \<Longrightarrow> y \<in> carrier s \<Longrightarrow> ok (merge x y s)"
    and merge_carrier: "ok s \<Longrightarrow> x \<in> carrier s \<Longrightarrow> y \<in> carrier s \<Longrightarrow> carrier (merge x y s) = carrier s"
    and merge_class: "ok s \<Longrightarrow> x \<in> carrier s \<Longrightarrow> y \<in> carrier s \<Longrightarrow> z \<in> carrier s \<Longrightarrow>
      class_of (merge x y s) z = merged (class_of s x) (class_of s y) (class_of s z)"

text \<open>The partition generated by a set of edges.\<close>

definition linked :: "('a \<times> 'a) set \<Rightarrow> ('a \<times> 'a) set" where
  "linked E = (E \<union> E\<inverse>)\<^sup>*"

definition partitions :: "'a set \<Rightarrow> ('a \<Rightarrow> nat) \<Rightarrow> ('a \<times> 'a) set \<Rightarrow> bool" where
  "partitions A c E \<longleftrightarrow> E \<subseteq> A \<times> A \<and> (\<forall>x \<in> A. \<forall>y \<in> A. c x = c y \<longleftrightarrow> (x, y) \<in> linked E)"

lemma linked_refl [simp]: "(x, x) \<in> linked E"
  by (simp add: linked_def)

lemma linked_sym: "(x, y) \<in> linked E \<Longrightarrow> (y, x) \<in> linked E"
  unfolding linked_def by (metis Un_commute converse_Un converse_converse rtrancl_converseD)

lemma linked_trans: "(x, y) \<in> linked E \<Longrightarrow> (y, z) \<in> linked E \<Longrightarrow> (x, z) \<in> linked E"
  unfolding linked_def by (rule rtrancl_trans)

lemma linked_edge: "(x, y) \<in> E \<Longrightarrow> (x, y) \<in> linked E"
  unfolding linked_def by blast

lemma linked_mono: "E \<subseteq> F \<Longrightarrow> linked E \<subseteq> linked F"
  unfolding linked_def by (intro rtrancl_mono) blast

lemma linked_subset: "E \<subseteq> linked F \<Longrightarrow> linked E \<subseteq> linked F"
proof -
  assume "E \<subseteq> linked F"
  then have "E \<union> E\<inverse> \<subseteq> linked F" by (auto intro: linked_sym)
  then have "linked E \<subseteq> (linked F)\<^sup>*" unfolding linked_def by (rule rtrancl_mono)
  then show ?thesis by (simp add: linked_def)
qed

lemma linked_insert:
  "(u, v) \<in> linked (insert (x, y) E) \<longleftrightarrow>
     (u, v) \<in> linked E \<or> (u, x) \<in> linked E \<and> (y, v) \<in> linked E
     \<or> (u, y) \<in> linked E \<and> (x, v) \<in> linked E"
proof
  assume "(u, v) \<in> linked (insert (x, y) E)"
  then have "(u, v) \<in> (insert (x, y) E \<union> (insert (x, y) E)\<inverse>)\<^sup>*" by (simp add: linked_def)
  then show "(u, v) \<in> linked E \<or> (u, x) \<in> linked E \<and> (y, v) \<in> linked E
     \<or> (u, y) \<in> linked E \<and> (x, v) \<in> linked E"
  proof (induction rule: rtrancl_induct)
    case (step v w)
    from step.hyps(2) consider "(v, w) \<in> linked E" | "v = x" "w = y" | "v = y" "w = x"
      by (auto intro: linked_edge linked_sym [OF linked_edge])
    then show ?case
      using step.IH by cases (blast intro: linked_trans linked_refl)+
  qed simp
next
  have sub: "linked E \<subseteq> linked (insert (x, y) E)" by (intro linked_mono) blast
  have xy: "(x, y) \<in> linked (insert (x, y) E)" by (intro linked_edge) simp
  assume "(u, v) \<in> linked E \<or> (u, x) \<in> linked E \<and> (y, v) \<in> linked E
     \<or> (u, y) \<in> linked E \<and> (x, v) \<in> linked E"
  then show "(u, v) \<in> linked (insert (x, y) E)"
    using sub xy linked_sym [OF xy] by (meson linked_trans subsetD)
qed

lemma merged_eq_iff:
  "merged a b c = merged a b d \<longleftrightarrow> c = d \<or> c = a \<and> d = b \<or> c = b \<and> d = a"
  by (auto simp: merged_def min_def)

context disjoint_sets
begin

lemma merge_partitions:
  assumes "ok s" and "x \<in> carrier s" and "y \<in> carrier s" and "partitions (carrier s) (class_of s) E"
  shows "partitions (carrier s) (class_of (merge x y s)) (insert (x, y) E)"
  unfolding partitions_def
proof (intro conjI ballI)
  show "insert (x, y) E \<subseteq> carrier s \<times> carrier s"
    using assms by (auto simp: partitions_def)
  fix u v assume uv: "u \<in> carrier s" "v \<in> carrier s"
  have "class_of (merge x y s) u = class_of (merge x y s) v \<longleftrightarrow>
      class_of s u = class_of s v \<or> class_of s u = class_of s x \<and> class_of s v = class_of s y
      \<or> class_of s u = class_of s y \<and> class_of s v = class_of s x"
    using merge_class [OF assms(1-3)] uv by (simp add: merged_eq_iff min_def)
  with assms uv show "class_of (merge x y s) u = class_of (merge x y s) v \<longleftrightarrow>
      (u, v) \<in> linked (insert (x, y) E)"
    unfolding linked_insert partitions_def by (metis linked_sym)
qed

end

text \<open>A successful union as a total operation.\<close>

definition forest_merge :: "'a \<Rightarrow> 'a \<Rightarrow> 'a forest \<Rightarrow> 'a forest" where
  "forest_merge x y f = (case forest_union x y f of Some (Inr _, f') \<Rightarrow> f' | _ \<Rightarrow> f)"

lemma forest_union_merge:
  assumes "forest_ok f" and "x \<in> members f" and "y \<in> members f"
  shows "forest_union x y f = Some (Inr (), forest_merge x y f)"
    and "forest_ok (forest_merge x y f)"
    and "identities (forest_merge x y f) = identities f"
    and "z \<in> members f \<Longrightarrow> rep (forest_merge x y f) z = merged (rep f x) (rep f y) (rep f z)"
  using forest_union_correct [OF assms] by (auto simp: forest_merge_def)

interpretation forest: disjoint_sets forest_ok members rep forest_merge
  by unfold_locales (simp_all add: forest_union_merge members_def [of "forest_merge _ _ _"]
      members_def [symmetric])

lemma partitions_linked_cong:
  "partitions A c E \<Longrightarrow> F \<subseteq> A \<times> A \<Longrightarrow> linked E = linked F \<Longrightarrow> partitions A c F"
  by (simp add: partitions_def)

lemma new_forest_partitions:
  assumes "distinct ids"
  shows "forest_ok (new_forest ids)" and "members (new_forest ids) = set ids"
    and "partitions (set ids) (rep (new_forest ids)) {}"
proof -
  show "forest_ok (new_forest ids)" "members (new_forest ids) = set ids"
    using assms by (simp_all add: forest_ok_def new_forest_def members_def backward_def)
  have "x = y" if xy: "x \<in> set ids" "y \<in> set ids" "rep (new_forest ids) x = rep (new_forest ids) y" for x y
  proof -
    from xy obtain i j where ij: "binary_search ids x = Some i" "binary_search ids y = Some j"
      using binary_search_None by (metis not_None_eq)
    have "root [0..<length ids] i = i" "root [0..<length ids] j = j"
      using binary_search_Some(1) [OF ij(1)] binary_search_Some(1) [OF ij(2)]
      by (simp_all add: root_of_fixed)
    with xy(3) ij have "i = j" by (simp add: rep_def new_forest_def)
    with ij show "x = y" using binary_search_Some(2) by metis
  qed
  then show "partitions (set ids) (rep (new_forest ids)) {}"
    by (auto simp: partitions_def linked_def)
qed

end
