(* ===== verification/Scan_Linking.thy ===== *)
theory Scan_Linking
  imports Scan_Components
begin

text \<open>
  What the components of \<open>Scan_Components\<close> are. An edge joins an unmatched base observation
  to an unmatched candidate observation with the same correlation key, in the same
  document or, with the same projection, across a rename. The nested loops of
  \<open>connect_candidates\<close> are flattened to one sequence of \<open>connect\<close> calls, each call is shown
  to add the complete bipartite edge set of its two groups, and the roots that come out
  are the classes of the edge relation.
\<close>

section \<open>Groups index their observations\<close>

definition group_model :: "observation list \<Rightarrow> document_group option \<Rightarrow> bool" where
  "group_model obs g \<longleftrightarrow>
     (case g of
        None \<Rightarrow> obs = []
      | Some grp \<Rightarrow> obs \<noteq> [] \<and> group_observations grp = obs \<and> btree_ok (group_projections grp)
          \<and> (\<forall>p. map_of (group_projections grp) p =
               (let ps = filter (\<lambda>o'. projection_digest o' = p) obs
                in if ps = [] then None else Some ps)))"

definition documents_model :: "observation list \<Rightarrow> (rpath, document_group) btree option \<Rightarrow> bool" where
  "documents_model obs docs \<longleftrightarrow>
     (case docs of
        None \<Rightarrow> obs = []
      | Some ds \<Rightarrow> obs \<noteq> [] \<and> btree_ok ds
          \<and> (\<forall>d. group_model (filter (\<lambda>o'. document o' = d) obs) (map_of ds d)))"

definition groups_model :: "sha256 \<Rightarrow> observation list \<Rightarrow> observation_groups \<Rightarrow> bool" where
  "groups_model sha obs groups \<longleftrightarrow> btree_ok groups
     \<and> (\<forall>k. documents_model (filter (\<lambda>o'. correlation_key sha o' = k) obs) (map_of groups k))"

lemma group_model_push:
  assumes "group_model obs g"
  shows "group_model (obs @ [x]) (Some (group_push x g))"
  using assms
  by (cases g) (auto simp: group_model_def group_push_def Let_def)

lemma documents_model_push:
  assumes "documents_model obs docs"
  shows "documents_model (obs @ [x])
     (Some (btree_alter (document x) (group_push x) (case docs of None \<Rightarrow> [] | Some ds \<Rightarrow> ds)))"
proof -
  let ?ds = "case docs of None \<Rightarrow> [] | Some ds \<Rightarrow> ds"
  have ds: "btree_ok ?ds" "\<And>d. group_model (filter (\<lambda>o'. document o' = d) obs) (map_of ?ds d)"
    using assms by (cases docs; simp add: documents_model_def group_model_def)+
  have "group_model (filter (\<lambda>o'. document o' = d) (obs @ [x]))
      (map_of (btree_alter (document x) (group_push x) ?ds) d)" for d
    using ds(2) [of d] group_model_push [OF ds(2) [of "document x"], of x]
    by (auto simp: map_of_btree_alter [OF ds(1)])
  with btree_ok_alter [OF ds(1)] show ?thesis by (simp add: documents_model_def)
qed

lemma groups_model_add:
  assumes "groups_model sha obs groups"
  shows "groups_model sha (obs @ [x]) (add_to_groups sha x groups)"
proof -
  have ok: "btree_ok groups"
    and docs: "\<And>k. documents_model (filter (\<lambda>o'. correlation_key sha o' = k) obs) (map_of groups k)"
    using assms by (auto simp: groups_model_def)
  have "documents_model (filter (\<lambda>o'. correlation_key sha o' = k) (obs @ [x]))
      (map_of (add_to_groups sha x groups) k)" for k
    using docs [of k] documents_model_push [OF docs [of "correlation_key sha x"], of x]
    by (auto simp: add_to_groups_def map_of_btree_alter [OF ok])
  with btree_ok_alter [OF ok] show ?thesis
    by (simp add: groups_model_def add_to_groups_def)
qed

lemma groups_model_fold:
  "groups_model sha obs groups \<Longrightarrow>
     groups_model sha (obs @ xs) (fold (add_to_groups sha) xs groups)"
proof (induction xs arbitrary: obs groups)
  case (Cons x xs)
  from Cons.IH [OF groups_model_add [OF Cons.prems], of x] show ?case by simp
qed simp

lemma observation_groups_Inr:
  "observation_groups sha (map Inr xs) = Inr (fold (add_to_groups sha) xs [])"
proof -
  have "rfold (\<lambda>item groups. rbind item (\<lambda>obs. Inr (add_to_groups sha obs groups))) (map Inr xs) g
      = Inr (fold (add_to_groups sha) xs g)" for g
    by (induction xs arbitrary: g) simp_all
  then show ?thesis by (simp add: observation_groups_def)
qed

lemma groups_model_observation_groups:
  assumes "observation_groups sha (map Inr xs) = Inr groups"
  shows "groups_model sha xs groups"
proof -
  have "groups_model sha [] []"
    by (simp add: groups_model_def documents_model_def)
  from groups_model_fold [OF this, of xs] assms show ?thesis
    by (simp add: observation_groups_Inr)
qed

section \<open>The loops as one sequence of connections\<close>

lemma op_bind_return [simp]: "op_bind op op_return = op" "op_bind (op_return a) k = k a"
  by (auto simp: fun_eq_iff op_bind_def op_return_def split: option.splits prod.splits sum.splits)

lemma op_bind_assoc: "op_bind (op_bind op k) h = op_bind op (\<lambda>a. op_bind (k a) h)"
  by (auto simp: fun_eq_iff op_bind_def split: option.splits prod.splits sum.splits)

lemma op_bind_unit [simp]: "op_bind op (\<lambda>_. op_return ()) = op"
  by (auto simp: fun_eq_iff op_bind_def op_return_def split: option.splits prod.splits sum.splits)

lemma op_each_append: "op_each g (xs @ ys) = op_bind (op_each g xs) (\<lambda>_. op_each g ys)"
  by (induction xs) (simp_all add: op_bind_assoc)

lemma op_each_concat: "op_each (\<lambda>x. op_each g (h x)) xs = op_each g (concat (map h xs))"
  by (induction xs) (simp_all add: op_each_append)

lemma op_each_cong: "(\<And>x. x \<in> set xs \<Longrightarrow> g x = h x) \<Longrightarrow> op_each g xs = op_each h xs"
  by (induction xs) simp_all

type_synonym block = "observation list \<times> observation list"

definition connect_block :: "block \<Rightarrow> unit forest_op" where
  "connect_block b = connect (fst b) (snd b)"

definition projection_blocks :: "document_group \<Rightarrow> document_group \<Rightarrow> block list" where
  "projection_blocks base_group candidate_group =
     concat (map (\<lambda>(projection, base_ids).
         case map_of (group_projections candidate_group) projection of
           None \<Rightarrow> [] | Some candidate_ids \<Rightarrow> [(base_ids, candidate_ids)])
       (group_projections base_group))"

definition document_blocks ::
  "(rpath, document_group) btree \<Rightarrow> (rpath, rpath) btree \<Rightarrow> rpath \<times> document_group \<Rightarrow> block list" where
  "document_blocks candidate_documents renames entry =
     (case entry of (base_document, base_group) \<Rightarrow>
        (case map_of candidate_documents base_document of
           None \<Rightarrow> []
         | Some g \<Rightarrow> [(group_observations base_group, group_observations g)])
        @ (case map_of renames base_document of
             None \<Rightarrow> []
           | Some d \<Rightarrow> (case map_of candidate_documents d of
                 None \<Rightarrow> [] | Some g \<Rightarrow> projection_blocks base_group g)))"

definition candidate_blocks ::
  "observation_groups \<Rightarrow> observation_groups \<Rightarrow> (rpath, rpath) btree \<Rightarrow> block list" where
  "candidate_blocks base_groups candidate_groups renames =
     concat (map (\<lambda>(key, base_documents).
         case map_of candidate_groups key of
           None \<Rightarrow> []
         | Some ds \<Rightarrow> concat (map (document_blocks ds renames) base_documents)) base_groups)"

lemma projection_blocks_each:
  "op_each (\<lambda>(projection, base_ids).
       case map_of (group_projections g) projection of
         None \<Rightarrow> op_return () | Some candidate_ids \<Rightarrow> connect base_ids candidate_ids)
     (group_projections b) = op_each connect_block (projection_blocks b g)"
proof -
  have "op_each (\<lambda>(projection, base_ids).
       case map_of (group_projections g) projection of
         None \<Rightarrow> op_return () | Some candidate_ids \<Rightarrow> connect base_ids candidate_ids) (group_projections b)
    = op_each (\<lambda>x. op_each connect_block
         (case x of (p, base_ids) \<Rightarrow>
           (case map_of (group_projections g) p of
              None \<Rightarrow> [] | Some candidate_ids \<Rightarrow> [(base_ids, candidate_ids)]))) (group_projections b)"
    by (rule op_each_cong) (auto simp: connect_block_def split: option.splits)
  also have "\<dots> = op_each connect_block (projection_blocks b g)"
    by (simp add: op_each_concat projection_blocks_def)
  finally show ?thesis .
qed

lemma document_blocks_each:
  "connect_document ds renames entry = op_each connect_block (document_blocks ds renames entry)"
  by (cases entry)
    (auto simp: connect_document_def document_blocks_def projection_blocks_each op_each_append
      connect_block_def split: option.splits)

lemma connect_candidates_blocks:
  "connect_candidates bs cs renames = op_each connect_block (candidate_blocks bs cs renames)"
proof -
  have "connect_candidates bs cs renames =
      op_each (\<lambda>x. op_each connect_block
        (case x of (key, base_documents) \<Rightarrow>
          (case map_of cs key of
             None \<Rightarrow> [] | Some ds \<Rightarrow> concat (map (document_blocks ds renames) base_documents)))) bs"
    unfolding connect_candidates_def
    by (rule op_each_cong)
      (auto simp: op_each_concat [symmetric] document_blocks_each [abs_def] split: option.splits)
  also have "\<dots> = op_each connect_block (candidate_blocks bs cs renames)"
    by (simp add: op_each_concat candidate_blocks_def)
  finally show ?thesis .
qed

section \<open>Connections add complete bipartite edge sets\<close>

definition forest_state :: "digest forest \<Rightarrow> digest set \<Rightarrow> (digest \<times> digest) set \<Rightarrow> bool" where
  "forest_state f A E \<longleftrightarrow> forest_ok f \<and> members f = A \<and> partitions A (rep f) E"

lemma forest_state_union:
  assumes "forest_state f A E" and "x \<in> A" and "y \<in> A"
  shows "\<exists>f'. forest_union x y f = Some (Inr (), f') \<and> forest_state f' A (insert (x, y) E)"
proof -
  have f: "forest_ok f" "members f = A" "partitions A (rep f) E"
    using assms(1) by (simp_all add: forest_state_def)
  note u = forest_union_merge [OF f(1), unfolded f(2), OF assms(2,3)]
  have "members (forest_merge x y f) = A"
    using u(3) f(2) by (simp add: members_def)
  moreover have "partitions A (rep (forest_merge x y f)) (insert (x, y) E)"
    using forest.merge_partitions [OF f(1), unfolded f(2), OF assms(2,3) f(3)] .
  ultimately show ?thesis using u(1,2) by (auto simp: forest_state_def)
qed

definition union_pair :: "digest \<times> digest \<Rightarrow> unit forest_op" where
  "union_pair e = forest_union (fst e) (snd e)"

lemma forest_state_unions:
  assumes "forest_state f A E" and "set es \<subseteq> A \<times> A"
  shows "\<exists>f'. op_each union_pair es f = Some (Inr (), f') \<and> forest_state f' A (E \<union> set es)"
  using assms
proof (induction es arbitrary: f E)
  case Nil
  then show ?case by (simp add: op_return_def)
next
  case (Cons e es)
  obtain x y where e: "e = (x, y)" by (rule prod.exhaust)
  with Cons.prems forest_state_union [OF Cons.prems(1), of x y] obtain f1 where
    f1: "forest_union x y f = Some (Inr (), f1)" "forest_state f1 A (insert (x, y) E)" by auto
  from Cons.IH [OF f1(2)] Cons.prems(2) obtain f2 where
    f2: "op_each union_pair es f1 = Some (Inr (), f2)" "forest_state f2 A (insert (x, y) E \<union> set es)"
    by auto
  have "op_each union_pair (e # es) f = Some (Inr (), f2)"
    using f1(1) f2(1) by (simp add: op_bind_def union_pair_def e)
  moreover have "insert (x, y) E \<union> set es = E \<union> set (e # es)" by (simp add: e)
  ultimately show ?case using f2(2) by simp
qed

definition star :: "digest list \<Rightarrow> digest list \<Rightarrow> (digest \<times> digest) list" where
  "star left right =
     (case (left, right) of
        (l # _, r # rs) \<Rightarrow> map (\<lambda>x. (x, r)) left @ map (\<lambda>y. (l, y)) rs
      | _ \<Rightarrow> [])"

lemma op_each_map: "op_each g (map h xs) = op_each (\<lambda>x. g (h x)) xs"
  by (induction xs) simp_all

lemma connect_star: "connect left right = op_each union_pair (star (map obs_id left) (map obs_id right))"
  by (cases left; cases right)
    (simp_all add: connect_def star_def op_each_append op_each_map union_pair_def op_bind_assoc)

lemma star_subset: "set (star left right) \<subseteq> set left \<times> set right"
  by (cases left; cases right) (auto simp: star_def)

lemma linked_star: "linked (E \<union> set (star left right)) = linked (E \<union> set left \<times> set right)"
proof
  show "linked (E \<union> set (star left right)) \<subseteq> linked (E \<union> set left \<times> set right)"
    using star_subset by (intro linked_mono) blast
  have "(x, y) \<in> linked (E \<union> set (star left right))" if xy: "x \<in> set left" "y \<in> set right" for x y
  proof -
    obtain l ls r rs where lr: "left = l # ls" "right = r # rs"
      using xy by (metis list.exhaust list.set(1) empty_iff)
    let ?S = "E \<union> set (star left right)"
    have x: "(x, r) \<in> linked ?S" and l: "(l, r) \<in> linked ?S"
      using xy lr by (auto simp: star_def intro!: linked_edge)
    show ?thesis
    proof (cases "y = r")
      case False
      with xy lr have "(l, y) \<in> linked ?S" by (auto simp: star_def intro!: linked_edge)
      with x l show ?thesis by (meson linked_sym linked_trans)
    qed (use x in simp)
  qed
  then show "linked (E \<union> set left \<times> set right) \<subseteq> linked (E \<union> set (star left right))"
    by (intro linked_subset) (auto intro: linked_edge)
qed

definition block_edges :: "block \<Rightarrow> (digest \<times> digest) set" where
  "block_edges b = (obs_id ` set (fst b)) \<times> (obs_id ` set (snd b))"

lemma forest_state_connect:
  assumes "forest_state f A E" and "block_edges b \<subseteq> A \<times> A"
  shows "\<exists>f'. connect_block b f = Some (Inr (), f') \<and> forest_state f' A (E \<union> block_edges b)"
proof -
  let ?s = "star (map obs_id (fst b)) (map obs_id (snd b))"
  have sub: "set ?s \<subseteq> A \<times> A"
    using star_subset [of "map obs_id (fst b)" "map obs_id (snd b)"] assms(2)
    by (auto simp: block_edges_def)
  obtain f' where f': "op_each union_pair ?s f = Some (Inr (), f')" "forest_state f' A (E \<union> set ?s)"
    using forest_state_unions [OF assms(1) sub] by blast
  have "linked (E \<union> set ?s) = linked (E \<union> block_edges b)"
    using linked_star [of E "map obs_id (fst b)" "map obs_id (snd b)"] by (simp add: block_edges_def)
  with f'(2) assms have "forest_state f' A (E \<union> block_edges b)"
    by (auto simp: forest_state_def partitions_def)
  with f'(1) show ?thesis by (auto simp: connect_block_def connect_star)
qed

lemma forest_state_blocks:
  assumes "forest_state f A E" and "(\<Union>b \<in> set bs. block_edges b) \<subseteq> A \<times> A"
  shows "\<exists>f'. op_each connect_block bs f = Some (Inr (), f')
     \<and> forest_state f' A (E \<union> (\<Union>b \<in> set bs. block_edges b))"
  using assms
proof (induction bs arbitrary: f E)
  case Nil
  then show ?case by (simp add: op_return_def)
next
  case (Cons b bs)
  then obtain f1 where f1: "connect_block b f = Some (Inr (), f1)" "forest_state f1 A (E \<union> block_edges b)"
    using forest_state_connect [OF Cons.prems(1), of b] by auto
  from Cons.IH [OF f1(2)] Cons.prems(2) obtain f2 where
    "op_each connect_block bs f1 = Some (Inr (), f2)"
    "forest_state f2 A (E \<union> block_edges b \<union> (\<Union>b \<in> set bs. block_edges b))" by auto
  with f1(1) show ?case by (simp add: op_bind_def Un_assoc)
qed

section \<open>Which edges\<close>

definition plausible :: "sha256 \<Rightarrow> (rpath, rpath) btree \<Rightarrow> observation \<Rightarrow> observation \<Rightarrow> bool" where
  "plausible sha renames b c \<longleftrightarrow> correlation_key sha b = correlation_key sha c
     \<and> (document b = document c
        \<or> map_of renames (document b) = Some (document c)
          \<and> projection_digest b = projection_digest c)"

definition plausible_edges ::
  "sha256 \<Rightarrow> (rpath, rpath) btree \<Rightarrow> observation list \<Rightarrow> observation list \<Rightarrow> (digest \<times> digest) set" where
  "plausible_edges sha renames bs cs =
     {(obs_id b, obs_id c) | b c. b \<in> set bs \<and> c \<in> set cs \<and> plausible sha renames b c}"

lemma projection_blocks_edges:
  assumes "group_model bs (Some g)" and "group_model cs (Some h)"
  shows "(\<Union>b \<in> set (projection_blocks g h). block_edges b) =
     {(obs_id b, obs_id c) | b c. b \<in> set bs \<and> c \<in> set cs \<and> projection_digest b = projection_digest c}"
    (is "?L = ?R")
proof
  have g: "btree_ok (group_projections g)"
      "map_of (group_projections g) p = Some xs \<longleftrightarrow>
         xs = filter (\<lambda>o'. projection_digest o' = p) bs \<and> xs \<noteq> []" for p xs
    using assms(1) by (auto simp: group_model_def Let_def)
  have h: "map_of (group_projections h) p = Some xs \<longleftrightarrow>
         xs = filter (\<lambda>o'. projection_digest o' = p) cs \<and> xs \<noteq> []" for p xs
    using assms(2) by (auto simp: group_model_def Let_def)
  have mem: "blk \<in> set (projection_blocks g h) \<longleftrightarrow>
      (\<exists>p. blk = (filter (\<lambda>o'. projection_digest o' = p) bs, filter (\<lambda>o'. projection_digest o' = p) cs)
        \<and> fst blk \<noteq> [] \<and> snd blk \<noteq> [])" for blk
    by (auto simp: projection_blocks_def btree_entries_iff [OF g(1)] g(2) h split: option.splits)
      (metis g(2) h btree_entries_iff [OF g(1)] option.distinct(1) not_None_eq)+
  show "?L \<subseteq> ?R" by (auto simp: mem block_edges_def) metis
  show "?R \<subseteq> ?L"
  proof clarify
    fix b c assume bc: "b \<in> set bs" "c \<in> set cs" "projection_digest b = projection_digest c"
    let ?blk = "(filter (\<lambda>o'. projection_digest o' = projection_digest b) bs,
      filter (\<lambda>o'. projection_digest o' = projection_digest b) cs)"
    have "b \<in> set (fst ?blk)" "c \<in> set (snd ?blk)" using bc by auto
    then have "?blk \<in> set (projection_blocks g h)" unfolding mem by (metis fst_conv snd_conv empty_iff list.set(1))
    moreover have "(obs_id b, obs_id c) \<in> block_edges ?blk"
      using bc by (auto simp: block_edges_def)
    ultimately show "(obs_id b, obs_id c) \<in> ?L" by blast
  qed
qed

lemma group_model_cases:
  assumes "group_model obs (m :: document_group option)"
  obtains "m = None" "obs = []" | g where "m = Some g" "obs \<noteq> []" "group_observations g = obs"
  using assms by (cases m) (auto simp: group_model_def)

definition document_edges ::
  "(rpath, rpath) btree \<Rightarrow> rpath \<Rightarrow> observation list \<Rightarrow> observation list \<Rightarrow> (digest \<times> digest) set" where
  "document_edges renames d bs cs =
     {(obs_id b, obs_id c) | b c. b \<in> set bs \<and> c \<in> set cs \<and> document b = d
        \<and> (document c = d
           \<or> map_of renames d = Some (document c) \<and> projection_digest b = projection_digest c)}"

lemma same_document_edges:
  assumes "group_model cs' m" and "cs' = filter (\<lambda>o'. document o' = d) cs"
    and "group_observations g = filter (\<lambda>o'. document o' = d) bs"
  shows "(\<Union>b \<in> set (case m of None \<Rightarrow> [] | Some h \<Rightarrow> [(group_observations g, group_observations h)]).
       block_edges b)
     = {(obs_id b, obs_id c) | b c. b \<in> set bs \<and> c \<in> set cs \<and> document b = d \<and> document c = d}"
proof -
  have "set cs' = {c \<in> set cs. document c = d}" "set (group_observations g) = {b \<in> set bs. document b = d}"
    using assms(2,3) by auto
  then show ?thesis
    by (cases rule: group_model_cases [OF assms(1)]) (auto simp: block_edges_def)
qed

lemma renamed_edges:
  assumes "group_model bs' (Some g)" and "bs' = filter (\<lambda>o'. document o' = d) bs"
    and "group_model cs' m" and "cs' = filter (\<lambda>o'. document o' = e) cs"
  shows "(\<Union>b \<in> set (case m of None \<Rightarrow> [] | Some h \<Rightarrow> projection_blocks g h). block_edges b)
     = {(obs_id b, obs_id c) | b c. b \<in> set bs \<and> c \<in> set cs \<and> document b = d \<and> document c = e
          \<and> projection_digest b = projection_digest c}"
proof -
  have sets: "set cs' = {c \<in> set cs. document c = e}" "set bs' = {b \<in> set bs. document b = d}"
    using assms(2,4) by auto
  show ?thesis
  proof (cases m)
    case None
    with assms(3) sets(1) show ?thesis by (auto simp: group_model_def)
  next
    case (Some h)
    with projection_blocks_edges [OF assms(1), of cs' h] assms(3) show ?thesis
      by (simp add: sets) blast
  qed
qed

lemma document_blocks_edges:
  assumes "documents_model bs (Some bdocs)" and "documents_model cs (Some cdocs)"
    and "map_of bdocs d = Some g"
  shows "(\<Union>b \<in> set (document_blocks cdocs renames (d, g)). block_edges b) = document_edges renames d bs cs"
proof -
  have b: "group_model (filter (\<lambda>o'. document o' = d) bs) (Some g)"
    and c: "\<And>e. group_model (filter (\<lambda>o'. document o' = e) cs) (map_of cdocs e)"
    using assms by (auto simp: documents_model_def dest: spec [of _ d])
  have obs: "group_observations g = filter (\<lambda>o'. document o' = d) bs"
    using b by (simp add: group_model_def)
  note same = same_document_edges [OF c refl obs]
  note renamed = renamed_edges [OF b refl c refl]
  show ?thesis
  proof (cases "map_of renames d")
    case None
    then show ?thesis
      unfolding document_blocks_def prod.case option.case set_append UN_Un None same
      by (auto simp: document_edges_def None)
  next
    case (Some e)
    then show ?thesis
      unfolding document_blocks_def prod.case option.case set_append UN_Un Some same renamed
        document_edges_def option.inject by blast
  qed
qed

lemma UN_fst:
  assumes "\<And>k. k \<notin> fst ` set m \<Longrightarrow> F k = {}"
  shows "(\<Union>e \<in> set m. F (fst e)) = (\<Union>k. F k)"
proof
  show "(\<Union>k. F k) \<subseteq> (\<Union>e \<in> set m. F (fst e))"
  proof (rule UN_least)
    fix k show "F k \<subseteq> (\<Union>e \<in> set m. F (fst e))"
      using assms [of k] by (cases "k \<in> fst ` set m") auto
  qed
qed blast

lemma documents_blocks_edges:
  assumes "documents_model bs (Some bdocs)" and "documents_model cs m"
  shows "(\<Union>b \<in> set (case m of None \<Rightarrow> []
        | Some cdocs \<Rightarrow> concat (map (document_blocks cdocs renames) bdocs)). block_edges b)
     = (\<Union>d. document_edges renames d bs cs)"
proof (cases m)
  case None
  with assms(2) show ?thesis by (simp add: documents_model_def document_edges_def)
next
  case (Some cdocs)
  have ok: "btree_ok bdocs"
    and model: "\<And>d. group_model (filter (\<lambda>o'. document o' = d) bs) (map_of bdocs d)"
    using assms(1) by (auto simp: documents_model_def)
  have "(\<Union>b \<in> set (concat (map (document_blocks cdocs renames) bdocs)). block_edges b)
      = (\<Union>e \<in> set bdocs. \<Union>b \<in> set (document_blocks cdocs renames e). block_edges b)" by auto
  also have "\<dots> = (\<Union>e \<in> set bdocs. document_edges renames (fst e) bs cs)"
  proof (rule SUP_cong [OF refl])
    fix e assume "e \<in> set bdocs"
    then have "map_of bdocs (fst e) = Some (snd e)" using btree_entries_iff [OF ok, of "fst e" "snd e"] by simp
    from document_blocks_edges [OF assms(1) assms(2) [unfolded Some] this]
    show "(\<Union>b \<in> set (document_blocks cdocs renames e). block_edges b) = document_edges renames (fst e) bs cs"
      by simp
  qed
  also have "\<dots> = (\<Union>d. document_edges renames d bs cs)"
  proof -
    have "document_edges renames d bs cs = {}" if "d \<notin> fst ` set bdocs" for d
    proof -
      from that have "map_of bdocs d = None" by (simp add: map_of_eq_None_iff)
      with model [of d] have "filter (\<lambda>o'. document o' = d) bs = []" by (simp add: group_model_def)
      then show ?thesis by (auto simp: document_edges_def filter_empty_conv)
    qed
    then show ?thesis by (rule UN_fst)
  qed
  finally show ?thesis by (simp add: Some)
qed

lemma document_edges_plausible:
  "(\<Union>k. \<Union>d. document_edges renames d (filter (\<lambda>o'. correlation_key sha o' = k) bs)
       (filter (\<lambda>o'. correlation_key sha o' = k) cs)) = plausible_edges sha renames bs cs" (is "?L = ?R")
proof
  show "?L \<subseteq> ?R"
    by (force simp: document_edges_def plausible_edges_def plausible_def)
  show "?R \<subseteq> ?L"
  proof
    fix e assume "e \<in> ?R"
    then obtain b c where e: "e = (obs_id b, obs_id c)" "b \<in> set bs" "c \<in> set cs" "plausible sha renames b c"
      by (auto simp: plausible_edges_def)
    then have "e \<in> document_edges renames (document b)
        (filter (\<lambda>o'. correlation_key sha o' = correlation_key sha b) bs)
        (filter (\<lambda>o'. correlation_key sha o' = correlation_key sha b) cs)"
      unfolding document_edges_def plausible_def set_filter mem_Collect_eq
      by (intro exI [of _ b] exI [of _ c]) auto
    then show "e \<in> ?L" by blast
  qed
qed

lemma candidate_blocks_edges:
  assumes "groups_model sha bs bgroups" and "groups_model sha cs cgroups"
  shows "(\<Union>b \<in> set (candidate_blocks bgroups cgroups renames). block_edges b) = plausible_edges sha renames bs cs"
proof -
  let ?B = "\<lambda>k. filter (\<lambda>o'. correlation_key sha o' = k) bs"
  let ?C = "\<lambda>k. filter (\<lambda>o'. correlation_key sha o' = k) cs"
  have ok: "btree_ok bgroups"
    and b: "\<And>k. documents_model (?B k) (map_of bgroups k)"
    and c: "\<And>k. documents_model (?C k) (map_of cgroups k)"
    using assms by (auto simp: groups_model_def)
  have "(\<Union>b \<in> set (candidate_blocks bgroups cgroups renames). block_edges b)
      = (\<Union>e \<in> set bgroups. \<Union>b \<in> set (case map_of cgroups (fst e) of None \<Rightarrow> []
            | Some ds \<Rightarrow> concat (map (document_blocks ds renames) (snd e))). block_edges b)"
    by (simp add: candidate_blocks_def case_prod_unfold)
  also have "\<dots> = (\<Union>e \<in> set bgroups. \<Union>d. document_edges renames d (?B (fst e)) (?C (fst e)))"
  proof (rule SUP_cong [OF refl])
    fix e assume "e \<in> set bgroups"
    then have "map_of bgroups (fst e) = Some (snd e)"
      using btree_entries_iff [OF ok, of "fst e" "snd e"] by simp
    with b [of "fst e"] have "documents_model (?B (fst e)) (Some (snd e))" by simp
    from documents_blocks_edges [OF this c [of "fst e"]]
    show "(\<Union>b \<in> set (case map_of cgroups (fst e) of None \<Rightarrow> []
        | Some ds \<Rightarrow> concat (map (document_blocks ds renames) (snd e))). block_edges b)
      = (\<Union>d. document_edges renames d (?B (fst e)) (?C (fst e)))" .
  qed
  also have "\<dots> = (\<Union>k. \<Union>d. document_edges renames d (?B k) (?C k))"
  proof -
    have "(\<Union>d. document_edges renames d (?B k) (?C k)) = {}" if "k \<notin> fst ` set bgroups" for k
    proof -
      from that have "map_of bgroups k = None" by (simp add: map_of_eq_None_iff)
      with b [of k] have "?B k = []" by (simp add: documents_model_def)
      then show ?thesis by (auto simp: document_edges_def filter_empty_conv)
    qed
    then show ?thesis by (rule UN_fst)
  qed
  also have "\<dots> = plausible_edges sha renames bs cs"
    by (rule document_edges_plausible)
  finally show ?thesis .
qed

section \<open>Pools\<close>

definition pick :: "observation list \<Rightarrow> digest \<Rightarrow> observation" where
  "pick obs i = hd (filter (\<lambda>o'. obs_id o' = i) obs)"

lemma pick_obs_id:
  assumes "i \<in> obs_id ` set obs"
  shows "obs_id (pick obs i) = i" and "pick obs i \<in> set obs"
proof -
  have "filter (\<lambda>o'. obs_id o' = i) obs \<noteq> []" using assms by (auto simp: filter_empty_conv)
  then have "pick obs i \<in> set (filter (\<lambda>o'. obs_id o' = i) obs)" unfolding pick_def by (rule hd_in_set)
  then show "obs_id (pick obs i) = i" "pick obs i \<in> set obs" by auto
qed

lemma pick_self:
  assumes "distinct (map obs_id obs)" and "x \<in> set obs"
  shows "pick obs (obs_id x) = x"
proof -
  have "obs_id (pick obs (obs_id x)) = obs_id x" "pick obs (obs_id x) \<in> set obs"
    using pick_obs_id [of "obs_id x" obs] assms(2) by auto
  with assms show ?thesis by (auto simp: distinct_map dest: inj_onD)
qed

lemma mset_map_pick:
  assumes "distinct (map obs_id obs)" and "mset ids = mset (map obs_id obs)"
  shows "mset (map (pick obs) ids) = mset obs"
proof -
  have "mset (map (pick obs) ids) = image_mset (pick obs) (mset (map obs_id obs))"
    using assms(2) by (metis mset_map)
  also have "\<dots> = image_mset (\<lambda>x. x) (mset obs)"
    unfolding mset_map multiset.map_comp comp_def
    by (rule image_mset_cong) (simp add: pick_self [OF assms(1)])
  finally show ?thesis by simp
qed

definition pool_ok :: "observation_pool \<Rightarrow> bool" where
  "pool_ok pool \<longleftrightarrow> distinct (map obs_id (pool_observations pool)) \<and> btree_ok (positions pool)
     \<and> (\<forall>i p. map_of (positions pool) i = Some p \<longleftrightarrow>
          p < length (pool_observations pool) \<and> obs_id (pool_observations pool ! p) = i)"

lemma pool_positions:
  defines "step \<equiv> \<lambda>(position, obs) m.
      if contains_key m (obs_id obs) then Inl Internal
      else Inr (btree_insert (obs_id obs) position m)"
  shows "case rfold step (enumerate 0 obs) [] of
      Inl e \<Rightarrow> e = Internal \<and> \<not> distinct (map obs_id obs)
    | Inr m \<Rightarrow> pool_ok \<lparr>pool_observations = obs, positions = m\<rparr>"
proof (induction obs rule: rev_induct)
  case Nil
  then show ?case by (simp add: pool_ok_def)
next
  case (snoc x xs)
  show ?case
  proof (cases "rfold step (enumerate 0 xs) []")
    case (Inl e)
    with snoc show ?thesis by (simp add: enumerate_append_eq rfold_append)
  next
    case (Inr m)
    with snoc have ok: "pool_ok \<lparr>pool_observations = xs, positions = m\<rparr>" by simp
    then have m: "btree_ok m" "distinct (map obs_id xs)"
        "\<And>i p. map_of m i = Some p \<longleftrightarrow> p < length xs \<and> obs_id (xs ! p) = i"
      by (auto simp: pool_ok_def)
    have mem: "map_of m i = None \<longleftrightarrow> i \<notin> obs_id ` set xs" for i
      unfolding not_Some_eq [symmetric] m(3) by (auto simp: set_conv_nth image_iff)
    show ?thesis
    proof (cases "obs_id x \<in> obs_id ` set xs")
      case True
      then show ?thesis
        using mem [of "obs_id x"]
        by (simp add: enumerate_append_eq rfold_append Inr) (simp add: step_def contains_key_def)
    next
      case False
      then have "\<forall>p < length xs. obs_id (xs ! p) \<noteq> obs_id x" by (metis imageI nth_mem)
      with False m mem have "pool_ok \<lparr>pool_observations = xs @ [x],
          positions = btree_insert (obs_id x) (length xs) m\<rparr>"
        by (auto simp: pool_ok_def nth_append less_Suc_eq)
      with False show ?thesis
        using mem [of "obs_id x"]
        by (simp add: enumerate_append_eq rfold_append Inr) (simp add: step_def contains_key_def)
    qed
  qed
qed

lemma pool_new_cases:
  obtains (duplicate) "pool_new obs = Inl Internal" "\<not> distinct (map obs_id obs)"
    | (pool) pool where "pool_new obs = Inr pool" "pool_ok pool" "pool_observations pool = obs"
        "distinct (map obs_id obs)"
  using pool_positions [of obs]
  by (auto simp: pool_new_def rbind_def pool_ok_def split: sum.splits)

lemma pool_keys:
  assumes "pool_ok pool"
  shows "map fst (positions pool) = sort (map obs_id (pool_observations pool))"
proof -
  have "set (map fst (positions pool)) = obs_id ` set (pool_observations pool)"
  proof -
    have "i \<in> fst ` set (positions pool) \<longleftrightarrow> (\<exists>p. map_of (positions pool) i = Some p)" for i
      by (metis map_of_eq_None_iff not_None_eq)
    moreover have "(\<exists>p. map_of (positions pool) i = Some p) \<longleftrightarrow> i \<in> obs_id ` set (pool_observations pool)" for i
      using assms by (auto simp: pool_ok_def set_conv_nth image_iff)
    ultimately show ?thesis by auto
  qed
  with assms show ?thesis
    by (intro sorted_distinct_set_unique)
      (auto simp: pool_ok_def btree_ok_def strict_sorted_iff)
qed

lemma pool_observation_pick:
  assumes "pool_ok pool" and "i \<in> obs_id ` set (pool_observations pool)"
  shows "pool_observation pool i = Inr (pick (pool_observations pool) i)"
proof -
  from assms(2) obtain p where p: "p < length (pool_observations pool)" "obs_id (pool_observations pool ! p) = i"
    by (auto simp: in_set_conv_nth)
  with assms(1) have "map_of (positions pool) i = Some p" by (simp add: pool_ok_def)
  moreover have "pick (pool_observations pool) i = pool_observations pool ! p"
    using pick_self [of "pool_observations pool" "pool_observations pool ! p"] assms(1) p
    by (simp add: pool_ok_def)
  ultimately show ?thesis using p by (simp add: pool_observation_def get_at_def)
qed

lemma order_targets:
  defines "step \<equiv> \<lambda>(target, i) m. if m i \<noteq> None then Inl Internal else Inr (m(i \<mapsto> target))"
  assumes "distinct ids"
  shows "\<exists>m. rfold step (enumerate 0 ids) Map.empty = Inr m
     \<and> (\<forall>i t. m i = Some t \<longleftrightarrow> t < length ids \<and> ids ! t = i)"
  using assms(2)
proof (induction ids rule: rev_induct)
  case (snoc i ids)
  then obtain m where m: "rfold step (enumerate 0 ids) Map.empty = Inr m"
      "\<And>i t. m i = Some t \<longleftrightarrow> t < length ids \<and> ids ! t = i" by auto
  have fresh: "\<forall>t < length ids. ids ! t \<noteq> i" using snoc.prems by auto
  then have "m i = None" using m(2) by (metis not_None_eq)
  with m(1) have "rfold step (enumerate 0 (ids @ [i])) Map.empty = Inr (m(i \<mapsto> length ids))"
    by (simp add: enumerate_append_eq rfold_append) (simp add: step_def)
  moreover have "(m(i \<mapsto> length ids)) j = Some t \<longleftrightarrow> t < length (ids @ [i]) \<and> (ids @ [i]) ! t = j" for j t
    using fresh by (auto simp: m(2) nth_append less_Suc_eq)
  ultimately show ?case by blast
qed simp

lemma into_order_pick:
  assumes "pool_ok pool" and "mset ids = mset (map obs_id (pool_observations pool))"
  shows "into_order pool ids = Inr (map (pick (pool_observations pool)) ids)"
proof -
  let ?obs = "pool_observations pool" and ?ys = "map (pick (pool_observations pool)) ids"
  have d: "distinct (map obs_id ?obs)" using assms(1) by (simp add: pool_ok_def)
  have dids: "distinct ids" using d mset_eq_imp_distinct_iff [OF assms(2)] by simp
  have ids: "set ids = obs_id ` set ?obs" using mset_eq_setD [OF assms(2)] by simp
  have len: "length ids = length ?obs" using mset_eq_length [OF assms(2)] by simp
  obtain m where m: "rfold (\<lambda>(target, i) m. if m i \<noteq> None then Inl Internal else Inr (m(i \<mapsto> target)))
        (enumerate 0 ids) Map.empty = Inr m"
      "\<And>i t. m i = Some t \<longleftrightarrow> t < length ids \<and> ids ! t = i"
    using order_targets [OF dids] by blast
  let ?key = "\<lambda>obs. case m (obs_id obs) of None \<Rightarrow> 2 ^ 64 - 1 | Some t \<Rightarrow> t"
  have found: "\<exists>t. m (obs_id x) = Some t" if "x \<in> set ?obs" for x
    using that ids m(2) by (metis imageI in_set_conv_nth)
  have ex: "\<not> list_ex (\<lambda>obs. m (obs_id obs) = None) ?obs"
    using found by (force simp: list_ex_iff)
  have inj: "inj_on ?key (set ?obs)"
  proof
    fix x y assume xy: "x \<in> set ?obs" "y \<in> set ?obs" "?key x = ?key y"
    then obtain t where "m (obs_id x) = Some t" "m (obs_id y) = Some t"
      using found [of x] found [of y] by auto
    then have "obs_id x = obs_id y" by (simp add: m(2))
    with d xy show "x = y" by (auto simp: distinct_map dest: inj_onD)
  qed
  have "?key (?ys ! t) = t" if t: "t < length ids" for t
  proof -
    have "obs_id (?ys ! t) = ids ! t" using t pick_obs_id(1) [of "ids ! t" ?obs] nth_mem [OF t] by (simp add: ids)
    moreover have "m (ids ! t) = Some t" using t by (simp add: m(2))
    ultimately show ?thesis by simp
  qed
  then have "map ?key ?ys = [0..<length ids]" by (intro nth_equalityI) simp_all
  then have "sort_key ?key ?obs = ?ys"
    using mset_map_pick [OF d assms(2)] inj
    by (intro sort_key_inj_key_eq) simp_all
  with m(1) ex len show ?thesis by (simp add: into_order_def)
qed

section \<open>The components\<close>

lemma group_roots_correct:
  assumes "forest_state f A E" and "set ids \<subseteq> A"
  shows "\<exists>f'. group_roots push ids grouped f =
        Some (Inr (fold (\<lambda>i. btree_alter (rep f i) (push i)) ids grouped), f')
     \<and> forest_state f' A E \<and> (\<forall>y. rep f' y = rep f y)"
  using assms
proof (induction ids arbitrary: f grouped)
  case Nil
  then show ?case by (simp add: op_return_def)
next
  case (Cons i ids)
  from Cons.prems have f: "forest_ok f" "members f = A" "partitions A (rep f) E" "i \<in> members f"
    by (auto simp: forest_state_def)
  obtain f1 where f1: "root_position i f = Some (Inr (rep f i), f1)" "forest_ok f1"
      "identities f1 = identities f" "\<forall>y. rep f1 y = rep f y"
    using root_position_correct [OF f(1,4)] by blast
  then have "rep f1 = rep f" by auto
  with f1 f have state: "forest_state f1 A E" by (simp add: forest_state_def members_def)
  obtain f2 where "group_roots push ids (btree_alter (rep f i) (push i) grouped) f1 =
        Some (Inr (fold (\<lambda>i. btree_alter (rep f1 i) (push i)) ids
          (btree_alter (rep f i) (push i) grouped)), f2)"
      "forest_state f2 A E" "\<forall>y. rep f2 y = rep f1 y"
    using Cons.IH [OF state, of "btree_alter (rep f i) (push i) grouped"] Cons.prems(2) by auto
  with f1(1) \<open>rep f1 = rep f\<close> show ?case by (simp add: op_bind_def)
qed

definition component_groups :: "(digest \<Rightarrow> nat) \<Rightarrow> digest list \<Rightarrow> digest list \<Rightarrow> component_ids" where
  "component_groups cls base_ids candidate_ids =
     fold (\<lambda>i. btree_alter (cls i) (push_candidate i)) candidate_ids
       (fold (\<lambda>i. btree_alter (cls i) (push_base i)) base_ids [])"

lemma btree_ok_fold_alter: "btree_ok m \<Longrightarrow> btree_ok (fold (\<lambda>i. btree_alter (key i) (g i)) xs m)"
  by (rule btree.invar_fold_alter)

lemma push_simps [simp]:
  "push_base i None = ([i], [])" "push_base i (Some (b, c)) = (b @ [i], c)"
  "push_candidate i None = ([], [i])" "push_candidate i (Some (b, c)) = (b, c @ [i])"
  by (simp_all add: push_base_def push_candidate_def)

lemma map_of_fold_push_base:
  assumes "btree_ok m"
  shows "map_of (fold (\<lambda>i. btree_alter (cls i) (push_base i)) ids m) k =
    (let bs = filter (\<lambda>i. cls i = k) ids in
     case map_of m k of
       None \<Rightarrow> if bs = [] then None else Some (bs, [])
     | Some (b, c) \<Rightarrow> Some (b @ bs, c))"
  using assms
proof (induction ids arbitrary: m)
  case Nil
  then show ?case by (auto split: option.splits)
next
  case (Cons i ids)
  note step = Cons.IH [OF btree_ok_alter [OF Cons.prems, of _ "push_base i"]]
  show ?case
  proof (cases "map_of m k")
    case None
    then show ?thesis
      by (cases "cls i = k") (simp_all add: step map_of_btree_alter [OF Cons.prems] Let_def)
  next
    case (Some p)
    then show ?thesis
      by (cases p; cases "cls i = k")
        (simp_all add: step map_of_btree_alter [OF Cons.prems] Let_def)
  qed
qed

lemma map_of_fold_push_candidate:
  assumes "btree_ok m"
  shows "map_of (fold (\<lambda>i. btree_alter (cls i) (push_candidate i)) ids m) k =
    (let cs = filter (\<lambda>i. cls i = k) ids in
     case map_of m k of
       None \<Rightarrow> if cs = [] then None else Some ([], cs)
     | Some (b, c) \<Rightarrow> Some (b, c @ cs))"
  using assms
proof (induction ids arbitrary: m)
  case Nil
  then show ?case by (auto split: option.splits)
next
  case (Cons i ids)
  note step = Cons.IH [OF btree_ok_alter [OF Cons.prems, of _ "push_candidate i"]]
  show ?case
  proof (cases "map_of m k")
    case None
    then show ?thesis
      by (cases "cls i = k") (simp_all add: step map_of_btree_alter [OF Cons.prems] Let_def)
  next
    case (Some p)
    then show ?thesis
      by (cases p; cases "cls i = k")
        (simp_all add: step map_of_btree_alter [OF Cons.prems] Let_def)
  qed
qed

lemma component_groups_ok: "btree_ok (component_groups cls bs cs)"
  by (simp add: component_groups_def btree_ok_fold_alter)

lemma map_of_component_groups:
  "map_of (component_groups cls bs cs) k =
     (let b = filter (\<lambda>i. cls i = k) bs; c = filter (\<lambda>i. cls i = k) cs
      in if b = [] \<and> c = [] then None else Some (b, c))"
proof -
  have ok: "btree_ok (fold (\<lambda>i. btree_alter (cls i) (push_base i)) bs [])"
    by (simp add: btree_ok_fold_alter)
  show ?thesis
    unfolding component_groups_def
    by (simp add: map_of_fold_push_candidate [OF ok] map_of_fold_push_base Let_def)
qed

definition unmatched :: "digest list \<Rightarrow> observation list \<Rightarrow> observation list" where
  "unmatched exact_ids obs = filter (\<lambda>o'. obs_id o' \<notin> set exact_ids) obs"

lemma plausible_edges_cong:
  "set bs = set bs' \<Longrightarrow> set cs = set cs' \<Longrightarrow> plausible_edges sha renames bs cs = plausible_edges sha renames bs' cs'"
  by (simp add: plausible_edges_def)

lemma unmatched_ids_facts:
  assumes "pool_ok pool"
  shows "unmatched_ids exact_ids pool = sort (map obs_id (unmatched exact_ids (pool_observations pool)))"
    and "distinct (unmatched_ids exact_ids pool)"
    and "set (unmatched_ids exact_ids pool) = obs_id ` set (unmatched exact_ids (pool_observations pool))"
    and "map (pool_observation pool) (unmatched_ids exact_ids pool)
      = map Inr (map (pick (pool_observations pool)) (unmatched_ids exact_ids pool))"
    and "set (map (pick (pool_observations pool)) (unmatched_ids exact_ids pool))
      = set (unmatched exact_ids (pool_observations pool))"
proof -
  let ?obs = "pool_observations pool" and ?ids = "unmatched_ids exact_ids pool"
  have d: "distinct (map obs_id ?obs)" using assms by (simp add: pool_ok_def)
  show ids: "?ids = sort (map obs_id (unmatched exact_ids ?obs))"
    by (simp add: unmatched_ids_def pool_keys [OF assms] binary_search_None unmatched_def filter_sort
      filter_map comp_def)
  then show set: "set ?ids = obs_id ` set (unmatched exact_ids ?obs)" by simp
  show "distinct ?ids" using d by (simp add: ids unmatched_def distinct_map_filter)
  have in_obs: "set ?ids \<subseteq> obs_id ` set ?obs" by (auto simp: set unmatched_def)
  then show "map (pool_observation pool) ?ids = map Inr (map (pick ?obs) ?ids)"
    using pool_observation_pick [OF assms] by auto
  show "set (map (pick ?obs) ?ids) = set (unmatched exact_ids ?obs)"
    unfolding set_map set image_image
    using pick_self [OF d] by (force simp: unmatched_def)
qed

lemma correlation_components_correct:
  fixes base candidate :: observation_pool
  defines "bs \<equiv> pool_observations base" and "cs \<equiv> pool_observations candidate"
  assumes b: "pool_ok base" and c: "pool_ok candidate"
    and exact: "obs_id ` set bs \<inter> obs_id ` set cs \<subseteq> set exact_ids"
  shows "\<exists>cls. correlation_components sha base candidate exact_ids renames =
        Some (Inr (component_groups cls (unmatched_ids exact_ids base) (unmatched_ids exact_ids candidate)))
     \<and> partitions (set (unmatched_ids exact_ids base) \<union> set (unmatched_ids exact_ids candidate)) cls
         (plausible_edges sha renames (unmatched exact_ids bs) (unmatched exact_ids cs))"
proof -
  let ?bids = "unmatched_ids exact_ids base" and ?cids = "unmatched_ids exact_ids candidate"
  let ?A = "set ?bids \<union> set ?cids"
  let ?E = "plausible_edges sha renames (unmatched exact_ids bs) (unmatched exact_ids cs)"
  let ?bx = "map (pick bs) ?bids" and ?cx = "map (pick cs) ?cids"
  note ub = unmatched_ids_facts [OF b, of exact_ids, folded bs_def]
    and uc = unmatched_ids_facts [OF c, of exact_ids, folded cs_def]
  obtain bg cg where g: "observation_groups sha (map (pool_observation base) ?bids) = Inr bg"
      "observation_groups sha (map (pool_observation candidate) ?cids) = Inr cg"
    by (simp add: ub(4) uc(4) observation_groups_Inr del: map_map)
  have blocks: "(\<Union>b \<in> set (candidate_blocks bg cg renames). block_edges b) = ?E"
    using candidate_blocks_edges [OF groups_model_observation_groups [OF g(1) [unfolded ub(4)]]
        groups_model_observation_groups [OF g(2) [unfolded uc(4)]], of renames]
      plausible_edges_cong [OF ub(5) uc(5), of sha renames] by simp
  have "?E \<subseteq> ?A \<times> ?A"
    by (auto simp: plausible_edges_def ub(3) uc(3))
  moreover have "set ?bids \<inter> set ?cids = {}"
    using exact by (auto simp: ub(3) uc(3) unmatched_def)
  then have ids: "distinct (sort (?bids @ ?cids))" using ub(2) uc(2) by simp
  have "forest_state (new_forest (sort (?bids @ ?cids))) ?A {}"
    using new_forest_partitions [OF ids] by (simp add: forest_state_def)
  ultimately obtain f where f: "connect_candidates bg cg renames (new_forest (sort (?bids @ ?cids)))
        = Some (Inr (), f)" "forest_state f ?A ?E"
    using forest_state_blocks [of _ ?A "{}" "candidate_blocks bg cg renames"]
    by (auto simp: blocks connect_candidates_blocks)
  obtain f1 where f1: "group_roots push_base ?bids [] f =
        Some (Inr (fold (\<lambda>i. btree_alter (rep f i) (push_base i)) ?bids []), f1)"
      "forest_state f1 ?A ?E" "\<forall>y. rep f1 y = rep f y"
    using group_roots_correct [OF f(2), of ?bids push_base "[]"] by auto
  then have "rep f1 = rep f" by auto
  with f1 group_roots_correct [OF f1(2), of ?cids push_candidate] obtain f2 where
    "group_roots push_candidate ?cids (fold (\<lambda>i. btree_alter (rep f i) (push_base i)) ?bids []) f1 =
        Some (Inr (component_groups (rep f) ?bids ?cids), f2)"
    by (auto simp: component_groups_def)
  with f f1 g have "correlation_components sha base candidate exact_ids renames =
        Some (Inr (component_groups (rep f) ?bids ?cids))"
    by (simp add: correlation_components_def op_bind_def)
  with f(2) show ?thesis by (auto simp: forest_state_def)
qed

end
