(* ===== verification/Scan_Correlate.thy ===== *)
theory Scan_Correlate
  imports Scan_Linking
begin

text \<open>
  The correlation of two sides, \<open>crates/amiss-scan/src/correlate.rs\<close>: equal identities pair
  up, the other occurrences are grouped into the components of \<open>Scan_Linking\<close>, and each
  component is one comparison row. The iterators the source drains are the lists that are
  left of them. \<open>None\<close> is a run that does not return; the theorems show there is none.
\<close>

section \<open>Rows\<close>

record side =
  side_observations :: "observation list"
  side_documents :: "(rpath, git_mode \<times> digest) btree"

record comparison =
  outcome :: correlation_outcome
  reason :: correlation_reason
  source_change :: source_change
  base :: "observation option"
  candidate :: "observation option"
  alternatives_base :: "observation list"
  alternatives_candidate :: "observation list"
  target_change :: target_change
  impact :: impact

definition own_page :: "observation \<Rightarrow> observation \<Rightarrow> bool" where
  "own_page b c =
     (case (obs_resolution b, obs_resolution c) of
        (Res_Resolved (Target_Blob l), Res_Resolved (Target_Blob r)) \<Rightarrow>
          blob_path l = document b \<and> blob_path r = document c
      | _ \<Rightarrow> False)"

definition derive :: "observation \<Rightarrow> observation \<Rightarrow> source_change \<Rightarrow> target_change \<times> impact" where
  "derive b c source =
     (let left = obs_resolution b; right = obs_resolution c;
          source_changed = (source = Source_Changed);
          equal_impact = (if source_changed then Impact_SubjectChanged else Impact_None)
      in case (located_projection left, located_projection right) of
           (Some left_projection, Some right_projection) \<Rightarrow>
             if left_projection = right_projection then (Target_Equal, equal_impact)
             else if own_page b c then (Target_Changed, equal_impact)
             else (Target_Changed,
               if source_changed then Impact_DependencyAndSubjectCochanged
               else Impact_DependencyChangedSubjectUnchanged)
         | _ \<Rightarrow>
           (case (left, right) of
              (Res_Resolved _, Res_Resolved _) \<Rightarrow> (NotComparable, Impact_NotApplicable)
            | (Res_Missing l, Res_Missing r) \<Rightarrow>
                if l = r then (Target_Equal, equal_impact) else (NotComparable, Impact_NotApplicable)
            | (Res_DeclaredUntracked l, Res_DeclaredUntracked r) \<Rightarrow>
                if l = r then (Target_Equal, equal_impact) else (NotComparable, Impact_NotApplicable)
            | (Res_TypeMismatch l, Res_TypeMismatch r) \<Rightarrow>
                if l = r then (Target_Equal, equal_impact) else (NotComparable, Impact_NotApplicable)
            | (Res_Missing _, Res_Resolved _) \<Rightarrow> (NewlyResolved, Impact_ReferenceResolved)
            | (Res_TypeMismatch _, Res_Resolved _) \<Rightarrow> (NewlyResolved, Impact_ReferenceResolved)
            | (Res_Resolved _, Res_Missing _) \<Rightarrow> (BecameMissing, Impact_NotApplicable)
            | (Res_Resolved _, Res_TypeMismatch _) \<Rightarrow> (BecameMissing, Impact_NotApplicable)
            | _ \<Rightarrow> (NotComparable, Impact_NotApplicable)))"

definition exact_comparison :: "observation \<Rightarrow> observation \<Rightarrow> comparison" where
  "exact_comparison left right =
     (let (target, imp) = derive left right Source_Equal
      in \<lparr>outcome = Exact, reason = SameExtractionKeyAndProjection, source_change = Source_Equal,
          base = Some left, candidate = Some right,
          alternatives_base = [], alternatives_candidate = [],
          target_change = target, impact = imp\<rparr>)"

text \<open>The iterator \<open>next\<close>, then the rest of the members.\<close>

definition first_of :: "'a list \<Rightarrow> 'a option" where
  "first_of xs = (case xs of [] \<Rightarrow> None | x # _ \<Rightarrow> Some x)"

definition component_comparison ::
  "observation list \<Rightarrow> observation list \<Rightarrow> (rpath, rpath) btree \<Rightarrow> comparison" where
  "component_comparison base_members candidate_members renames =
     (case (base_members, candidate_members) of
        ([left], [right]) \<Rightarrow>
          (let across_rename = document left \<noteq> document right
                 \<and> map_of renames (document left) = Some (document right);
               (why, source) =
                 (if across_rename then (ExactDocumentRenameUnchangedProjection, Source_Equal)
                  else if projection_digest left = projection_digest right
                  then (SameIntentUnchangedProjection, Source_Equal)
                  else (SameIntentSourceChanged, Source_Changed));
               (target, imp) = derive left right source
           in \<lparr>outcome = Candidate, reason = why, source_change = source,
               base = Some left, candidate = Some right,
               alternatives_base = [], alternatives_candidate = [],
               target_change = target, impact = imp\<rparr>)
      | _ \<Rightarrow>
          \<lparr>outcome = Ambiguous, reason = MultipleCounterparts, source_change = Source_Unknown,
           base = first_of base_members, candidate = first_of candidate_members,
           alternatives_base = tl base_members, alternatives_candidate = tl candidate_members,
           target_change = NotComparable, impact = Impact_ObservationCorrelationAmbiguous\<rparr>)"

definition isolated :: "observation \<Rightarrow> bool \<Rightarrow> comparison" where
  "isolated obs is_base =
     \<lparr>outcome = Outcome_None,
      reason = (if is_base then RemovedObservation else NewObservation),
      source_change = (if is_base then Source_Removed else Source_Added),
      base = (if is_base then Some obs else None),
      candidate = (if is_base then None else Some obs),
      alternatives_base = [], alternatives_candidate = [],
      target_change = NotComparable,
      impact = (if is_base then Impact_RemovedObservation else Impact_NewObservation)\<rparr>"

section \<open>Draining the ordered sides\<close>

fun exact_rows ::
  "nat \<Rightarrow> observation list \<Rightarrow> observation list
   \<Rightarrow> (error, comparison list \<times> observation list \<times> observation list) result" where
  "exact_rows 0 bs cs = Inr ([], bs, cs)"
| "exact_rows (Suc n) (left # bs) (right # cs) =
     (if obs_id left \<noteq> obs_id right then Inl Internal
      else rbind (exact_rows n bs cs)
        (\<lambda>(rows, bs', cs'). Inr (exact_comparison left right # rows, bs', cs')))"
| "exact_rows (Suc n) _ _ = Inl Internal"

definition component_row ::
  "(rpath, rpath) btree \<Rightarrow> observation list \<Rightarrow> observation list \<Rightarrow> comparison" where
  "component_row renames base_members candidate_members =
     (case (base_members, candidate_members) of
        ([obs], []) \<Rightarrow> isolated obs True
      | ([], [obs]) \<Rightarrow> isolated obs False
      | _ \<Rightarrow> component_comparison base_members candidate_members renames)"

fun component_rows ::
  "(rpath, rpath) btree \<Rightarrow> (nat \<times> nat) list \<Rightarrow> observation list \<Rightarrow> observation list
   \<Rightarrow> (error, comparison list) result" where
  "component_rows renames [] bs cs = (if bs \<noteq> [] \<or> cs \<noteq> [] then Inl Internal else Inr [])"
| "component_rows renames ((base_count, candidate_count) # sizes) bs cs =
     (let base_members = take base_count bs;
          candidate_members = take candidate_count cs
      in if length base_members \<noteq> base_count \<or> length candidate_members \<noteq> candidate_count
         then Inl Internal
         else rbind (component_rows renames sizes (drop base_count bs) (drop candidate_count cs))
           (\<lambda>rows. Inr (component_row renames base_members candidate_members # rows)))"

definition drain_rows ::
  "(rpath, rpath) btree \<Rightarrow> digest list \<Rightarrow> component_ids \<Rightarrow> observation_pool \<Rightarrow> observation_pool
   \<Rightarrow> (error, comparison list) result" where
  "drain_rows renames exact_ids grouped base_pool candidate_pool =
     (let sizes = map (\<lambda>(_, base_ids, candidate_ids). (length base_ids, length candidate_ids)) grouped;
          base_order = exact_ids @ concat (map (\<lambda>(_, base_ids, _). base_ids) grouped);
          candidate_order = exact_ids @ concat (map (\<lambda>(_, _, candidate_ids). candidate_ids) grouped)
      in rbind (into_order base_pool base_order) (\<lambda>bs.
         rbind (into_order candidate_pool candidate_order) (\<lambda>cs.
         rbind (exact_rows (length exact_ids) bs cs) (\<lambda>(rows, bs', cs').
         rbind (component_rows renames sizes bs' cs') (\<lambda>more. Inr (rows @ more))))))"

definition correlate_unaligned ::
  "sha256 \<Rightarrow> side \<Rightarrow> side \<Rightarrow> (error, comparison list) result option" where
  "correlate_unaligned sha base_side candidate_side =
     (case pool_new (side_observations base_side) of
        Inl e \<Rightarrow> Some (Inl e)
      | Inr base_pool \<Rightarrow>
        (case pool_new (side_observations candidate_side) of
           Inl e \<Rightarrow> Some (Inl e)
         | Inr candidate_pool \<Rightarrow>
           (let renames = unique_path_pairs (side_documents base_side) (side_documents candidate_side);
                exact_ids = filter (contains_key (positions candidate_pool)) (map fst (positions base_pool))
            in map_option
                 (\<lambda>res. rbind res (\<lambda>grouped.
                    drain_rows renames exact_ids grouped base_pool candidate_pool))
                 (correlation_components sha base_pool candidate_pool exact_ids renames))))"

definition aligned :: "side \<Rightarrow> side \<Rightarrow> bool" where
  "aligned base_side candidate_side \<longleftrightarrow>
     length (side_observations base_side) = length (side_observations candidate_side)
     \<and> list_all (\<lambda>(left, right). obs_id left = obs_id right)
         (zip (side_observations base_side) (side_observations candidate_side))"

definition row_key :: "comparison \<Rightarrow> digest option \<times> digest option" where
  "row_key row = (map_option obs_id (candidate row), map_option obs_id (base row))"

fun check_repeats :: "digest option \<Rightarrow> comparison list \<Rightarrow> (error, unit) result" where
  "check_repeats previous [] = Inr ()"
| "check_repeats previous (row # rows) =
     (case base row of
        None \<Rightarrow> Inl Internal
      | Some obs \<Rightarrow>
          if previous = Some (obs_id obs) then Inl Internal
          else check_repeats (Some (obs_id obs)) rows)"

definition correlate :: "sha256 \<Rightarrow> side \<Rightarrow> side \<Rightarrow> (error, comparison list) result option" where
  "correlate sha base_side candidate_side =
     (if aligned base_side candidate_side
      then let rows = sort_key row_key
                 (map (\<lambda>(left, right). exact_comparison left right)
                   (zip (side_observations base_side) (side_observations candidate_side)))
           in Some (rbind (check_repeats None rows) (\<lambda>_. Inr rows))
      else map_option (\<lambda>res. rbind res (\<lambda>rows. Inr (sort_key row_key rows)))
             (correlate_unaligned sha base_side candidate_side))"

section \<open>What the rows are\<close>

lemma exact_rows_pick:
  assumes "set ids \<subseteq> obs_id ` set bs" and "set ids \<subseteq> obs_id ` set cs"
  shows "exact_rows (length ids) (map (pick bs) ids @ bs') (map (pick cs) ids @ cs') =
     Inr (map (\<lambda>i. exact_comparison (pick bs i) (pick cs i)) ids, bs', cs')"
  using assms by (induction ids) (simp_all add: pick_obs_id)

lemma component_rows_split:
  "component_rows renames (map (\<lambda>(_, b, c). (length b, length c)) grouped)
      (concat (map (\<lambda>(_, b, _). map f b) grouped)) (concat (map (\<lambda>(_, _, c). map g c) grouped))
    = Inr (map (\<lambda>(_, b, c). component_row renames (map f b) (map g c)) grouped)"
  by (induction grouped) (auto simp: Let_def)

lemma mset_push_base:
  "mset (concat (map (\<lambda>(_, b, _). b) (btree_alter k (push_base i) m)))
     = add_mset i (mset (concat (map (\<lambda>(_, b, _). b) m)))"
  "mset (concat (map (\<lambda>(_, _, c). c) (btree_alter k (push_base i) m)))
     = mset (concat (map (\<lambda>(_, _, c). c) m))"
  by (induction m) (auto split: prod.splits)

lemma mset_push_candidate:
  "mset (concat (map (\<lambda>(_, b, _). b) (btree_alter k (push_candidate i) m)))
     = mset (concat (map (\<lambda>(_, b, _). b) m))"
  "mset (concat (map (\<lambda>(_, _, c). c) (btree_alter k (push_candidate i) m)))
     = add_mset i (mset (concat (map (\<lambda>(_, _, c). c) m)))"
  by (induction m) (auto split: prod.splits)

lemma mset_fold_push:
  "mset (concat (map (\<lambda>(_, b, _). b) (fold (\<lambda>i. btree_alter (cls i) (push_base i)) ids m)))
     = mset ids + mset (concat (map (\<lambda>(_, b, _). b) m))"
  "mset (concat (map (\<lambda>(_, _, c). c) (fold (\<lambda>i. btree_alter (cls i) (push_base i)) ids m)))
     = mset (concat (map (\<lambda>(_, _, c). c) m))"
  "mset (concat (map (\<lambda>(_, b, _). b) (fold (\<lambda>i. btree_alter (cls i) (push_candidate i)) ids m)))
     = mset (concat (map (\<lambda>(_, b, _). b) m))"
  "mset (concat (map (\<lambda>(_, _, c). c) (fold (\<lambda>i. btree_alter (cls i) (push_candidate i)) ids m)))
     = mset ids + mset (concat (map (\<lambda>(_, _, c). c) m))"
  by (induction ids arbitrary: m) (simp_all add: mset_push_base mset_push_candidate del: mset_concat)

lemma mset_component_groups:
  "mset (concat (map (\<lambda>(_, b, _). b) (component_groups cls bs cs))) = mset bs"
  "mset (concat (map (\<lambda>(_, _, c). c) (component_groups cls bs cs))) = mset cs"
  by (simp_all add: component_groups_def mset_fold_push del: mset_concat)

definition exact_ids_of :: "observation list \<Rightarrow> observation list \<Rightarrow> digest list" where
  "exact_ids_of bs cs = filter (\<lambda>i. i \<in> obs_id ` set cs) (sort (map obs_id bs))"

definition component_ids_of ::
  "(digest \<Rightarrow> nat) \<Rightarrow> observation list \<Rightarrow> observation list \<Rightarrow> component_ids" where
  "component_ids_of cls bs cs =
     (let exact = exact_ids_of bs cs
      in component_groups cls (sort (map obs_id (unmatched exact bs))) (sort (map obs_id (unmatched exact cs))))"

definition plausible_graph :: "sha256 \<Rightarrow> side \<Rightarrow> side \<Rightarrow> (digest \<times> digest) set" where
  "plausible_graph sha base_side candidate_side =
     (let bs = side_observations base_side; cs = side_observations candidate_side;
          exact = exact_ids_of bs cs
      in plausible_edges sha (unique_path_pairs (side_documents base_side) (side_documents candidate_side))
           (unmatched exact bs) (unmatched exact cs))"

lemma exact_then_unmatched:
  assumes "distinct (map obs_id bs)" and "distinct (map obs_id cs)"
  shows "mset (exact_ids_of bs cs) + mset (map obs_id (unmatched (exact_ids_of bs cs) bs)) = mset (map obs_id bs)"
    and "mset (exact_ids_of bs cs) + mset (map obs_id (unmatched (exact_ids_of bs cs) cs)) = mset (map obs_id cs)"
proof -
  have e: "set (exact_ids_of bs cs) = obs_id ` set bs \<inter> obs_id ` set cs" "distinct (exact_ids_of bs cs)"
    using assms(1) by (auto simp: exact_ids_of_def)
  have *: "mset (exact_ids_of bs cs) + mset (map obs_id (unmatched (exact_ids_of bs cs) xs)) = mset (map obs_id xs)"
    if "distinct (map obs_id xs)" "set (exact_ids_of bs cs) \<subseteq> obs_id ` set xs" for xs
  proof -
    have "distinct (exact_ids_of bs cs @ map obs_id (unmatched (exact_ids_of bs cs) xs))"
      using that e(2) by (auto simp: unmatched_def distinct_map_filter)
    moreover have "set (exact_ids_of bs cs @ map obs_id (unmatched (exact_ids_of bs cs) xs)) = set (map obs_id xs)"
      using that(2) by (auto simp: unmatched_def)
    ultimately show ?thesis using that(1) set_eq_iff_mset_eq_distinct by (metis mset_append)
  qed
  show "mset (exact_ids_of bs cs) + mset (map obs_id (unmatched (exact_ids_of bs cs) bs)) = mset (map obs_id bs)"
    "mset (exact_ids_of bs cs) + mset (map obs_id (unmatched (exact_ids_of bs cs) cs)) = mset (map obs_id cs)"
    by (rule *; simp add: assms e)+
qed

definition unaligned_rows ::
  "(rpath, rpath) btree \<Rightarrow> (digest \<Rightarrow> nat) \<Rightarrow> observation list \<Rightarrow> observation list \<Rightarrow> comparison list" where
  "unaligned_rows renames cls bs cs =
     map (\<lambda>i. exact_comparison (pick bs i) (pick cs i)) (exact_ids_of bs cs)
     @ map (\<lambda>(_, b, c). component_row renames (map (pick bs) b) (map (pick cs) c)) (component_ids_of cls bs cs)"

lemma drain_rows_correct:
  assumes b: "pool_ok base_pool" and c: "pool_ok candidate_pool"
    and "bs = pool_observations base_pool" and "cs = pool_observations candidate_pool"
  shows "drain_rows renames (exact_ids_of bs cs) (component_ids_of cls bs cs) base_pool candidate_pool
     = Inr (unaligned_rows renames cls bs cs)"
proof -
  let ?e = "exact_ids_of bs cs" and ?g = "component_ids_of cls bs cs"
  let ?border = "?e @ concat (map (\<lambda>(_, b, _). b) ?g)" and ?corder = "?e @ concat (map (\<lambda>(_, _, c). c) ?g)"
  have d: "distinct (map obs_id bs)" "distinct (map obs_id cs)" using assms by (auto simp: pool_ok_def)
  have e: "set ?e \<subseteq> obs_id ` set bs" "set ?e \<subseteq> obs_id ` set cs" by (auto simp: exact_ids_of_def)
  have "mset ?border = mset (map obs_id bs)" "mset ?corder = mset (map obs_id cs)"
    using exact_then_unmatched [OF d]
    by (simp_all add: component_ids_of_def Let_def mset_component_groups del: mset_concat mset_map)
  then have "into_order base_pool ?border = Inr (map (pick bs) ?border)"
      "into_order candidate_pool ?corder = Inr (map (pick cs) ?corder)"
    using into_order_pick [OF b] into_order_pick [OF c] assms(3,4) by auto
  moreover have "map (pick bs) ?border = map (pick bs) ?e @ concat (map (\<lambda>(_, b, _). map (pick bs) b) ?g)"
    "map (pick cs) ?corder = map (pick cs) ?e @ concat (map (\<lambda>(_, _, c). map (pick cs) c) ?g)"
    by (simp_all add: map_concat comp_def case_prod_unfold)
  ultimately show ?thesis
    by (simp add: drain_rows_def exact_rows_pick [OF e] component_rows_split unaligned_rows_def)
qed

lemma correlate_unaligned_rows:
  assumes "distinct (map obs_id (side_observations B))" and "distinct (map obs_id (side_observations C))"
  defines "bs \<equiv> side_observations B" and "cs \<equiv> side_observations C"
    and "renames \<equiv> unique_path_pairs (side_documents B) (side_documents C)"
  shows "\<exists>cls. correlate_unaligned sha B C = Some (Inr (unaligned_rows renames cls bs cs))
     \<and> partitions (obs_id ` set (unmatched (exact_ids_of bs cs) bs)
          \<union> obs_id ` set (unmatched (exact_ids_of bs cs) cs)) cls (plausible_graph sha B C)"
proof -
  obtain bp where bp: "pool_new bs = Inr bp" "pool_ok bp" "pool_observations bp = bs"
    using assms(1) by (cases rule: pool_new_cases [of bs]) (auto simp: bs_def)
  obtain cp where cp: "pool_new cs = Inr cp" "pool_ok cp" "pool_observations cp = cs"
    using assms(2) by (cases rule: pool_new_cases [of cs]) (auto simp: cs_def)
  have keys: "contains_key (positions cp) i \<longleftrightarrow> i \<in> obs_id ` set cs" for i
  proof -
    have "contains_key (positions cp) i \<longleftrightarrow> i \<in> set (map fst (positions cp))"
      by (metis contains_key_def map_of_eq_None_iff set_map)
    then show ?thesis by (simp add: pool_keys [OF cp(2)] cp(3))
  qed
  let ?e = "exact_ids_of bs cs"
  have e: "filter (contains_key (positions cp)) (map fst (positions bp)) = ?e"
    unfolding exact_ids_of_def pool_keys [OF bp(2)] bp(3) by (rule filter_cong [OF refl keys])
  have "obs_id ` set (pool_observations bp) \<inter> obs_id ` set (pool_observations cp) \<subseteq> set ?e"
    by (auto simp: bp cp exact_ids_of_def)
  from correlation_components_correct [OF bp(2) cp(2) this, of sha renames]
  obtain cls where cls: "correlation_components sha bp cp ?e renames = Some (Inr (component_ids_of cls bs cs))"
     "partitions (obs_id ` set (unmatched ?e bs) \<union> obs_id ` set (unmatched ?e cs)) cls (plausible_graph sha B C)"
    by (auto simp: unmatched_ids_facts [OF bp(2)] unmatched_ids_facts [OF cp(2)] bp cp component_ids_of_def
        Let_def plausible_graph_def renames_def bs_def cs_def)
  have "correlate_unaligned sha B C = Some (Inr (unaligned_rows renames cls bs cs))"
    using drain_rows_correct [OF bp(2) cp(2) bp(3) [symmetric] cp(3) [symmetric]]
    by (simp add: correlate_unaligned_def bs_def [symmetric] cs_def [symmetric] renames_def [symmetric]
        bp(1) cp(1) e cls(1) Let_def)
  with cls(2) show ?thesis by blast
qed

lemma correlate_unaligned_duplicate:
  assumes "\<not> distinct (map obs_id (side_observations B)) \<or> \<not> distinct (map obs_id (side_observations C))"
  shows "correlate_unaligned sha B C = Some (Inl Internal)"
  using assms
  by (cases rule: pool_new_cases [of "side_observations B"]; cases rule: pool_new_cases [of "side_observations C"])
    (simp_all add: correlate_unaligned_def)

section \<open>The aligned fast path\<close>

lemma row_key_exact: "row_key (exact_comparison l r) = (Some (obs_id r), Some (obs_id l))"
  by (simp add: row_key_def exact_comparison_def case_prod_unfold Let_def)

lemma base_exact [simp]: "base (exact_comparison l r) = Some l" "candidate (exact_comparison l r) = Some r"
  "alternatives_base (exact_comparison l r) = []" "alternatives_candidate (exact_comparison l r) = []"
  "outcome (exact_comparison l r) = Exact"
  by (simp_all add: exact_comparison_def case_prod_unfold Let_def)

lemma aligned_ids:
  assumes "aligned B C"
  shows "map obs_id (side_observations C) = map obs_id (side_observations B)"
proof -
  have "list_all2 (\<lambda>l r. obs_id l = obs_id r) (side_observations B) (side_observations C)"
    using assms by (auto simp: aligned_def list_all_iff list_all2_iff)
  then show ?thesis by (induction rule: list_all2_induct) simp_all
qed

lemma check_repeats_sorted:
  assumes "\<And>row. row \<in> set rows \<Longrightarrow> \<exists>obs. base row = Some obs \<and> obs_id obs = key row"
    and "sorted (map key rows)" and "\<And>row. row \<in> set rows \<Longrightarrow> p \<le> Some (key row)"
  shows "check_repeats p rows =
     (if distinct (map key rows) \<and> p \<notin> Some ` key ` set rows then Inr () else Inl Internal)"
  using assms
proof (induction rows arbitrary: p)
  case (Cons row rows)
  obtain obs where obs: "base row = Some obs" "obs_id obs = key row" using Cons.prems(1) by auto
  have le: "key row \<le> key r" if "r \<in> set rows" for r using Cons.prems(2) that by simp
  have rest: "check_repeats (Some (key row)) rows =
      (if distinct (map key rows) \<and> Some (key row) \<notin> Some ` key ` set rows then Inr () else Inl Internal)"
    using Cons.prems le by (intro Cons.IH) auto
  show ?case
  proof (cases "p = Some (key row)")
    case True
    with obs show ?thesis by simp
  next
    case False
    with Cons.prems(3) [of row] le have "p \<notin> Some ` key ` set rows" by (force simp: less_eq_option_def split: option.splits)
    with False obs rest show ?thesis by auto
  qed
qed simp

lemma aligned_rows_pick:
  assumes "aligned B C" and "distinct (map obs_id (side_observations B))"
  shows "map (\<lambda>(left, right). exact_comparison left right) (zip (side_observations B) (side_observations C))
    = map (\<lambda>i. exact_comparison (pick (side_observations B) i) (pick (side_observations C) i))
        (map obs_id (side_observations B))"
proof (rule nth_equalityI)
  let ?bs = "side_observations B" and ?cs = "side_observations C"
  have ids: "map obs_id ?cs = map obs_id ?bs" by (rule aligned_ids [OF assms(1)])
  then have len: "length ?cs = length ?bs" by (metis length_map)
  then show "length (map (\<lambda>(left, right). exact_comparison left right) (zip ?bs ?cs))
    = length (map (\<lambda>i. exact_comparison (pick ?bs i) (pick ?cs i)) (map obs_id ?bs))" by simp
  fix n assume "n < length (map (\<lambda>(left, right). exact_comparison left right) (zip ?bs ?cs))"
  then have n: "n < length ?bs" by simp
  have "obs_id (?cs ! n) = obs_id (?bs ! n)" using n len ids by (metis nth_map)
  moreover have "pick ?bs (obs_id (?bs ! n)) = ?bs ! n" "pick ?cs (obs_id (?cs ! n)) = ?cs ! n"
    using n len assms(2) ids by (auto intro!: pick_self)
  ultimately show "map (\<lambda>(left, right). exact_comparison left right) (zip ?bs ?cs) ! n
    = map (\<lambda>i. exact_comparison (pick ?bs i) (pick ?cs i)) (map obs_id ?bs) ! n"
    using n len by simp
qed

lemma aligned_check:
  assumes "aligned B C"
  defines "rows \<equiv> sort_key row_key (map (\<lambda>(left, right). exact_comparison left right)
      (zip (side_observations B) (side_observations C)))"
  shows "check_repeats None rows =
     (if distinct (map obs_id (side_observations B)) then Inr () else Inl Internal)"
proof -
  let ?bs = "side_observations B" and ?cs = "side_observations C"
  let ?zip = "map (\<lambda>(left, right). exact_comparison left right) (zip ?bs ?cs)"
  let ?key = "\<lambda>row. obs_id (the (base row))"
  have len: "length ?cs = length ?bs" using aligned_ids [OF assms(1)] by (metis length_map)
  have row: "\<exists>obs. base row = Some obs \<and> row_key row = (Some (obs_id obs), Some (obs_id obs))"
    if "row \<in> set ?zip" for row
    using that assms(1) by (auto simp: row_key_exact aligned_def list_all_iff)
  have "map ?key ?zip = map obs_id ?bs"
    using len by (intro nth_equalityI) auto
  moreover have "mset (map ?key rows) = mset (map ?key ?zip)"
    unfolding rows_def mset_map mset_sort ..
  ultimately have "distinct (map ?key rows) \<longleftrightarrow> distinct (map obs_id ?bs)"
    using mset_eq_imp_distinct_iff [of "map ?key rows" "map ?key ?zip"] by simp
  moreover have "sorted (map ?key rows)"
  proof -
    have "sorted (map row_key rows)" by (simp add: rows_def)
    then have "sorted_wrt (\<lambda>x y. row_key x \<le> row_key y) rows" by (simp add: sorted_wrt_map)
    moreover have keys: "row_key r = (Some (?key r), Some (?key r))" if "r \<in> set rows" for r
      using row [of r] that by (auto simp: rows_def)
    have "?key x \<le> ?key y" if "x \<in> set rows" "y \<in> set rows" "row_key x \<le> row_key y" for x y
      using that keys [of x] keys [of y] by (auto simp: less_eq_prod_def)
    ultimately show ?thesis
      unfolding sorted_wrt_map by (rule sorted_wrt_mono_rel [rotated])
  qed
  moreover have "\<exists>obs. base r = Some obs \<and> obs_id obs = ?key r" if "r \<in> set rows" for r
    using row [of r] that by (auto simp: rows_def)
  ultimately show ?thesis
    by (simp add: check_repeats_sorted [of rows ?key None] image_iff)
qed


lemma sort_key_mset_cong:
  assumes "mset xs = mset ys" and "inj_on f (set xs)"
  shows "sort_key f xs = sort_key f ys"
  using assms mset_eq_setD [OF assms(1)]
  by (intro sort_key_inj_key_eq) simp_all

lemma exact_key_inj:
  assumes "I \<subseteq> obs_id ` set bs"
  shows "inj_on row_key ((\<lambda>i. exact_comparison (pick bs i) (pick cs i)) ` I)"
proof (rule inj_onI, elim imageE)
  fix x y i j
  assume "row_key x = row_key y" "x = exact_comparison (pick bs i) (pick cs i)" "i \<in> I"
    "y = exact_comparison (pick bs j) (pick cs j)" "j \<in> I"
  moreover from this have "obs_id (pick bs i) = i" "obs_id (pick bs j) = j"
    using assms pick_obs_id(1) by blast+
  ultimately show "x = y" by (simp add: row_key_exact)
qed

lemma correlate_rows:
  "correlate sha B C =
     map_option (\<lambda>res. rbind res (\<lambda>rows. Inr (sort_key row_key rows))) (correlate_unaligned sha B C)"
proof (cases "aligned B C")
  case False
  then show ?thesis by (simp add: correlate_def)
next
  case True
  let ?bs = "side_observations B" and ?cs = "side_observations C"
  let ?row = "\<lambda>i. exact_comparison (pick ?bs i) (pick ?cs i)"
  note ids = aligned_ids [OF True]
  have idset: "obs_id ` set ?cs = obs_id ` set ?bs" using ids by (metis set_map)
  show ?thesis
  proof (cases "distinct (map obs_id ?bs)")
    case False
    then have "correlate_unaligned sha B C = Some (Inl Internal)"
      by (intro correlate_unaligned_duplicate) simp
    with False show ?thesis
      using aligned_check [OF True] by (simp add: correlate_def True Let_def)
  next
    case d: True
    have "exact_ids_of ?bs ?cs = sort (map obs_id ?bs)"
      using ids unfolding exact_ids_of_def by (metis filter_True set_map set_sort)
    moreover from this have "unmatched (exact_ids_of ?bs ?cs) ?bs = []" "unmatched (exact_ids_of ?bs ?cs) ?cs = []"
      using idset by (auto simp: unmatched_def filter_empty_conv)
    ultimately have "unaligned_rows r cls ?bs ?cs = map ?row (sort (map obs_id ?bs))" for r cls
      by (simp add: unaligned_rows_def component_ids_of_def component_groups_def)
    then have "correlate_unaligned sha B C = Some (Inr (map ?row (sort (map obs_id ?bs))))"
      using correlate_unaligned_rows [of B C sha] d ids by auto
    moreover have "sort_key row_key (map ?row (map obs_id ?bs)) = sort_key row_key (map ?row (sort (map obs_id ?bs)))"
      by (intro sort_key_mset_cong) (simp_all add: exact_key_inj del: map_map)
    ultimately show ?thesis
      using aligned_check [OF True] d
      by (simp add: correlate_def True Let_def aligned_rows_pick [OF True d] del: map_map)
  qed
qed


section \<open>Theorems\<close>

definition base_occurrences :: "comparison \<Rightarrow> observation list" where
  "base_occurrences row = (case base row of None \<Rightarrow> [] | Some obs \<Rightarrow> [obs]) @ alternatives_base row"

definition candidate_occurrences :: "comparison \<Rightarrow> observation list" where
  "candidate_occurrences row =
     (case candidate row of None \<Rightarrow> [] | Some obs \<Rightarrow> [obs]) @ alternatives_candidate row"

definition row_ids :: "comparison \<Rightarrow> digest set" where
  "row_ids row = obs_id ` set (base_occurrences row @ candidate_occurrences row)"

lemma occurrences_exact [simp]:
  "base_occurrences (exact_comparison l r) = [l]" "candidate_occurrences (exact_comparison l r) = [r]"
  by (simp_all add: base_occurrences_def candidate_occurrences_def)

lemma component_comparison_occurrences:
  "base_occurrences (component_comparison b c renames) = b"
  "candidate_occurrences (component_comparison b c renames) = c"
  by (auto simp: base_occurrences_def candidate_occurrences_def component_comparison_def first_of_def
      Let_def case_prod_unfold split: list.splits)

lemma isolated_occurrences:
  "base_occurrences (isolated obs b) = (if b then [obs] else [])"
  "candidate_occurrences (isolated obs b) = (if b then [] else [obs])"
  by (simp_all add: base_occurrences_def candidate_occurrences_def isolated_def)

lemma component_row_occurrences [simp]:
  "base_occurrences (component_row renames b c) = b" "candidate_occurrences (component_row renames b c) = c"
  by (auto simp: component_row_def component_comparison_occurrences isolated_occurrences split: list.splits)

lemma concat_occurrences:
  "concat (map base_occurrences (unaligned_rows renames cls bs cs)) =
     map (pick bs) (exact_ids_of bs cs @ concat (map (\<lambda>(_, b, _). b) (component_ids_of cls bs cs)))"
  "concat (map candidate_occurrences (unaligned_rows renames cls bs cs)) =
     map (pick cs) (exact_ids_of bs cs @ concat (map (\<lambda>(_, _, c). c) (component_ids_of cls bs cs)))"
  by (simp_all add: unaligned_rows_def comp_def case_prod_unfold map_concat)

lemma unaligned_occurrences:
  assumes "distinct (map obs_id bs)" and "distinct (map obs_id cs)"
  shows "mset (concat (map base_occurrences (unaligned_rows renames cls bs cs))) = mset bs"
    and "mset (concat (map candidate_occurrences (unaligned_rows renames cls bs cs))) = mset cs"
proof -
  note perm = exact_then_unmatched [OF assms]
  have "mset (exact_ids_of bs cs @ concat (map (\<lambda>(_, b, _). b) (component_ids_of cls bs cs))) = mset (map obs_id bs)"
    "mset (exact_ids_of bs cs @ concat (map (\<lambda>(_, _, c). c) (component_ids_of cls bs cs))) = mset (map obs_id cs)"
    using perm by (simp_all add: component_ids_of_def Let_def mset_component_groups del: mset_concat mset_map)
  then show "mset (concat (map base_occurrences (unaligned_rows renames cls bs cs))) = mset bs"
    "mset (concat (map candidate_occurrences (unaligned_rows renames cls bs cs))) = mset cs"
    unfolding concat_occurrences using mset_map_pick assms by blast+
qed

lemma linked_outside:
  assumes "E \<subseteq> A \<times> A" and "(x, y) \<in> linked E" and "x \<notin> A \<or> y \<notin> A"
  shows "x = y"
proof -
  have "u = v \<or> u \<in> A \<and> v \<in> A" if "(u, v) \<in> linked E" for u v
    using that unfolding linked_def by (induction rule: rtrancl_induct) (use assms(1) in auto)
  with assms(2,3) show ?thesis by blast
qed

definition side_ids :: "side \<Rightarrow> side \<Rightarrow> digest set" where
  "side_ids B C = obs_id ` set (side_observations B @ side_observations C)"

lemma component_entry:
  "(k, b, c) \<in> set (component_ids_of cls bs cs) \<longleftrightarrow>
     b = filter (\<lambda>i. cls i = k) (sort (map obs_id (unmatched (exact_ids_of bs cs) bs)))
     \<and> c = filter (\<lambda>i. cls i = k) (sort (map obs_id (unmatched (exact_ids_of bs cs) cs)))
     \<and> (b \<noteq> [] \<or> c \<noteq> [])"
  unfolding component_ids_of_def Let_def
  by (subst btree_entries_iff [OF component_groups_ok]) (auto simp: map_of_component_groups Let_def)

lemma component_same_row:
  "(\<Union>(k, b, c) \<in> set (component_ids_of cls bs cs). (set b \<union> set c) \<times> (set b \<union> set c)) =
     {(x, y). x \<in> obs_id ` set (unmatched (exact_ids_of bs cs) bs @ unmatched (exact_ids_of bs cs) cs)
        \<and> y \<in> obs_id ` set (unmatched (exact_ids_of bs cs) bs @ unmatched (exact_ids_of bs cs) cs)
        \<and> cls x = cls y}" (is "?L = ?R")
proof (rule set_eqI, rule iffI)
  fix e assume "e \<in> ?L"
  then obtain k b c where e: "(k, b, c) \<in> set (component_ids_of cls bs cs)" "e \<in> (set b \<union> set c) \<times> (set b \<union> set c)"
    by blast
  then have "set b = {i \<in> obs_id ` set (unmatched (exact_ids_of bs cs) bs). cls i = k}"
    "set c = {i \<in> obs_id ` set (unmatched (exact_ids_of bs cs) cs). cls i = k}"
    by (simp_all add: component_entry)
  with e(2) show "e \<in> ?R" by auto
next
  let ?b = "\<lambda>k. filter (\<lambda>i. cls i = k) (sort (map obs_id (unmatched (exact_ids_of bs cs) bs)))"
  let ?c = "\<lambda>k. filter (\<lambda>i. cls i = k) (sort (map obs_id (unmatched (exact_ids_of bs cs) cs)))"
  fix e assume e: "e \<in> ?R"
  then obtain x y where xy: "e = (x, y)" "x \<in> set (?b (cls x)) \<union> set (?c (cls x))"
      "y \<in> set (?b (cls x)) \<union> set (?c (cls x))" by auto
  then have "(cls x, ?b (cls x), ?c (cls x)) \<in> set (component_ids_of cls bs cs)"
    unfolding component_entry by (metis Un_iff empty_iff list.set(1))
  with xy show "e \<in> ?L" by blast
qed

lemma pick_ids:
  assumes "I \<subseteq> obs_id ` set xs"
  shows "(\<lambda>i. obs_id (pick xs i)) ` I = I"
proof -
  have "(\<lambda>i. obs_id (pick xs i)) ` I = (\<lambda>i. i) ` I"
  proof (rule image_cong [OF refl])
    fix i assume "i \<in> I"
    with assms have "i \<in> obs_id ` set xs" by blast
    then show "obs_id (pick xs i) = i" by (rule pick_obs_id(1))
  qed
  then show ?thesis by simp
qed

lemma row_ids_component:
  assumes "(k, b, c) \<in> set (component_ids_of cls bs cs)"
  shows "row_ids (component_row renames (map (pick bs) b) (map (pick cs) c)) = set b \<union> set c"
proof -
  have "set b \<subseteq> obs_id ` set bs" "set c \<subseteq> obs_id ` set cs"
    using assms by (auto simp: component_entry unmatched_def)
  then show ?thesis
    by (simp add: row_ids_def image_Un image_image pick_ids)
qed

lemma unaligned_same_row:
  assumes "partitions (obs_id ` set (unmatched (exact_ids_of bs cs) bs)
          \<union> obs_id ` set (unmatched (exact_ids_of bs cs) cs)) cls E"
  shows "(\<Union>row \<in> set (unaligned_rows renames cls bs cs). row_ids row \<times> row_ids row)
    = linked E \<inter> (obs_id ` set (bs @ cs) \<times> obs_id ` set (bs @ cs))" (is "?L = ?R")
proof -
  let ?e = "exact_ids_of bs cs"
  let ?U = "obs_id ` set (unmatched ?e bs @ unmatched ?e cs)"
  have exact: "row_ids (exact_comparison (pick bs i) (pick cs i)) = {i}" if "i \<in> set ?e" for i
    using that by (auto simp: row_ids_def exact_ids_of_def pick_obs_id)
  have "?L = (\<Union>i \<in> set ?e. {(i, i)}) \<union>
      (\<Union>(k, b, c) \<in> set (component_ids_of cls bs cs). (set b \<union> set c) \<times> (set b \<union> set c))"
    unfolding unaligned_rows_def set_append set_map UN_Un image_image
    by (intro arg_cong2 [where f = "(\<union>)"] SUP_cong refl)
      (auto simp: exact row_ids_component split: prod.splits)
  also have "\<dots> = Id_on (set ?e) \<union> {(x, y). x \<in> ?U \<and> y \<in> ?U \<and> (x, y) \<in> linked E}"
    unfolding component_same_row using assms by (auto simp: partitions_def)
  also have "\<dots> = ?R"
  proof -
    have U: "obs_id ` set (bs @ cs) = ?U \<union> set ?e" "?U \<inter> set ?e = {}"
      by (auto simp: unmatched_def exact_ids_of_def)
    have "E \<subseteq> ?U \<times> ?U" using assms by (simp add: partitions_def image_Un)
    note out = linked_outside [OF this]
    show ?thesis unfolding U(1) using out U(2) by auto
  qed
  finally show ?thesis .
qed

lemma rows_primary:
  "base (component_row renames b c) = first_of b" "candidate (component_row renames b c) = first_of c"
  by (auto simp: component_row_def component_comparison_def isolated_def first_of_def Let_def case_prod_unfold
      split: list.splits)

lemma distinct_first_keys:
  fixes g h :: "'r \<Rightarrow> observation list"
  assumes "distinct (concat (map (map obs_id \<circ> g) rows))" and "distinct (concat (map (map obs_id \<circ> h) rows))"
    and "\<And>r. r \<in> set rows \<Longrightarrow> g r \<noteq> [] \<or> h r \<noteq> []"
  shows "distinct (map (\<lambda>r. (map_option obs_id (first_of (h r)), map_option obs_id (first_of (g r)))) rows)"
  using assms
proof (induction rows)
  case (Cons r rows)
  have first: "map_option obs_id (first_of xs) = Some i \<Longrightarrow> i \<in> obs_id ` set xs" for xs :: "observation list" and i
    by (cases xs) (auto simp: first_of_def)
  have "map_option obs_id (first_of (g r)) \<noteq> map_option obs_id (first_of (g s))
      \<or> map_option obs_id (first_of (h r)) \<noteq> map_option obs_id (first_of (h s))" if s: "s \<in> set rows" for s
  proof -
    have dis: "obs_id ` set (g r) \<inter> obs_id ` set (g s) = {}" "obs_id ` set (h r) \<inter> obs_id ` set (h s) = {}"
      using Cons.prems(1,2) s by (simp_all add: disjoint_iff)
    from Cons.prems(3) [of r] consider x xs where "g r = x # xs" | x xs where "h r = x # xs"
      by (metis list.set_intros(1) neq_Nil_conv)
    then show ?thesis
    proof cases
      case 1
      then have "map_option obs_id (first_of (g r)) = Some (obs_id x)" "obs_id x \<notin> obs_id ` set (g s)"
        using dis(1) by (auto simp: first_of_def)
      then show ?thesis using first [of "g s" "obs_id x"] by metis
    next
      case 2
      then have "map_option obs_id (first_of (h r)) = Some (obs_id x)" "obs_id x \<notin> obs_id ` set (h s)"
        using dis(2) by (auto simp: first_of_def)
      then show ?thesis using first [of "h s" "obs_id x"] by metis
    qed
  qed
  then show ?case using Cons by auto
qed simp

lemma unaligned_keys_distinct:
  assumes "distinct (map obs_id bs)" and "distinct (map obs_id cs)"
  shows "distinct (map row_key (unaligned_rows renames cls bs cs))"
proof -
  let ?rows = "unaligned_rows renames cls bs cs"
  have key: "row_key r = (map_option obs_id (first_of (candidate_occurrences r)),
      map_option obs_id (first_of (base_occurrences r)))" if "r \<in> set ?rows" for r
    using that by (auto simp: unaligned_rows_def row_key_def rows_primary first_of_def)
  have primary: "base_occurrences r \<noteq> [] \<or> candidate_occurrences r \<noteq> []" if "r \<in> set ?rows" for r
    using that by (auto simp: unaligned_rows_def component_entry)
  have flat: "concat (map (map obs_id \<circ> f) ?rows) = map obs_id (concat (map f ?rows))" for f
    by (simp add: map_concat)
  have "distinct (concat (map (map obs_id \<circ> base_occurrences) ?rows))"
    "distinct (concat (map (map obs_id \<circ> candidate_occurrences) ?rows))"
    unfolding flat using unaligned_occurrences [OF assms, of renames cls] assms
    by (metis mset_eq_imp_distinct_iff mset_map)+
  from distinct_first_keys [OF this primary] show ?thesis
    by (simp add: key cong: map_cong)
qed

lemma correlate_cases:
  obtains (duplicate) "correlate sha B C = Some (Inl Internal)"
      "\<not> (distinct (map obs_id (side_observations B)) \<and> distinct (map obs_id (side_observations C)))"
    | (rows) cls where
      "correlate sha B C = Some (Inr (sort_key row_key (unaligned_rows
          (unique_path_pairs (side_documents B) (side_documents C)) cls (side_observations B) (side_observations C))))"
      "partitions (obs_id ` set (unmatched (exact_ids_of (side_observations B) (side_observations C)) (side_observations B))
          \<union> obs_id ` set (unmatched (exact_ids_of (side_observations B) (side_observations C)) (side_observations C)))
          cls (plausible_graph sha B C)"
      "distinct (map obs_id (side_observations B))" "distinct (map obs_id (side_observations C))"
proof (cases "distinct (map obs_id (side_observations B)) \<and> distinct (map obs_id (side_observations C))")
  case True
  then show ?thesis
    using rows correlate_unaligned_rows [of B C sha] by (auto simp: correlate_rows)
next
  case False
  then show ?thesis
    using duplicate correlate_unaligned_duplicate [of B C sha] by (auto simp: correlate_rows)
qed

text \<open>
  C2. Correlation always returns. It fails, with the internal defect, exactly when one side
  holds an observation identity twice; otherwise every observation of each side occurs
  exactly once in the rows, as a primary or as an alternative.
\<close>

theorem correlate_conserves:
  "case correlate sha B C of
     None \<Rightarrow> False
   | Some (Inl e) \<Rightarrow> e = Internal
       \<and> \<not> (distinct (map obs_id (side_observations B)) \<and> distinct (map obs_id (side_observations C)))
   | Some (Inr rows) \<Rightarrow>
       distinct (map obs_id (side_observations B)) \<and> distinct (map obs_id (side_observations C))
       \<and> mset (concat (map base_occurrences rows)) = mset (side_observations B)
       \<and> mset (concat (map candidate_occurrences rows)) = mset (side_observations C)"
proof (cases rule: correlate_cases [of sha B C])
  case (rows cls)
  have "mset (concat (map f (sort_key row_key xs))) = mset (concat (map f xs))" for f :: "comparison \<Rightarrow> observation list" and xs
    by (simp add: mset_concat mset_map [symmetric] del: mset_map)
      (simp add: sum_mset_sum_list [symmetric] multiset.map_comp)
  with rows unaligned_occurrences [OF rows(3,4)] show ?thesis by simp
qed simp

text \<open>
  C1. Two identities are in one row exactly when plausible edges link them: an edge joins
  an unmatched base observation to an unmatched candidate observation of the same
  correlation key in the same document, or across a rename with the same projection.
\<close>

theorem correlate_components:
  "case correlate sha B C of
     None \<Rightarrow> False
   | Some (Inl e) \<Rightarrow> e = Internal
   | Some (Inr rows) \<Rightarrow>
       (\<Union>row \<in> set rows. row_ids row \<times> row_ids row)
         = linked (plausible_graph sha B C) \<inter> (side_ids B C \<times> side_ids B C)"
proof (cases rule: correlate_cases [of sha B C])
  case (rows cls)
  then show ?thesis using unaligned_same_row [OF rows(2)] by (simp add: side_ids_def)
qed simp

text \<open>
  C14. The rows come out strictly ordered by the candidate's and then the base's primary
  identity, so the unstable sort of the source has one possible result.
\<close>

theorem correlate_ordered:
  "case correlate sha B C of
     None \<Rightarrow> False
   | Some (Inl e) \<Rightarrow> e = Internal
   | Some (Inr rows) \<Rightarrow> sorted_wrt (<) (map row_key rows)"
proof (cases rule: correlate_cases [of sha B C])
  case (rows cls)
  let ?rows = "unaligned_rows (unique_path_pairs (side_documents B) (side_documents C)) cls
      (side_observations B) (side_observations C)"
  have "distinct (map row_key ?rows)" by (rule unaligned_keys_distinct [OF rows(3,4)])
  then have "distinct (map row_key (sort_key row_key ?rows))"
    using mset_eq_imp_distinct_iff [of "map row_key (sort_key row_key ?rows)" "map row_key ?rows"] by simp
  then have "sorted_wrt (<) (map row_key (sort_key row_key ?rows))" by (simp add: strict_sorted_iff)
  with rows(1) show ?thesis by simp
qed simp

text \<open>
  C13. The aligned fast path is an optimisation only: for all inputs the result is that of
  the general path, sorted.
\<close>

theorem correlate_fast_path:
  "correlate sha B C =
     map_option (\<lambda>res. rbind res (\<lambda>rows. Inr (sort_key row_key rows))) (correlate_unaligned sha B C)"
  by (rule correlate_rows)

section \<open>Shapes\<close>

definition row_shape :: "comparison \<Rightarrow> bool" where
  "row_shape row =
     (let alternatives = alternatives_base row @ alternatives_candidate row
      in case outcome row of
           Exact \<Rightarrow> base row \<noteq> None \<and> candidate row \<noteq> None \<and> alternatives = []
         | Candidate \<Rightarrow> base row \<noteq> None \<and> candidate row \<noteq> None \<and> alternatives = []
         | Outcome_None \<Rightarrow> (base row = None) \<noteq> (candidate row = None) \<and> alternatives = []
         | Ambiguous \<Rightarrow> base row \<noteq> None \<and> candidate row \<noteq> None \<and> alternatives \<noteq> [])"

lemma row_shape_exact: "row_shape (exact_comparison l r)"
  by (simp add: row_shape_def)

lemma row_shape_component:
  assumes "b \<noteq> [] \<or> c \<noteq> []" and "b = [] \<Longrightarrow> length c = 1" and "c = [] \<Longrightarrow> length b = 1"
  shows "row_shape (component_row renames b c)"
  using assms
  by (auto simp: row_shape_def component_row_def component_comparison_def isolated_def first_of_def Let_def
      case_prod_unfold split: list.splits)

lemma linked_has_edge:
  assumes "(x, y) \<in> linked E" and "x \<noteq> y"
  shows "\<exists>z. (x, z) \<in> E \<or> (z, x) \<in> E"
  using assms unfolding linked_def by (induction rule: converse_rtrancl_induct) auto

lemma partitions_iff:
  "partitions A cls E \<Longrightarrow> x \<in> A \<Longrightarrow> y \<in> A \<Longrightarrow> cls x = cls y \<longleftrightarrow> (x, y) \<in> linked E"
  by (simp add: partitions_def)

lemma one_sided_component:
  assumes part: "partitions A cls E" and bip: "E \<subseteq> P \<times> Q \<union> Q \<times> P" and A: "P \<subseteq> A" "Q \<subseteq> A" "P \<inter> Q = {}"
    and xs: "distinct xs" "\<And>x. x \<in> set xs \<Longrightarrow> x \<in> P \<and> cls x = k" "xs \<noteq> []"
    and none: "\<And>q. q \<in> Q \<Longrightarrow> cls q \<noteq> k"
  shows "length xs = 1"
proof -
  have same: "x = y" if xy: "x \<in> set xs" "y \<in> set xs" for x y
  proof (rule ccontr)
    assume "x \<noteq> y"
    have x: "x \<in> P" "cls x = k" and y: "y \<in> P" "cls y = k" using xs(2) xy by auto
    then have "(x, y) \<in> linked E" using partitions_iff [OF part, of x y] A(1) by auto
    from linked_has_edge [OF this \<open>x \<noteq> y\<close>] obtain z where z: "(x, z) \<in> E \<or> (z, x) \<in> E" by blast
    then have "(x, z) \<in> linked E" by (auto intro: linked_edge linked_sym)
    moreover from z bip x(1) A(3) have "z \<in> Q" by auto
    moreover from this A x have "x \<in> A" "z \<in> A" by auto
    ultimately have "cls z = k" using partitions_iff [OF part, of x z] x(2) by simp
    with none \<open>z \<in> Q\<close> show False by blast
  qed
  obtain x rest where rest: "xs = x # rest" using xs(3) by (cases xs) auto
  then have "rest = []" using same [of x] xs(1) by (cases rest) auto
  with rest show ?thesis by simp
qed

lemma unaligned_shapes:
  assumes d: "distinct (map obs_id bs)" "distinct (map obs_id cs)"
    and part: "partitions (obs_id ` set (unmatched (exact_ids_of bs cs) bs)
          \<union> obs_id ` set (unmatched (exact_ids_of bs cs) cs)) cls E"
    and bip: "E \<subseteq> obs_id ` set (unmatched (exact_ids_of bs cs) bs) \<times> obs_id ` set (unmatched (exact_ids_of bs cs) cs)"
    and row: "row \<in> set (unaligned_rows renames cls bs cs)"
  shows "row_shape row"
proof -
  let ?P = "obs_id ` set (unmatched (exact_ids_of bs cs) bs)"
  let ?Q = "obs_id ` set (unmatched (exact_ids_of bs cs) cs)"
  have disj: "?P \<inter> ?Q = {}" by (auto simp: unmatched_def exact_ids_of_def)
  have "row_shape (component_row renames (map (pick bs) b) (map (pick cs) c))"
    if e: "(k, b, c) \<in> set (component_ids_of cls bs cs)" for k b c
  proof (rule row_shape_component)
    have b: "set b = {i \<in> ?P. cls i = k}" "distinct b" and c: "set c = {i \<in> ?Q. cls i = k}" "distinct c"
      and ne: "b \<noteq> [] \<or> c \<noteq> []"
      using e d by (auto simp: component_entry unmatched_def distinct_map_filter)
    show "map (pick bs) b \<noteq> [] \<or> map (pick cs) c \<noteq> []" using ne by simp
    show "length (map (pick cs) c) = 1" if "map (pick bs) b = []"
    proof -
      have "length c = 1"
        using that b(1) c ne disj bip by (intro one_sided_component [OF part, where P = ?Q and Q = ?P and k = k]) auto
      then show ?thesis by simp
    qed
    show "length (map (pick bs) b) = 1" if "map (pick cs) c = []"
    proof -
      have "length b = 1"
        using that b c(1) ne disj bip by (intro one_sided_component [OF part, where P = ?P and Q = ?Q and k = k]) auto
      then show ?thesis by simp
    qed
  qed
  with row show ?thesis by (auto simp: unaligned_rows_def row_shape_exact)
qed

text \<open>
  C23. The shape of a row is told by its outcome: exact and candidate rows pair two
  observations, a row without counterpart holds one observation of one side, and an
  ambiguous row has a primary on both sides and at least one alternative.
\<close>

theorem correlate_shapes:
  "case correlate sha B C of
     None \<Rightarrow> False
   | Some (Inl e) \<Rightarrow> e = Internal
   | Some (Inr rows) \<Rightarrow> list_all row_shape rows"
proof (cases rule: correlate_cases [of sha B C])
  case (rows cls)
  have "plausible_graph sha B C \<subseteq>
      obs_id ` set (unmatched (exact_ids_of (side_observations B) (side_observations C)) (side_observations B))
      \<times> obs_id ` set (unmatched (exact_ids_of (side_observations B) (side_observations C)) (side_observations C))"
    by (auto simp: plausible_graph_def plausible_edges_def Let_def)
  from unaligned_shapes [OF rows(3,4,2) this] rows(1) show ?thesis by (simp add: list_all_iff)
qed simp

section \<open>Stories\<close>
















end
