(* ===== verification/Scan_Renames.thy ===== *)
theory Scan_Renames
  imports Scan_Components
begin

text \<open>
  The rename rule of \<open>unique_path_pairs\<close>, \<open>crates/amiss-scan/src/correlate/components.rs\<close>: a
  removed document pairs with an added one exactly when their identity, mode and raw
  digest, is held by no other removed and no other added document.
\<close>

lemma by_identity_ok: "btree_ok (by_identity items)"
  unfolding by_identity_def case_prod_unfold by (rule btree.invar_fold_alter) simp

lemma by_identity_lookup:
  "map_of (by_identity items) i =
     (case filter (\<lambda>x. snd x = i) items of
        [] \<Rightarrow> None | [x] \<Rightarrow> Some (Some (fst x)) | _ \<Rightarrow> Some None)"
proof -
  have lost: "fold (\<lambda>x acc. None) xs a = (if xs = [] then a else None)" for xs and a :: "'p option"
    by (induction xs arbitrary: a) auto
  show ?thesis
    unfolding by_identity_def case_prod_unfold
    by (subst btree.lookup_fold_group)
      (auto simp: lost split: list.splits)
qed

definition pair_step ::
  "('i \<Rightarrow> rpath option option) \<Rightarrow> 'i \<times> rpath option \<Rightarrow> (rpath, rpath) btree \<Rightarrow> (rpath, rpath) btree" where
  "pair_step look entry pairs =
     (case (snd entry, look (fst entry)) of
        (Some from, Some (Some to)) \<Rightarrow> btree_insert from to pairs
      | _ \<Rightarrow> pairs)"

lemma pair_step_fold:
  assumes "\<And>i j f. (i, Some f) \<in> set xs \<Longrightarrow> (j, Some f) \<in> set xs \<Longrightarrow> i = j"
  shows "btree_ok (fold (pair_step look) xs []) \<and>
     (map_of (fold (pair_step look) xs []) p = Some q
       \<longleftrightarrow> (\<exists>i. (i, Some p) \<in> set xs \<and> look i = Some (Some q)))"
  using assms
proof (induction xs arbitrary: p q rule: rev_induct)
  case (snoc x xs)
  obtain i source where x: "x = (i, source)" by (rule prod.exhaust)
  have prem: "\<And>i j f. (i, Some f) \<in> set xs \<Longrightarrow> (j, Some f) \<in> set xs \<Longrightarrow> i = j"
    by (rule snoc.prems) auto
  have IH: "btree_ok (fold (pair_step look) xs [])"
    "\<And>p q. map_of (fold (pair_step look) xs []) p = Some q
       \<longleftrightarrow> (\<exists>i. (i, Some p) \<in> set xs \<and> look i = Some (Some q))"
    using snoc.IH [OF prem] by auto
  have uniq: "\<And>j f. source = Some f \<Longrightarrow> (j, Some f) \<in> set xs \<Longrightarrow> j = i"
    using snoc.prems [of i _] by (auto simp: x)
  define m where "m = fold (pair_step look) xs []"
  have last: "fold (pair_step look) (xs @ [x]) [] = pair_step look (i, source) m" by (simp add: m_def x)
  show ?case
  proof (cases "\<exists>f t. source = Some f \<and> look i = Some (Some t)")
    case True
    then obtain f t where ft: "source = Some f" "look i = Some (Some t)" by blast
    show ?thesis
      unfolding last using IH [folded m_def]
      by (auto simp: pair_step_def ft x dest!: uniq [OF ft(1)])
  next
    case False
    then have "pair_step look (i, source) m = m" by (auto simp: pair_step_def split: option.splits)
    with IH [folded m_def] False show ?thesis unfolding last by (auto simp: x)
  qed
qed simp

lemma unique_path_pairs_fold:
  "unique_path_pairs base candidate =
     fold (pair_step (map_of (by_identity (filter (\<lambda>(path, _). \<not> contains_key base path) candidate))))
       (by_identity (filter (\<lambda>(path, _). \<not> contains_key candidate path) base)) []"
  unfolding unique_path_pairs_def Let_def
  by (rule arg_cong [where f = "\<lambda>f. fold f _ _"]) (auto simp: fun_eq_iff pair_step_def split: option.splits)

definition sole_holder :: "(rpath, 'i) btree \<Rightarrow> (rpath, 'i) btree \<Rightarrow> 'i \<Rightarrow> rpath \<Rightarrow> bool" where
  "sole_holder here there identity path \<longleftrightarrow>
     {p. map_of here p = Some identity \<and> map_of there p = None} = {path}"

lemma distinct_singleton_iff: "distinct xs \<Longrightarrow> xs = [a] \<longleftrightarrow> set xs = {a}"
  by (cases xs; cases "tl xs") auto

lemma sole_holder_lookup:
  assumes "btree_ok here"
  shows "map_of (by_identity (filter (\<lambda>(path, _). \<not> contains_key there path) here)) i = Some (Some p)
     \<longleftrightarrow> sole_holder here there i p"
proof -
  let ?xs = "filter (\<lambda>x. snd x = i) (filter (\<lambda>(path, _). \<not> contains_key there path) here)"
  have "distinct here" using assms btree.distinct_entries distinct_map by blast
  then have d: "distinct ?xs" by simp
  have single: "?xs = [(p, i)] \<longleftrightarrow> set ?xs = {(p, i)}" by (rule distinct_singleton_iff [OF d])
  have "(\<exists>x. ?xs = [x] \<and> fst x = p) \<longleftrightarrow> ?xs = [(p, i)]"
  proof
    assume "\<exists>x. ?xs = [x] \<and> fst x = p"
    then obtain x where x: "?xs = [x]" "fst x = p" by blast
    then have "x \<in> set ?xs" by simp
    then have "snd x = i" by simp
    with x show "?xs = [(p, i)]" by (cases x) simp
  qed simp
  moreover have "map_of (by_identity (filter (\<lambda>(path, _). \<not> contains_key there path) here)) i = Some (Some p)
     \<longleftrightarrow> (\<exists>x. ?xs = [x] \<and> fst x = p)"
    unfolding by_identity_lookup by (auto split: list.splits)
  moreover have "set ?xs = (\<lambda>p. (p, i)) ` {p. map_of here p = Some i \<and> map_of there p = None}"
    by (auto simp: contains_key_def btree_entries_iff [OF assms])
  ultimately show ?thesis
    unfolding sole_holder_def single by (auto simp: inj_image_eq_iff)
qed

text \<open>
  C22. The rename pairs are exactly the pairs of a removed and an added document that
  are, each on its side, the only holder of one shared identity.
\<close>

theorem unique_path_pairs_iff:
  assumes "btree_ok base" and "btree_ok candidate"
  shows "map_of (unique_path_pairs base candidate) p = Some q \<longleftrightarrow>
     (\<exists>i. sole_holder base candidate i p \<and> sole_holder candidate base i q)"
proof -
  let ?removed = "by_identity (filter (\<lambda>(path, _). \<not> contains_key candidate path) base)"
  have removed: "(i, Some f) \<in> set ?removed \<longleftrightarrow> sole_holder base candidate i f" for i f
    unfolding btree_entries_iff [OF by_identity_ok] by (rule sole_holder_lookup [OF assms(1)])
  have sole: "i = j" if "sole_holder base candidate i f" "sole_holder base candidate j f" for i j f
  proof -
    have "map_of base f = Some i" "map_of base f = Some j" using that by (auto simp: sole_holder_def)
    then show ?thesis by simp
  qed
  have one: "i = j" if "(i, Some f) \<in> set ?removed" "(j, Some f) \<in> set ?removed" for i j f
    using that unfolding removed by (rule sole)
  from pair_step_fold [of ?removed, OF one] show ?thesis
    unfolding unique_path_pairs_fold by (simp add: removed sole_holder_lookup [OF assms(2)])
qed

theorem unique_path_pairs_iff_witness:
  "map_of (unique_path_pairs [([], 1 :: nat), (''b'', 2)] [(''b'', 2), (''ba'', 1)]) [] = Some ''ba''"
proof -
  have ok: "btree_ok [([] :: bytes, 1 :: nat), (''b'', 2)]" "btree_ok [(''b'', 2 :: nat), (''ba'', 1)]"
    by simp_all
  have "sole_holder [([], 1 :: nat), (''b'', 2)] [(''b'', 2), (''ba'', 1)] 1 []"
    "sole_holder [(''b'', 2 :: nat), (''ba'', 1)] [([], 1), (''b'', 2)] 1 ''ba''"
    by (auto simp: sole_holder_def split: if_splits)
  with unique_path_pairs_iff [OF ok, of "[]" "''ba''"] show ?thesis by blast
qed

end
