(* ===== verification/Scan_Policy.thy ===== *)
theory Scan_Policy
  imports Wire_Policy Wire_Errors Btree
begin

text \<open>
  The policy of one run, \<open>crates/amiss-scan/src/policy.rs\<close>, \<open>policy/effects.rs\<close> and \<open>policy/floor.rs\<close>:
  the bindings of the external controls, the comparison of the base and the candidate
  policy with the control findings it seeds, and the limits a floor tightens. What the
  canonicalizer writes for a statement or a descriptor is a parameter.
\<close>

section \<open>Inputs\<close>

datatype request_trust = ExternalRequiredCheck | OrganizationPolicy

record floor_input =
  input_floor :: organization_floor
  floor_digest :: digest
  floor_trust :: request_trust

record debt_input =
  input_snapshot :: debt_snapshot
  debt_input_digest :: digest
  debt_trust :: request_trust

record waiver_input =
  input_bundle :: waiver_bundle
  waiver_input_digest :: digest
  waiver_trust :: request_trust

record time_input =
  input_statement :: trusted_time_statement
  input_provider :: bytes
  input_provider_run_id :: bytes
  input_provider_run_attempt :: u64

record constraint_input =
  input_descriptor :: execution_constraint_descriptor
  constraint_trust :: request_trust

record time_context =
  time_statement :: trusted_time_statement
  time_digest :: digest

record constraint_context =
  context_descriptor :: execution_constraint_descriptor
  constraint_digest :: digest
  context_trust :: request_trust

section \<open>Bindings\<close>

definition plain_detail :: "analysis_error_code \<Rightarrow> error_detail" where
  "plain_detail code = \<lparr>detail_code = code, detail_path = None, detail_path_bytes = None,
     detail_resource = None, detail_json_path = None\<rparr>"

definition binding_mismatch_row :: error_detail where
  "binding_mismatch_row = plain_detail Code_ControlBindingMismatch"

definition trusted_time_invalid_row :: error_detail where
  "trusted_time_invalid_row = plain_detail Code_TrustedTimeInvalid"

definition verify_floor ::
  "floor_input \<Rightarrow> repository_identity option \<Rightarrow> bytes option \<Rightarrow> profile \<Rightarrow> (error_detail, unit) result" where
  "verify_floor input repository target_ref profile =
     (case repository of
        None \<Rightarrow> Inl (plain_detail Code_ControlBindingMismatch)
      | Some identity \<Rightarrow>
          let f = input_floor input in
          if floor_repository f \<noteq> identity then Inl (plain_detail Code_ControlBindingMismatch)
          else if target_ref \<noteq> Some (branch_ref_str (floor_ref_name f))
          then Inl (plain_detail Code_ControlBindingMismatch)
          else if profile < minimum_profile f then Inl (plain_detail Code_ControlBindingMismatch)
          else Inr ())"

definition identity_matches ::
  "repository_identity \<Rightarrow> branch_ref \<Rightarrow> repository_identity option \<Rightarrow> bytes option \<Rightarrow> bool" where
  "identity_matches control control_ref repository target_ref \<longleftrightarrow>
     repository = Some control \<and> target_ref = Some (branch_ref_str control_ref)"

definition verify_item_limit :: "resource_name \<Rightarrow> nat \<Rightarrow> u64 \<Rightarrow> (error_detail, unit) result" where
  "verify_item_limit resource item_count limit =
     (if u64_of_usize item_count \<le> limit then Inr ()
      else Inl ((plain_detail Code_ResourceLimitExceeded)
             \<lparr>detail_resource := Some (resource, limit, saturating_add limit 1)\<rparr>))"

definition TRUSTED_TIME_STATEMENT_SCHEMA :: bytes where
  "TRUSTED_TIME_STATEMENT_SCHEMA = ''amiss/scanner-trusted-time-statement''"

definition EXECUTION_CONSTRAINT_SCHEMA :: bytes where
  "EXECUTION_CONSTRAINT_SCHEMA = ''amiss/scanner-execution-constraint''"

definition map_err :: "'f \<Rightarrow> ('e, 'a) result \<Rightarrow> ('f, 'a) result" where
  "map_err f r = (case r of Inl _ \<Rightarrow> Inl f | Inr a \<Rightarrow> Inr a)"

definition verify_time ::
  "sha256 \<Rightarrow> (trusted_time_statement \<Rightarrow> bytes option) \<Rightarrow> time_input
   \<Rightarrow> repository_identity option \<Rightarrow> bytes option \<Rightarrow> digest \<Rightarrow> (error_detail, time_context) result" where
  "verify_time sha write input repository target_ref candidate_identity =
     (let s = input_statement input;
          bound = identity_matches (time_repository s) (time_ref_name s) repository target_ref
            \<and> candidate_identity_digest s = candidate_identity
            \<and> time_provider s = input_provider input
            \<and> provider_run_id s = input_provider_run_id input
            \<and> provider_run_attempt s = input_provider_run_attempt input
      in if \<not> bound then Inl trusted_time_invalid_row
         else rbind (map_err trusted_time_invalid_row (trusted_time_validate s)) (\<lambda>_.
           rbind (ok_or trusted_time_invalid_row
               (document_digest sha write TRUSTED_TIME_STATEMENT_SCHEMA s))
             (\<lambda>digest. Inr \<lparr>time_statement = s, time_digest = digest\<rparr>)))"

definition verify_constraint ::
  "sha256 \<Rightarrow> (execution_constraint_descriptor \<Rightarrow> bytes option) \<Rightarrow> constraint_input
   \<Rightarrow> (error_detail, constraint_context) result" where
  "verify_constraint sha write input =
     rbind (map_err (plain_detail Code_ConfigurationInvalid)
         (execution_constraint_validate (input_descriptor input))) (\<lambda>_.
       rbind (ok_or (plain_detail Code_ConfigurationInvalid)
           (document_digest sha write EXECUTION_CONSTRAINT_SCHEMA (input_descriptor input)))
         (\<lambda>digest. Inr \<lparr>context_descriptor = input_descriptor input, constraint_digest = digest,
                       context_trust = constraint_trust input\<rparr>))"

definition verify_debt ::
  "debt_input \<Rightarrow> repository_identity option \<Rightarrow> bytes option \<Rightarrow> floor_input option \<Rightarrow> utc_instant \<Rightarrow> u64
   \<Rightarrow> (error_detail, unit) result" where
  "verify_debt input repository target_ref flr instant item_limit =
     (let s = input_snapshot input in
      rbind (verify_item_limit Resource_DebtItems (length (snapshot_items s)) item_limit) (\<lambda>_.
      rbind (ok_or binding_mismatch_row flr) (\<lambda>f.
        let bound = identity_matches (debt_repository s) (debt_ref_name s) repository target_ref
              \<and> debt_floor_digest s = floor_digest f
              \<and> debt_snapshot_created_at s \<le> instant
              \<and> list_all (\<lambda>item. debt_created_at item \<le> instant
                    \<and> debt_owner item \<in> set (authorized_debt_owners (input_floor f))) (snapshot_items s)
        in if bound then Inr () else Inl binding_mismatch_row)))"

definition verify_waiver ::
  "waiver_input \<Rightarrow> repository_identity option \<Rightarrow> bytes option \<Rightarrow> floor_input option \<Rightarrow> utc_instant \<Rightarrow> u64
   \<Rightarrow> (error_detail, unit) result" where
  "verify_waiver input repository target_ref flr instant item_limit =
     (let b = input_bundle input in
      rbind (verify_item_limit Resource_WaiverItems (length (bundle_items b)) item_limit) (\<lambda>_.
      rbind (ok_or binding_mismatch_row flr) (\<lambda>f.
        let bound = identity_matches (waiver_repository b) (waiver_ref_name b) repository target_ref
              \<and> waiver_floor_digest b = floor_digest f
              \<and> waiver_bundle_created_at b \<le> instant
        in if bound then Inr () else Inl binding_mismatch_row)))"

section \<open>Limits a floor tightens\<close>

record git_limits =
  inflated_object_bytes :: u64
  compressed_stream_bytes :: u64
  aggregate_compressed_bytes :: u64
  pack_directory_entries :: u64
  pack_files :: u64
  pack_index_bytes :: u64
  aggregate_pack_index_bytes :: u64
  delta_depth :: u64
  index_bytes :: u64
  tree_entries_per_snapshot :: u64
  raw_path_bytes :: u64

definition GIT_CONTRACT :: git_limits where
  "GIT_CONTRACT = \<lparr>inflated_object_bytes = 134217728, compressed_stream_bytes = 268435456,
     aggregate_compressed_bytes = 2147483648, pack_directory_entries = 8192, pack_files = 4096,
     pack_index_bytes = 536870912, aggregate_pack_index_bytes = 1073741824, delta_depth = 128,
     index_bytes = 268435456, tree_entries_per_snapshot = 1000000, raw_path_bytes = 4096\<rparr>"

text \<open>The slot a resource is read from and written to; four resources have none.\<close>

primrec limit_slot :: "resource_name \<Rightarrow> scan_limits \<times> git_limits \<Rightarrow> u64 option" where
  "limit_slot Resource_GitObjectBytes = (\<lambda>l. Some (inflated_object_bytes (snd l)))"
| "limit_slot Resource_GitCompressedObjectBytes = (\<lambda>l. Some (compressed_stream_bytes (snd l)))"
| "limit_slot Resource_AggregateGitCompressedObjectBytesPerEvaluation = (\<lambda>l. Some (aggregate_compressed_bytes (snd l)))"
| "limit_slot Resource_GitPackDirectoryEntries = (\<lambda>l. Some (pack_directory_entries (snd l)))"
| "limit_slot Resource_GitPackFiles = (\<lambda>l. Some (pack_files (snd l)))"
| "limit_slot Resource_GitPackIndexBytes = (\<lambda>l. Some (pack_index_bytes (snd l)))"
| "limit_slot Resource_AggregateGitPackIndexBytes = (\<lambda>l. Some (aggregate_pack_index_bytes (snd l)))"
| "limit_slot Resource_GitDeltaDepth = (\<lambda>l. Some (delta_depth (snd l)))"
| "limit_slot Resource_GitIndexBytes = (\<lambda>l. Some (index_bytes (snd l)))"
| "limit_slot Resource_GitTreeEntriesPerSnapshot = (\<lambda>l. Some (tree_entries_per_snapshot (snd l)))"
| "limit_slot Resource_DocumentsPerSnapshot = (\<lambda>l. Some (documents_per_snapshot (fst l)))"
| "limit_slot Resource_ControlInputBytes = (\<lambda>l. Some (control_input_bytes (fst l)))"
| "limit_slot Resource_SelectedControlBlobBytes = (\<lambda>l. Some (selected_control_blob_bytes (fst l)))"
| "limit_slot Resource_AggregateSelectedControlBytesPerSnapshot = (\<lambda>l. Some (aggregate_selected_control_bytes_per_snapshot (fst l)))"
| "limit_slot Resource_RepositoryPolicyEntries = (\<lambda>l. Some (repository_policy_entries (fst l)))"
| "limit_slot Resource_DebtItems = (\<lambda>l. Some (debt_items (fst l)))"
| "limit_slot Resource_WaiverItems = (\<lambda>l. Some (waiver_items (fst l)))"
| "limit_slot Resource_RawPathBytes = (\<lambda>l. Some (raw_path_bytes (snd l)))"
| "limit_slot Resource_DocumentBlobBytes = (\<lambda>l. Some (document_blob_bytes (fst l)))"
| "limit_slot Resource_ReferencedTargetBlobBytes = (\<lambda>l. Some (referenced_target_blob_bytes (fst l)))"
| "limit_slot Resource_AggregateReferencedTargetBytesPerSnapshot = (\<lambda>l. Some (aggregate_referenced_target_bytes_per_snapshot (fst l)))"
| "limit_slot Resource_IgnoreDeclarationBlobBytes = (\<lambda>l. Some (ignore_declaration_blob_bytes (fst l)))"
| "limit_slot Resource_AggregateIgnoreDeclarationBytesPerSnapshot = (\<lambda>l. Some (aggregate_ignore_declaration_bytes_per_snapshot (fst l)))"
| "limit_slot Resource_AggregateLineFragmentEvaluationBytesPerSnapshot = (\<lambda>l. Some (aggregate_line_fragment_evaluation_bytes_per_snapshot (fst l)))"
| "limit_slot Resource_AggregateHeadingAnchorEvaluationBytesPerSnapshot = (\<lambda>l. Some (aggregate_heading_anchor_evaluation_bytes_per_snapshot (fst l)))"
| "limit_slot Resource_ProjectionAssertionsPerSnapshot = (\<lambda>l. Some (projection_assertions_per_snapshot (fst l)))"
| "limit_slot Resource_AggregateProjectionSelectedBytesPerSnapshot = (\<lambda>l. Some (aggregate_projection_selected_bytes_per_snapshot (fst l)))"
| "limit_slot Resource_ProjectionRecordsComparedPerSnapshot = (\<lambda>l. Some (projection_records_compared_per_snapshot (fst l)))"
| "limit_slot Resource_AggregateProjectionProjectedBytesPerSnapshot = (\<lambda>l. Some (aggregate_projection_projected_bytes_per_snapshot (fst l)))"
| "limit_slot Resource_AggregateProjectionPreviewBytesPerSnapshot = (\<lambda>l. Some (aggregate_projection_preview_bytes_per_snapshot (fst l)))"
| "limit_slot Resource_AggregateDocumentBytesPerSnapshot = (\<lambda>l. Some (aggregate_document_bytes_per_snapshot (fst l)))"
| "limit_slot Resource_RawLinkDestinationBytes = (\<lambda>l. Some (raw_link_destination_bytes (fst l)))"
| "limit_slot Resource_ParserNesting = (\<lambda>l. Some (parser_nesting (fst l)))"
| "limit_slot Resource_ParserNodesPerDocument = (\<lambda>l. Some (parser_nodes_per_document (fst l)))"
| "limit_slot Resource_ParserNodesPerSnapshot = (\<lambda>l. Some (parser_nodes_per_snapshot (fst l)))"
| "limit_slot Resource_AggregateEmbeddedCodeEvaluationBytesPerSnapshot = (\<lambda>l. Some (aggregate_embedded_code_evaluation_bytes_per_snapshot (fst l)))"
| "limit_slot Resource_ReferencesPerDocument = (\<lambda>l. Some (references_per_document (fst l)))"
| "limit_slot Resource_ReferencesPerSnapshot = (\<lambda>l. Some (references_per_snapshot (fst l)))"
| "limit_slot Resource_DeclaredLabelsPerSnapshot = (\<lambda>l. Some (declared_labels_per_snapshot (fst l)))"
| "limit_slot Resource_OrganizationPolicyEntries = (\<lambda>_. None)"
| "limit_slot Resource_CompleteFindings = (\<lambda>l. Some (complete_findings (fst l)))"
| "limit_slot Resource_TypedAnalysisErrorsRetained = (\<lambda>l. Some (errors_retained (fst l)))"
| "limit_slot Resource_MachineJsonBytes = (\<lambda>_. None)"
| "limit_slot Resource_PrivateTemporaryStorageBytes = (\<lambda>_. None)"
| "limit_slot Resource_EvaluatorManagedMemoryBytes = (\<lambda>_. None)"

primrec set_limit_slot :: "resource_name \<Rightarrow> u64 \<Rightarrow> scan_limits \<times> git_limits \<Rightarrow> scan_limits \<times> git_limits" where
  "set_limit_slot Resource_GitObjectBytes = (\<lambda>v l. (fst l, (snd l)\<lparr>inflated_object_bytes := v\<rparr>))"
| "set_limit_slot Resource_GitCompressedObjectBytes = (\<lambda>v l. (fst l, (snd l)\<lparr>compressed_stream_bytes := v\<rparr>))"
| "set_limit_slot Resource_AggregateGitCompressedObjectBytesPerEvaluation = (\<lambda>v l. (fst l, (snd l)\<lparr>aggregate_compressed_bytes := v\<rparr>))"
| "set_limit_slot Resource_GitPackDirectoryEntries = (\<lambda>v l. (fst l, (snd l)\<lparr>pack_directory_entries := v\<rparr>))"
| "set_limit_slot Resource_GitPackFiles = (\<lambda>v l. (fst l, (snd l)\<lparr>pack_files := v\<rparr>))"
| "set_limit_slot Resource_GitPackIndexBytes = (\<lambda>v l. (fst l, (snd l)\<lparr>pack_index_bytes := v\<rparr>))"
| "set_limit_slot Resource_AggregateGitPackIndexBytes = (\<lambda>v l. (fst l, (snd l)\<lparr>aggregate_pack_index_bytes := v\<rparr>))"
| "set_limit_slot Resource_GitDeltaDepth = (\<lambda>v l. (fst l, (snd l)\<lparr>delta_depth := v\<rparr>))"
| "set_limit_slot Resource_GitIndexBytes = (\<lambda>v l. (fst l, (snd l)\<lparr>index_bytes := v\<rparr>))"
| "set_limit_slot Resource_GitTreeEntriesPerSnapshot = (\<lambda>v l. (fst l, (snd l)\<lparr>tree_entries_per_snapshot := v\<rparr>))"
| "set_limit_slot Resource_DocumentsPerSnapshot = (\<lambda>v l. ((fst l)\<lparr>documents_per_snapshot := v\<rparr>, snd l))"
| "set_limit_slot Resource_ControlInputBytes = (\<lambda>v l. ((fst l)\<lparr>control_input_bytes := v\<rparr>, snd l))"
| "set_limit_slot Resource_SelectedControlBlobBytes = (\<lambda>v l. ((fst l)\<lparr>selected_control_blob_bytes := v\<rparr>, snd l))"
| "set_limit_slot Resource_AggregateSelectedControlBytesPerSnapshot = (\<lambda>v l. ((fst l)\<lparr>aggregate_selected_control_bytes_per_snapshot := v\<rparr>, snd l))"
| "set_limit_slot Resource_RepositoryPolicyEntries = (\<lambda>v l. ((fst l)\<lparr>repository_policy_entries := v\<rparr>, snd l))"
| "set_limit_slot Resource_DebtItems = (\<lambda>v l. ((fst l)\<lparr>debt_items := v\<rparr>, snd l))"
| "set_limit_slot Resource_WaiverItems = (\<lambda>v l. ((fst l)\<lparr>waiver_items := v\<rparr>, snd l))"
| "set_limit_slot Resource_RawPathBytes = (\<lambda>v l. (fst l, (snd l)\<lparr>raw_path_bytes := v\<rparr>))"
| "set_limit_slot Resource_DocumentBlobBytes = (\<lambda>v l. ((fst l)\<lparr>document_blob_bytes := v\<rparr>, snd l))"
| "set_limit_slot Resource_ReferencedTargetBlobBytes = (\<lambda>v l. ((fst l)\<lparr>referenced_target_blob_bytes := v\<rparr>, snd l))"
| "set_limit_slot Resource_AggregateReferencedTargetBytesPerSnapshot = (\<lambda>v l. ((fst l)\<lparr>aggregate_referenced_target_bytes_per_snapshot := v\<rparr>, snd l))"
| "set_limit_slot Resource_IgnoreDeclarationBlobBytes = (\<lambda>v l. ((fst l)\<lparr>ignore_declaration_blob_bytes := v\<rparr>, snd l))"
| "set_limit_slot Resource_AggregateIgnoreDeclarationBytesPerSnapshot = (\<lambda>v l. ((fst l)\<lparr>aggregate_ignore_declaration_bytes_per_snapshot := v\<rparr>, snd l))"
| "set_limit_slot Resource_AggregateLineFragmentEvaluationBytesPerSnapshot = (\<lambda>v l. ((fst l)\<lparr>aggregate_line_fragment_evaluation_bytes_per_snapshot := v\<rparr>, snd l))"
| "set_limit_slot Resource_AggregateHeadingAnchorEvaluationBytesPerSnapshot = (\<lambda>v l. ((fst l)\<lparr>aggregate_heading_anchor_evaluation_bytes_per_snapshot := v\<rparr>, snd l))"
| "set_limit_slot Resource_ProjectionAssertionsPerSnapshot = (\<lambda>v l. ((fst l)\<lparr>projection_assertions_per_snapshot := v\<rparr>, snd l))"
| "set_limit_slot Resource_AggregateProjectionSelectedBytesPerSnapshot = (\<lambda>v l. ((fst l)\<lparr>aggregate_projection_selected_bytes_per_snapshot := v\<rparr>, snd l))"
| "set_limit_slot Resource_ProjectionRecordsComparedPerSnapshot = (\<lambda>v l. ((fst l)\<lparr>projection_records_compared_per_snapshot := v\<rparr>, snd l))"
| "set_limit_slot Resource_AggregateProjectionProjectedBytesPerSnapshot = (\<lambda>v l. ((fst l)\<lparr>aggregate_projection_projected_bytes_per_snapshot := v\<rparr>, snd l))"
| "set_limit_slot Resource_AggregateProjectionPreviewBytesPerSnapshot = (\<lambda>v l. ((fst l)\<lparr>aggregate_projection_preview_bytes_per_snapshot := v\<rparr>, snd l))"
| "set_limit_slot Resource_AggregateDocumentBytesPerSnapshot = (\<lambda>v l. ((fst l)\<lparr>aggregate_document_bytes_per_snapshot := v\<rparr>, snd l))"
| "set_limit_slot Resource_RawLinkDestinationBytes = (\<lambda>v l. ((fst l)\<lparr>raw_link_destination_bytes := v\<rparr>, snd l))"
| "set_limit_slot Resource_ParserNesting = (\<lambda>v l. ((fst l)\<lparr>parser_nesting := v\<rparr>, snd l))"
| "set_limit_slot Resource_ParserNodesPerDocument = (\<lambda>v l. ((fst l)\<lparr>parser_nodes_per_document := v\<rparr>, snd l))"
| "set_limit_slot Resource_ParserNodesPerSnapshot = (\<lambda>v l. ((fst l)\<lparr>parser_nodes_per_snapshot := v\<rparr>, snd l))"
| "set_limit_slot Resource_AggregateEmbeddedCodeEvaluationBytesPerSnapshot = (\<lambda>v l. ((fst l)\<lparr>aggregate_embedded_code_evaluation_bytes_per_snapshot := v\<rparr>, snd l))"
| "set_limit_slot Resource_ReferencesPerDocument = (\<lambda>v l. ((fst l)\<lparr>references_per_document := v\<rparr>, snd l))"
| "set_limit_slot Resource_ReferencesPerSnapshot = (\<lambda>v l. ((fst l)\<lparr>references_per_snapshot := v\<rparr>, snd l))"
| "set_limit_slot Resource_DeclaredLabelsPerSnapshot = (\<lambda>v l. ((fst l)\<lparr>declared_labels_per_snapshot := v\<rparr>, snd l))"
| "set_limit_slot Resource_OrganizationPolicyEntries = (\<lambda>v l. l)"
| "set_limit_slot Resource_CompleteFindings = (\<lambda>v l. ((fst l)\<lparr>complete_findings := v\<rparr>, snd l))"
| "set_limit_slot Resource_TypedAnalysisErrorsRetained = (\<lambda>v l. ((fst l)\<lparr>errors_retained := v\<rparr>, snd l))"
| "set_limit_slot Resource_MachineJsonBytes = (\<lambda>v l. l)"
| "set_limit_slot Resource_PrivateTemporaryStorageBytes = (\<lambda>v l. l)"
| "set_limit_slot Resource_EvaluatorManagedMemoryBytes = (\<lambda>v l. l)"


definition tighten_row :: "resource_limit \<Rightarrow> scan_limits \<times> git_limits \<Rightarrow> scan_limits \<times> git_limits" where
  "tighten_row row l =
     (let maximum = u64_of_i64 (limit_maximum row)
      in case limit_slot (limit_resource row) l of
           None \<Rightarrow> l
         | Some limit \<Rightarrow> set_limit_slot (limit_resource row) (min limit maximum) l)"

definition tightened_limits :: "scan_limits \<Rightarrow> git_limits \<Rightarrow> organization_floor \<Rightarrow> scan_limits \<times> git_limits" where
  "tightened_limits scan git f = fold tighten_row (resource_limits f) (scan, git)"

lemma limit_slot_set:
  "limit_slot r (set_limit_slot r' v l) =
     (if r = r' then map_option (\<lambda>_. v) (limit_slot r l) else limit_slot r l)"
  by (cases r'; cases r) simp_all

section \<open>Policy effects\<close>

record policy_side =
  side_digest :: "digest option"
  side_policy :: "scanner_policy option"

record control_seed =
  seed_kind :: finding_kind
  seed_rule_id :: bytes
  seed_control_path :: "rpath option"

primrec promoted_kind :: "promotable_finding_kind \<Rightarrow> finding_kind" where
  "promoted_kind Promotable_ExplicitTargetMissing = ExplicitTargetMissing"
| "promoted_kind Promotable_ExplicitTargetTypeMismatch = ExplicitTargetTypeMismatch"
| "promoted_kind Promotable_InvalidReference = Kind_InvalidReference"

primrec promoted_disposition :: "policy_disposition \<Rightarrow> disposition" where
  "promoted_disposition PolicyWarn = Warn"
| "promoted_disposition PolicyFail = Fail"

definition disposition_rows :: "finding_disposition list \<Rightarrow> (finding_kind \<times> disposition) list" where
  "disposition_rows rows =
     map (\<lambda>row. (promoted_kind (disposition_kind row), promoted_disposition (disposition_value row))) rows"

definition raised_rows :: "scanner_policy option \<Rightarrow> (finding_kind \<times> disposition) list" where
  "raised_rows policy = (case policy of None \<Rightarrow> [] | Some p \<Rightarrow> disposition_rows (finding_dispositions p))"

definition include_weakening :: "document_include \<Rightarrow> document_include option \<Rightarrow> bytes option" where
  "include_weakening b candidate =
     (case candidate of
        None \<Rightarrow> Some (if include_suffix b \<noteq> None then ''policy/include-suffix-selector-removed''
           else case include_kind b of
             Include_Document \<Rightarrow> ''policy/include-document-removed''
           | Include_Tree \<Rightarrow> ''policy/include-tree-removed'')
      | Some c \<Rightarrow>
          if include_suffix b \<noteq> include_suffix c
          then Some (if include_suffix b \<noteq> None then ''policy/include-suffix-removed''
                 else ''policy/include-tree-narrowed'')
          else case include_adapter b of
            None \<Rightarrow> None
          | Some a \<Rightarrow> if include_adapter c \<noteq> Some a then Some ''policy/include-binding-removed'' else None)"

definition weakened :: "bytes \<Rightarrow> rpath option \<Rightarrow> control_seed" where
  "weakened rule path = \<lparr>seed_kind = PolicyWeakened, seed_rule_id = rule, seed_control_path = path\<rparr>"

definition removed_projection_assertions ::
  "projection_assertion list \<Rightarrow> projection_assertion list \<Rightarrow> control_seed list" where
  "removed_projection_assertions base_rows candidate_rows =
     (let identities = map assertion_order candidate_rows
      in map (\<lambda>row. weakened (''policy/projection-assertion-removed/'' @ assertion_name row)
               (Some (as_text (assertion_document row))))
           (filter (\<lambda>row. assertion_order row \<notin> set identities) base_rows))"

definition SCANNER_POLICY_PATH :: bytes where
  "SCANNER_POLICY_PATH = ''.amiss/scanner-policy.json''"

definition policy_aliases :: "scanner_policy option \<Rightarrow> branch_ref list" where
  "policy_aliases policy = (case policy of None \<Rightarrow> [] | Some p \<Rightarrow> or_empty (default_branch_aliases p))"

definition file_weakening :: "scanner_policy option \<Rightarrow> scanner_policy option \<Rightarrow> control_seed list" where
  "file_weakening base_policy candidate_policy =
     (let kept = policy_aliases candidate_policy;
          dropped = map (\<lambda>r. ''policy/default-branch-alias-removed/'' @ branch_ref_name r)
            (filter (\<lambda>r. r \<notin> set kept) (policy_aliases base_policy));
          pinned = Option.bind base_policy anchor_renderers;
          pin = Option.bind candidate_policy anchor_renderers;
          widened = (case pinned of
              None \<Rightarrow> False
            | Some old \<Rightarrow> (case pin of None \<Rightarrow> True | Some new \<Rightarrow> list_ex (\<lambda>n. n \<notin> set old) new))
      in map (\<lambda>rule. weakened rule (rpath_from_bytes SCANNER_POLICY_PATH))
           (dropped @ (if widened then [''policy/anchor-renderers-widened''] else [])))"

definition removed_declarations ::
  "(rpath, bytes \<times> bytes option) btree \<Rightarrow> (rpath, bytes \<times> bytes option) btree \<Rightarrow> control_seed list" where
  "removed_declarations base_routers candidate_routers =
     map (\<lambda>(path, _). weakened
            (if contains_key candidate_routers path then ''router/declaration-replaced''
             else ''router/declaration-removed'') (Some path))
       (filter (\<lambda>(path, router). map_of candidate_routers path \<noteq> Some router) base_routers)"

datatype inventory_state = State_Scanned | State_Unsupported | State_Missing | State_Outside

definition include_seeds :: "document_include list \<Rightarrow> document_include list \<Rightarrow> control_seed list" where
  "include_seeds base_includes candidate_includes =
     (let index = fold (\<lambda>row. btree_insert (include_order row) row) candidate_includes []
      in List.map_filter (\<lambda>inc.
           map_option (\<lambda>rule. weakened rule (Some (as_text (include_path inc))))
             (include_weakening inc (map_of index (include_order inc)))) base_includes)"

definition inventory_seeds :: "repo_path_text list \<Rightarrow> repo_path_text list \<Rightarrow> control_seed list" where
  "inventory_seeds base_inventory candidate_inventory =
     map (\<lambda>member. weakened ''policy/inventory-removed'' (Some (as_text member)))
       (filter (\<lambda>member. as_text member \<notin> set (map as_text candidate_inventory)) base_inventory)"

definition disposition_seeds ::
  "(finding_kind \<times> disposition) list \<Rightarrow> (finding_kind \<times> disposition) list \<Rightarrow> control_seed list" where
  "disposition_seeds base_raised candidate_raised =
     map (\<lambda>(kind, _). weakened (''policy/disposition/'' @ finding_kind_str kind)
            (rpath_from_bytes SCANNER_POLICY_PATH))
       (filter (\<lambda>(kind, strength).
            case find (\<lambda>(k, _). k = kind) candidate_raised of
              None \<Rightarrow> True
            | Some (_, now) \<Rightarrow> now < strength) base_raised)"

definition coverage_seeds ::
  "bytes \<Rightarrow> (bytes \<Rightarrow> rpath option) \<Rightarrow> (bytes \<Rightarrow> inventory_state) \<Rightarrow> bytes list \<Rightarrow> control_seed list" where
  "coverage_seeds prefix' to_path state paths =
     List.map_filter (\<lambda>path.
       let seed = \<lambda>rule. Some \<lparr>seed_kind = CoverageReduced, seed_rule_id = prefix' @ rule,
                               seed_control_path = to_path path\<rparr>
       in case state path of
            State_Scanned \<Rightarrow> None
          | State_Missing \<Rightarrow> seed ''-missing''
          | State_Unsupported \<Rightarrow> seed ''-unsupported''
          | State_Outside \<Rightarrow> seed ''-outside'') paths"

record debt_context =
  debt_context_digest :: digest
  debt_context_trust :: request_trust
  debt_adoption_tree :: tree_identity
  debt_context_items :: "debt_item list"

record waiver_context =
  waiver_context_digest :: digest
  waiver_context_trust :: request_trust
  context_candidate_tree :: tree_identity
  waiver_context_items :: "waiver_item list"
  authorized_issuers :: "owner_id list"
  waivable_kinds :: "eligible_finding_kind list"

record effects =
  raised :: "(finding_kind \<times> disposition) list"
  floor_raised :: "(finding_kind \<times> disposition) list"
  controls :: "control_seed list"
  base_digest :: "digest option"
  candidate_digest :: "digest option"
  effects_floor :: "(digest \<times> request_trust) option"
  effects_debt :: "debt_context option"
  effects_waiver :: "waiver_context option"
  effects_time :: "time_context option"
  effects_constraint :: "constraint_context option"
  effects_errors_retained :: u64
  effects_complete_findings :: u64
  effects_machine_json_bytes :: u64
  effects_translations :: "(rpath \<times> rpath) list"

definition effects_default :: effects where
  "effects_default = \<lparr>raised = [], floor_raised = [], controls = [], base_digest = None,
     candidate_digest = None, effects_floor = None, effects_debt = None, effects_waiver = None,
     effects_time = None, effects_constraint = None, effects_errors_retained = 64,
     effects_complete_findings = complete_findings CONTRACT,
     effects_machine_json_bytes = MACHINE_JSON_BYTES, effects_translations = []\<rparr>"

definition policy_list :: "(scanner_policy \<Rightarrow> 'a list) \<Rightarrow> scanner_policy option \<Rightarrow> 'a list" where
  "policy_list get policy = (case policy of None \<Rightarrow> [] | Some p \<Rightarrow> get p)"

definition effects :: "policy_side \<Rightarrow> policy_side \<Rightarrow> (bytes \<Rightarrow> inventory_state) \<Rightarrow> effects" where
  "effects base_side candidate_side candidate_documents =
     (let bp = side_policy base_side;
          cp = side_policy candidate_side;
          base_inventory = policy_list protected_inventory bp;
          candidate_inventory = policy_list protected_inventory cp;
          inventory = sorted_list_of_set (set (map as_text base_inventory @ map as_text candidate_inventory))
      in effects_default
           \<lparr>raised := raised_rows cp,
            controls :=
              include_seeds (policy_list document_includes bp) (policy_list document_includes cp)
              @ inventory_seeds base_inventory candidate_inventory
              @ removed_projection_assertions
                  (policy_list (or_empty \<circ> projection_assertions) bp)
                  (policy_list (or_empty \<circ> projection_assertions) cp)
              @ file_weakening bp cp
              @ disposition_seeds (raised_rows bp) (raised_rows cp)
              @ coverage_seeds ''coverage/repository-inventory'' rpath_from_bytes candidate_documents inventory,
            base_digest := side_digest base_side,
            candidate_digest := side_digest candidate_side,
            effects_translations := map (\<lambda>(s, t). (as_text s, as_text t))
              (policy_list (or_empty \<circ> translation_pairs) cp)\<rparr>)"

section \<open>Floor controls\<close>

definition floor_inventory :: "floor_input \<Rightarrow> (bytes \<Rightarrow> inventory_state) \<Rightarrow> control_seed list" where
  "floor_inventory input candidate_documents =
     coverage_seeds ''coverage/floor-inventory'' Some candidate_documents
       (map as_text (floor_inventory_paths (input_floor input)))"

datatype protected_state = Absent | Unsupported | Present digest

definition protected_control :: "repo_path_text \<Rightarrow> protected_state \<times> protected_state \<Rightarrow> control_seed option" where
  "protected_control path states =
     (case states of
        (Present l, Present r) \<Rightarrow>
          if l = r then None
          else Some \<lparr>seed_kind = ControlPlaneChanged, seed_rule_id = ''control/protected-path'',
                     seed_control_path = Some (as_text path)\<rparr>
      | _ \<Rightarrow> Some \<lparr>seed_kind = ControlPlaneChanged, seed_rule_id = ''control/protected-path'',
                  seed_control_path = Some (as_text path)\<rparr>)"

definition floor_raises :: "floor_input \<Rightarrow> (finding_kind \<times> disposition) list" where
  "floor_raises input = disposition_rows (minimum_dispositions (input_floor input))"

section \<open>Theorems\<close>

lemma limit_slot_tighten_row:
  "limit_slot r (tighten_row row l) =
     map_option (\<lambda>v. if limit_resource row = r then min v (u64_of_i64 (limit_maximum row)) else v) (limit_slot r l)"
  by (cases "limit_slot (limit_resource row) l"; cases "limit_resource row = r")
    (auto simp: tighten_row_def Let_def limit_slot_set option.map_ident)

text \<open>
  C4. A floor only tightens: after all its rows, the ceiling of every resource is the
  minimum of the ceiling before and the maxima the floor declares for that resource, and
  a resource the floor does not name keeps its ceiling.
\<close>

theorem tightened_limits_exact:
  "limit_slot r (tightened_limits scan git f) =
     map_option (\<lambda>v. fold (\<lambda>row least. min least (u64_of_i64 (limit_maximum row)))
         (filter (\<lambda>row. limit_resource row = r) (resource_limits f)) v)
       (limit_slot r (scan, git))"
proof -
  have "limit_slot r (fold tighten_row rows l) =
      map_option (\<lambda>v. fold (\<lambda>row least. min least (u64_of_i64 (limit_maximum row)))
         (filter (\<lambda>row. limit_resource row = r) rows) v) (limit_slot r l)" for rows l
    by (induction rows arbitrary: l) (auto simp: limit_slot_tighten_row option.map_comp comp_def option.map_ident option.map_id)
  then show ?thesis by (simp add: tightened_limits_def)
qed

lemma seed_kind_weakened [simp]: "seed_kind (weakened rule path) = PolicyWeakened"
  by (simp add: weakened_def)

lemma coverage_seeds_kind: "seed \<in> set (coverage_seeds p tp st ps) \<Longrightarrow> seed_kind seed = CoverageReduced"
  by (auto simp: coverage_seeds_def List.map_filter_def Let_def split: inventory_state.splits if_splits)

lemma all_seeds_nil:
  "(\<And>seed. seed \<in> set seeds \<Longrightarrow> seed_kind seed = PolicyWeakened) \<Longrightarrow>
     list_all (\<lambda>seed. seed_kind seed \<noteq> PolicyWeakened) seeds \<longleftrightarrow> seeds = []"
  by (cases seeds) auto

definition include_kept :: "document_include list \<Rightarrow> document_include \<Rightarrow> bool" where
  "include_kept kept b =
     (case find (\<lambda>c. include_order c = include_order b) (rev kept) of
        None \<Rightarrow> False
      | Some c \<Rightarrow> include_suffix c = include_suffix b
          \<and> (include_adapter b = None \<or> include_adapter c = include_adapter b))"

lemma find_append:
  "find P (xs @ ys) = (case find P xs of None \<Rightarrow> find P ys | Some x \<Rightarrow> Some x)"
  by (induction xs) auto

lemma include_index:
  "map_of (fold (\<lambda>row. btree_insert (include_order row) row) rows []) k = find (\<lambda>c. include_order c = k) (rev rows)"
proof -
  have "btree_ok m \<Longrightarrow> map_of (fold (\<lambda>row. btree_insert (include_order row) row) rows m) k =
      (case find (\<lambda>c. include_order c = k) (rev rows) of None \<Rightarrow> map_of m k | Some c \<Rightarrow> Some c)" for m
    by (induction rows arbitrary: m) (auto simp: find_append split: option.splits)
  from this [of "[]"] show ?thesis by (simp split: option.splits)
qed

lemma include_seeds_nil: "include_seeds bs cs = [] \<longleftrightarrow> list_all (include_kept cs) bs"
proof -
  have "include_weakening b (find (\<lambda>c. include_order c = include_order b) (rev cs)) = None \<longleftrightarrow> include_kept cs b" for b
    by (auto simp: include_weakening_def include_kept_def split: option.splits include_kind.splits)
  then show ?thesis
    by (auto simp: include_seeds_def List.map_filter_def Let_def filter_empty_conv list_all_iff include_index)
qed

lemma inventory_seeds_nil: "inventory_seeds bs cs = [] \<longleftrightarrow> as_text ` set bs \<subseteq> as_text ` set cs"
  by (auto simp: inventory_seeds_def filter_empty_conv)

lemma removed_assertions_nil:
  "removed_projection_assertions bs cs = [] \<longleftrightarrow> assertion_order ` set bs \<subseteq> assertion_order ` set cs"
  by (auto simp: removed_projection_assertions_def Let_def filter_empty_conv)

lemma file_weakening_nil:
  "file_weakening bp cp = [] \<longleftrightarrow> set (policy_aliases bp) \<subseteq> set (policy_aliases cp)
     \<and> (case Option.bind bp anchor_renderers of None \<Rightarrow> True
        | Some old \<Rightarrow> (case Option.bind cp anchor_renderers of None \<Rightarrow> False | Some new \<Rightarrow> set new \<subseteq> set old))"
  by (auto simp: file_weakening_def Let_def filter_empty_conv list_ex_iff split: option.splits)

lemma disposition_seeds_nil:
  "disposition_seeds bs cs = [] \<longleftrightarrow>
     list_all (\<lambda>(kind, strength). case find (\<lambda>(k, _). k = kind) cs of
        None \<Rightarrow> False | Some (_, now) \<Rightarrow> strength \<le> now) bs"
  by (fastforce simp: disposition_seeds_def filter_empty_conv list_all_iff not_less split: option.splits)

text \<open>
  C12. Which parts of a policy a candidate must keep for the comparison to report no
  weakening, exactly: every include with its selector and binding, every member of the
  protected inventory, every assertion by document and name, every branch alias, the
  renderer pin unwidened, and every raise at least as strong. What an assertion of the
  same document and name projects, and the translation pairs, are free to change.
\<close>

theorem effects_no_weakening_iff:
  "list_all (\<lambda>seed. seed_kind seed \<noteq> PolicyWeakened) (controls (effects B C docs)) \<longleftrightarrow>
     (let bp = side_policy B; cp = side_policy C
      in list_all (include_kept (policy_list document_includes cp)) (policy_list document_includes bp)
         \<and> as_text ` set (policy_list protected_inventory bp) \<subseteq> as_text ` set (policy_list protected_inventory cp)
         \<and> assertion_order ` set (policy_list (or_empty \<circ> projection_assertions) bp)
             \<subseteq> assertion_order ` set (policy_list (or_empty \<circ> projection_assertions) cp)
         \<and> set (policy_aliases bp) \<subseteq> set (policy_aliases cp)
         \<and> (case Option.bind bp anchor_renderers of None \<Rightarrow> True
            | Some old \<Rightarrow> (case Option.bind cp anchor_renderers of
                None \<Rightarrow> False | Some new \<Rightarrow> set new \<subseteq> set old))
         \<and> list_all (\<lambda>(kind, strength). case find (\<lambda>(k, _). k = kind) (raised_rows cp) of
              None \<Rightarrow> False | Some (_, now) \<Rightarrow> strength \<le> now) (raised_rows bp))"
proof -
  let ?bp = "side_policy B" and ?cp = "side_policy C"
  have kinds: "list_all (\<lambda>seed. seed_kind seed \<noteq> PolicyWeakened) (include_seeds x y) \<longleftrightarrow> include_seeds x y = []"
    "list_all (\<lambda>seed. seed_kind seed \<noteq> PolicyWeakened) (inventory_seeds x' y') \<longleftrightarrow> inventory_seeds x' y' = []"
    "list_all (\<lambda>seed. seed_kind seed \<noteq> PolicyWeakened) (removed_projection_assertions x'' y'')
       \<longleftrightarrow> removed_projection_assertions x'' y'' = []"
    "list_all (\<lambda>seed. seed_kind seed \<noteq> PolicyWeakened) (file_weakening ?bp ?cp) \<longleftrightarrow> file_weakening ?bp ?cp = []"
    "list_all (\<lambda>seed. seed_kind seed \<noteq> PolicyWeakened) (disposition_seeds u v) \<longleftrightarrow> disposition_seeds u v = []"
    for x y x' y' x'' y'' u v
    by (rule all_seeds_nil;
        auto simp: include_seeds_def inventory_seeds_def removed_projection_assertions_def file_weakening_def
          disposition_seeds_def List.map_filter_def Let_def)+
  have coverage: "list_all (\<lambda>seed. seed_kind seed \<noteq> PolicyWeakened) (coverage_seeds p tp st ps)" for p tp st ps
    using coverage_seeds_kind by (fastforce simp: list_all_iff)
  show ?thesis
    unfolding effects_def Let_def
    by (simp add: kinds coverage include_seeds_nil inventory_seeds_nil removed_assertions_nil file_weakening_nil
        disposition_seeds_nil Let_def)
qed

end
