(* ===== verification/Wire_Uri.thy ===== *)
theory Wire_Uri
  imports Wire_Resolution
begin

text \<open>
  Destination grammars, \<open>crates/amiss-wire/src/uri.rs\<close>. A text is its UTF-8 bytes. The
  percent-encoding crate is a parameter: \<open>dec\<close> stands for \<open>percent_decode_str\<close> and \<open>enc\<close> for
  \<open>utf8_percent_encode\<close> over a set of ASCII bytes, with the documented behaviour of each as a
  predicate that a reference implementation meets.
\<close>

section \<open>The percent-encoding crate\<close>

definition percent_byte :: "byte \<Rightarrow> byte \<Rightarrow> byte" where
  "percent_byte h l = char_of (hex_value h * 16 + hex_value l)"

fun percent_decode_ref :: "bytes \<Rightarrow> bytes" where
  "percent_decode_ref (c # h # l # rest) =
     (if c = CHR ''%'' \<and> is_ascii_hexdigit h \<and> is_ascii_hexdigit l
      then percent_byte h l # percent_decode_ref rest
      else c # percent_decode_ref (h # l # rest))"
| "percent_decode_ref rest = rest"

definition percent_digit :: "nat \<Rightarrow> byte" where
  "percent_digit n = (if n < 10 then char_of (48 + n) else char_of (55 + n))"

definition percent_encode_ref :: "(byte \<Rightarrow> bool) \<Rightarrow> bytes \<Rightarrow> bytes" where
  "percent_encode_ref escaped text =
     concat (map (\<lambda>b. if escaped b \<or> \<not> is_ascii b
                      then [CHR ''%'', percent_digit (byte_nat b div 16), percent_digit (byte_nat b mod 16)]
                      else [b]) text)"

text \<open>Documented: a well-formed escape is decoded, every other byte is kept.\<close>

definition percent_decodes :: "(bytes \<Rightarrow> bytes) \<Rightarrow> bool" where
  "percent_decodes dec \<longleftrightarrow>
     dec [] = []
     \<and> (\<forall>h l rest. is_ascii_hexdigit h \<and> is_ascii_hexdigit l
          \<longrightarrow> dec (CHR ''%'' # h # l # rest) = percent_byte h l # dec rest)
     \<and> (\<forall>c rest. c \<noteq> CHR ''%'' \<longrightarrow> dec (c # rest) = c # dec rest)
     \<and> (\<forall>rest. \<not> (\<exists>h l tail. rest = h # l # tail \<and> is_ascii_hexdigit h \<and> is_ascii_hexdigit l)
          \<longrightarrow> dec (CHR ''%'' # rest) = CHR ''%'' # dec rest)"

text \<open>
  Documented: the bytes of the set and the bytes outside ASCII become escapes with uppercase
  hexadecimal digits, every other byte is kept.
\<close>

definition percent_encodes :: "((byte \<Rightarrow> bool) \<Rightarrow> bytes \<Rightarrow> bytes) \<Rightarrow> bool" where
  "percent_encodes enc \<longleftrightarrow>
     (\<forall>escaped. enc escaped [] = []
        \<and> (\<forall>b rest. enc escaped (b # rest) =
             (if escaped b \<or> \<not> is_ascii b
              then [CHR ''%'', percent_digit (byte_nat b div 16), percent_digit (byte_nat b mod 16)]
              else [b]) @ enc escaped rest))"

section \<open>Components\<close>

fun scheme_length :: "nat \<Rightarrow> bytes \<Rightarrow> nat option" where
  "scheme_length len [] = None"
| "scheme_length len (byte # rest) =
     (if byte = CHR '':'' then Some len
      else if is_ascii_alphanumeric byte \<or> byte \<in> set ''+.-'' then scheme_length (Suc len) rest
      else None)"

definition scheme :: "bytes \<Rightarrow> bytes option" where
  "scheme path =
     (case path of
        [] \<Rightarrow> None
      | first # rest \<Rightarrow>
          if \<not> is_ascii_alphabetic first then None
          else map_option (\<lambda>len. take len path) (scheme_length 1 rest))"

definition escape_at :: "bytes \<Rightarrow> nat \<Rightarrow> bool" where
  "escape_at text at =
     (case get_range text (at + 1) (at + 3) of
        None \<Rightarrow> False
      | Some pair \<Rightarrow> list_all is_ascii_hexdigit pair)"

definition first_malformed_escape :: "bytes \<Rightarrow> nat option" where
  "first_malformed_escape text =
     find (\<lambda>at. text ! at = CHR ''%'' \<and> \<not> escape_at text at) [0..<length text]"

text \<open>The output buffer keeps what was decoded before an error, as the source's vector does.\<close>

definition decode_component ::
  "(bytes \<Rightarrow> bytes) \<Rightarrow> bytes \<Rightarrow> bytes \<Rightarrow> (byte \<Rightarrow> invalid_reference option)
   \<Rightarrow> (invalid_reference, unit) result \<times> bytes" where
  "decode_component dec text out invalid =
     (let malformed = first_malformed_escape text;
          prefix = (case malformed of None \<Rightarrow> text | Some at \<Rightarrow> take at text);
          decoded = dec prefix;
          invalid_byte = fold (\<lambda>b found. case found of None \<Rightarrow> invalid b | Some e \<Rightarrow> Some e) decoded None
      in (if malformed \<noteq> None then Inl Invalid_PercentEncoding
          else case invalid_byte of None \<Rightarrow> Inr () | Some e \<Rightarrow> Inl e,
          out @ decoded))"

definition is_control_byte :: "byte \<Rightarrow> bool" where
  "is_control_byte b = (byte_nat b \<le> 31 \<or> byte_nat b = 127)"

definition decode_fragment :: "(bytes \<Rightarrow> bytes) \<Rightarrow> bytes \<Rightarrow> bytes option" where
  "decode_fragment dec fragment =
     (case decode_component dec fragment []
        (\<lambda>b. if is_control_byte b then Some Invalid_DecodedPathControl else None) of
        (Inl _, _) \<Rightarrow> None
      | (Inr _, out) \<Rightarrow> if utf8_valid out then Some out else None)"

definition IRI_ESCAPED :: "byte \<Rightarrow> bool" where
  "IRI_ESCAPED b = (b \<in> {CHR '' '', CHR 0x22, CHR ''<'', CHR ''>'', CHR 0x5C, CHR ''^'', CHR 0x60,
     CHR ''{'', CHR ''|'', CHR ''}''})"

definition iri_to_uri :: "((byte \<Rightarrow> bool) \<Rightarrow> bytes \<Rightarrow> bytes) \<Rightarrow> bytes \<Rightarrow> bytes" where
  "iri_to_uri enc text = enc IRI_ESCAPED text"

section \<open>Absolute destinations\<close>

definition uri_byte :: "byte \<Rightarrow> bool" where
  "uri_byte b = (is_ascii_alphanumeric b \<or> b \<in> set ''-._~:/?[]@!$&'' \<or> b = CHR 0x27 \<or> b \<in> set ''()*+,;=%'')"

definition bytes_valid :: "bytes \<Rightarrow> bool" where
  "bytes_valid text = (first_malformed_escape text = None \<and> list_all uri_byte text)"

definition authority_valid :: "bytes \<Rightarrow> bool" where
  "authority_valid authority =
     (if \<not> list_all is_ascii authority then False
      else case strip_prefix ''['' authority of
        Some h \<Rightarrow>
          (case split_once (CHR '']'') h of
             None \<Rightarrow> False
           | Some (inside, port) \<Rightarrow>
               inside \<noteq> [] \<and> (port = []
                 \<or> (case strip_prefix '':'' port of None \<Rightarrow> False | Some value \<Rightarrow> list_all is_ascii_digit value)))
      | None \<Rightarrow> CHR ''['' \<notin> set authority \<and> CHR '']'' \<notin> set authority)"

definition eq_ignore_ascii_case :: "bytes \<Rightarrow> bytes \<Rightarrow> bool" where
  "eq_ignore_ascii_case a b = (map to_ascii_lowercase a = map to_ascii_lowercase b)"

definition is_http :: "bytes \<Rightarrow> bool" where
  "is_http name = (eq_ignore_ascii_case name ''http'' \<or> eq_ignore_ascii_case name ''https'')"

definition absolute_valid :: "bytes \<Rightarrow> bytes \<Rightarrow> bytes option \<Rightarrow> bool" where
  "absolute_valid path name query =
     (if \<not> bytes_valid path \<or> (case query of None \<Rightarrow> False | Some value \<Rightarrow> \<not> bytes_valid value) then False
      else if \<not> is_http name then True
      else case strip_prefix ''//'' (drop (length name + 1) path) of
        None \<Rightarrow> False
      | Some rest \<Rightarrow>
          let authority = takeWhile (\<lambda>b. b \<noteq> CHR ''/'') rest
          in authority \<noteq> [] \<and> authority_valid authority)"

definition http_destination_valid :: "(bytes \<Rightarrow> bytes) \<Rightarrow> bytes \<Rightarrow> bool" where
  "http_destination_valid dec destination =
     (let (before_fragment, fragment) =
            (case split_once (CHR ''#'') destination of
               Some (before, f) \<Rightarrow> (before, Some f) | None \<Rightarrow> (destination, None));
          (path, query) =
            (case split_once (CHR ''?'') before_fragment of
               Some (p, q) \<Rightarrow> (p, Some q) | None \<Rightarrow> (before_fragment, None))
      in case scheme path of
           None \<Rightarrow> False
         | Some s \<Rightarrow> is_http s \<and> absolute_valid path s query
             \<and> (case fragment of None \<Rightarrow> True | Some value \<Rightarrow> decode_fragment dec value \<noteq> None))"

definition site_route_valid :: "bytes \<Rightarrow> bool" where
  "site_route_valid route =
     (strip_prefix ''/'' route \<noteq> None \<and> strip_prefix ''//'' route = None
      \<and> CHR ''?'' \<notin> set route \<and> CHR ''#'' \<notin> set route \<and> bytes_valid route)"

section \<open>Theorems\<close>

lemma percent_decode_ref_keep: "c \<noteq> CHR ''%'' \<Longrightarrow> percent_decode_ref (c # rest) = c # percent_decode_ref rest"
proof (cases rest)
  case (Cons h tail)
  then show "c \<noteq> CHR ''%'' \<Longrightarrow> ?thesis" by (cases tail) auto
qed simp

lemma percent_decode_ref_stray:
  "\<not> (\<exists>h l tail. rest = h # l # tail \<and> is_ascii_hexdigit h \<and> is_ascii_hexdigit l)
   \<Longrightarrow> percent_decode_ref (CHR ''%'' # rest) = CHR ''%'' # percent_decode_ref rest"
proof (cases rest)
  case (Cons h tail)
  then show "\<not> (\<exists>h l tail. rest = h # l # tail \<and> is_ascii_hexdigit h \<and> is_ascii_hexdigit l) \<Longrightarrow> ?thesis"
    by (cases tail) auto
qed simp

lemma percent_decodes_ref: "percent_decodes percent_decode_ref"
  unfolding percent_decodes_def by (auto simp: percent_decode_ref_keep intro: percent_decode_ref_stray)

lemma percent_decodes_unique:
  assumes "percent_decodes dec"
  shows "dec = percent_decode_ref"
proof
  fix s
  show "dec s = percent_decode_ref s"
  proof (induction s rule: length_induct)
    case (1 s)
    show ?case
    proof (cases "\<exists>h l rest. s = CHR ''%'' # h # l # rest \<and> is_ascii_hexdigit h \<and> is_ascii_hexdigit l")
      case True
      then obtain h l rest where t: "s = CHR ''%'' # h # l # rest" and hl: "is_ascii_hexdigit h" "is_ascii_hexdigit l"
        by blast
      with "1.IH" have "dec rest = percent_decode_ref rest" by simp
      with t hl assms show ?thesis by (simp add: percent_decodes_def)
    next
      case False
      show ?thesis
      proof (cases s)
        case Nil
        with assms show ?thesis by (simp add: percent_decodes_def)
      next
        case (Cons c rest)
        with "1.IH" have "dec rest = percent_decode_ref rest" by simp
        moreover have "dec (c # rest) = c # dec rest"
          using assms False Cons by (cases "c = CHR ''%''") (auto simp: percent_decodes_def)
        moreover have "percent_decode_ref (c # rest) = c # percent_decode_ref rest"
          using False Cons by (cases "c = CHR ''%''")
            (auto simp: percent_decode_ref_keep intro!: percent_decode_ref_stray)
        ultimately show ?thesis using Cons by simp
      qed
    qed
  qed
qed

lemma percent_encodes_ref: "percent_encodes percent_encode_ref"
  by (simp add: percent_encodes_def percent_encode_ref_def)

lemma percent_encodes_unique:
  assumes "percent_encodes enc"
  shows "enc = percent_encode_ref"
proof (intro ext)
  fix escaped s
  show "enc escaped s = percent_encode_ref escaped s"
    using assms by (induction s) (simp_all add: percent_encodes_def percent_encode_ref_def)
qed

text \<open>Well-formed escapes, read from the front.\<close>

fun escapes_ok :: "bytes \<Rightarrow> bool" where
  "escapes_ok [] = True"
| "escapes_ok (c # rest) =
     ((c = CHR ''%'' \<longrightarrow> (case rest of h # l # _ \<Rightarrow> is_ascii_hexdigit h \<and> is_ascii_hexdigit l | _ \<Rightarrow> False))
      \<and> escapes_ok rest)"

lemma escape_at_Suc [simp]: "escape_at (c # s) (Suc at) = escape_at s at"
  by (simp add: escape_at_def get_range_def)

lemma escape_at_0:
  "escape_at (c # s) 0 \<longleftrightarrow> (case s of h # l # _ \<Rightarrow> is_ascii_hexdigit h \<and> is_ascii_hexdigit l | _ \<Rightarrow> False)"
  by (auto simp: escape_at_def get_range_def numeral_2_eq_2 split: list.splits)

lemma find_map_list: "find P (map f xs) = map_option f (find (P \<circ> f) xs)"
  by (induction xs) auto

lemma first_malformed_Cons:
  "first_malformed_escape (c # s) =
     (if c = CHR ''%'' \<and> \<not> escape_at (c # s) 0 then Some 0
      else map_option Suc (first_malformed_escape s))"
  unfolding first_malformed_escape_def
  by (auto simp: upt_conv_Cons find_map_list comp_def simp del: upt_Suc simp flip: map_Suc_upt)

lemma first_malformed_None: "first_malformed_escape s = None \<longleftrightarrow> escapes_ok s"
proof (induction s)
  case Nil
  then show ?case by (simp add: first_malformed_escape_def)
next
  case (Cons c s)
  then show ?case by (auto simp: first_malformed_Cons escape_at_0)
qed

lemma first_error:
  "fold (\<lambda>b found. case found of None \<Rightarrow> invalid b | Some e \<Rightarrow> Some e) bs found =
     (case found of None \<Rightarrow> (case find (\<lambda>b. invalid b \<noteq> None) bs of None \<Rightarrow> None | Some b \<Rightarrow> invalid b)
      | Some e \<Rightarrow> Some e)"
  by (induction bs arbitrary: found) (auto split: option.splits)

lemma decode_component_Inr:
  "decode_component dec s out invalid = (Inr (), out') \<longleftrightarrow>
     escapes_ok s \<and> list_all (\<lambda>b. invalid b = None) (dec s) \<and> out' = out @ dec s"
  by (auto simp: decode_component_def Let_def first_error find_None_iff list_all_iff find_Some_iff
      simp flip: first_malformed_None split: option.splits)

lemma decode_fragment_Some:
  "decode_fragment dec s = Some t \<longleftrightarrow>
     escapes_ok s \<and> list_all (\<lambda>b. \<not> is_control_byte b) (dec s) \<and> utf8_valid (dec s) \<and> t = dec s"
proof -
  let ?inv = "\<lambda>b. if is_control_byte b then Some Invalid_DecodedPathControl else None"
  obtain res out where d: "decode_component dec s [] ?inv = (res, out)" by fastforce
  show ?thesis
  proof (cases res)
    case (Inl e)
    with d decode_component_Inr [of dec s "[]" ?inv "dec s"] show ?thesis
      by (auto simp: decode_fragment_def list_all_iff split: if_splits)
  next
    case (Inr u)
    with d decode_component_Inr [of dec s "[]" ?inv out] show ?thesis
      by (auto simp: decode_fragment_def list_all_iff split: if_splits)
  qed
qed

lemma percent_digit_facts:
  assumes "n < 16"
  shows "is_ascii_hexdigit (percent_digit n)" and "hex_value (percent_digit n) = n"
    and "percent_digit n \<noteq> CHR ''%''" and "is_ascii (percent_digit n)"
proof -
  have "list_all (\<lambda>n. is_ascii_hexdigit (percent_digit n) \<and> hex_value (percent_digit n) = n
      \<and> percent_digit n \<noteq> CHR ''%'' \<and> is_ascii (percent_digit n)) [0..<16]"
    by code_simp
  moreover have "n \<in> set [0..<16]" using assms by simp
  ultimately show "is_ascii_hexdigit (percent_digit n)" "hex_value (percent_digit n) = n"
    "percent_digit n \<noteq> CHR ''%''" "is_ascii (percent_digit n)"
    unfolding list_all_iff by blast+
qed

lemma percent_byte_digits: "percent_byte (percent_digit (byte_nat b div 16)) (percent_digit (byte_nat b mod 16)) = b"
proof -
  have "byte_nat b div 16 < 16" using byte_nat_less [of b] by linarith
  then show ?thesis by (simp add: percent_byte_def percent_digit_facts)
qed

lemma encode_ref_Cons:
  "percent_encode_ref escaped (b # s) =
     (if escaped b \<or> \<not> is_ascii b
      then CHR ''%'' # percent_digit (byte_nat b div 16) # percent_digit (byte_nat b mod 16)
             # percent_encode_ref escaped s
      else b # percent_encode_ref escaped s)"
  by (simp add: percent_encode_ref_def)

lemma decode_encode:
  assumes "list_all (\<lambda>b. b \<noteq> CHR ''%'') s"
  shows "percent_decode_ref (percent_encode_ref escaped s) = s"
    and "escapes_ok (percent_encode_ref escaped s)"
  using assms
proof (induction s)
  case Nil
  {
    case 1
    then show ?case by (simp add: percent_encode_ref_def)
  next
    case 2
    then show ?case by (simp add: percent_encode_ref_def)
  }
next
  case (Cons b s)
  have d: "byte_nat b div 16 < 16" "byte_nat b mod 16 < 16" using byte_nat_less [of b] by linarith+
  {
    case 1
    with Cons d show ?case
      by (simp add: encode_ref_Cons percent_digit_facts percent_byte_digits percent_decode_ref_keep)
  next
    case 2
    with Cons d show ?case by (simp add: encode_ref_Cons percent_digit_facts)
  }
qed

lemma uri_byte_plain: "uri_byte b \<Longrightarrow> is_ascii b \<and> \<not> IRI_ESCAPED b"
  by (auto simp: uri_byte_def IRI_ESCAPED_def ascii_defs less_eq_char_def)

text \<open>What passes unescaped: the bytes of a URI, and the controls and \<open>#\<close> it is not asked about.\<close>

definition passes :: "byte \<Rightarrow> bool" where
  "passes b \<longleftrightarrow> uri_byte b \<or> is_control_byte b \<or> b = CHR ''#''"

lemma bytes_between: "list_all P (map char_of [m..<n]) \<Longrightarrow> m \<le> byte_nat b \<Longrightarrow> byte_nat b < n \<Longrightarrow> P b"
  by (auto simp: list_all_iff dest!: bspec [of _ _ "byte_nat b"])

lemma passes_printable:
  assumes "32 \<le> byte_nat b" and "byte_nat b < 127"
  shows "IRI_ESCAPED b \<or> uri_byte b \<or> b = CHR ''#''"
proof (rule bytes_between [OF _ assms])
  show "list_all (\<lambda>b. IRI_ESCAPED b \<or> uri_byte b \<or> b = CHR ''#'') (map char_of [32 :: nat..<127])" by code_simp
qed

lemma passes_iff: "passes b \<longleftrightarrow> is_ascii b \<and> \<not> IRI_ESCAPED b"
proof
  assume "passes b"
  then consider "uri_byte b" | "is_control_byte b" | "b = CHR ''#''" by (auto simp: passes_def)
  then show "is_ascii b \<and> \<not> IRI_ESCAPED b"
  proof cases
    case 2
    moreover have "\<not> is_control_byte c" if "IRI_ESCAPED c" for c
      using that by (auto simp: IRI_ESCAPED_def is_control_byte_def)
    ultimately show ?thesis by (auto simp: is_control_byte_def is_ascii_def)
  qed (use uri_byte_plain in \<open>auto simp: is_ascii_def IRI_ESCAPED_def\<close>)
next
  assume b: "is_ascii b \<and> \<not> IRI_ESCAPED b"
  then have "byte_nat b < 128" by (simp add: is_ascii_def)
  then consider "is_control_byte b" | "32 \<le> byte_nat b" "byte_nat b < 127"
    unfolding is_control_byte_def by linarith
  then show "passes b" by cases (use b passes_printable in \<open>auto simp: passes_def\<close>)
qed

lemma passes_hex: "n < 16 \<Longrightarrow> passes (percent_digit n)"
proof -
  have "list_all (\<lambda>n. passes (percent_digit n)) [0..<16]" by code_simp
  then show "n < 16 \<Longrightarrow> passes (percent_digit n)" by (simp add: list_all_iff)
qed

lemma encode_passes: "list_all passes (percent_encode_ref IRI_ESCAPED s)"
proof (induction s)
  case (Cons b s)
  have "byte_nat b div 16 < 16" "byte_nat b mod 16 < 16" using byte_nat_less [of b] by linarith+
  moreover have "passes (CHR ''%'')" by code_simp
  ultimately show ?case using Cons passes_iff [of b] by (simp add: encode_ref_Cons passes_hex)
qed (simp add: percent_encode_ref_def)

lemma encode_same: "list_all passes s \<Longrightarrow> percent_encode_ref IRI_ESCAPED s = s"
  by (induction s) (auto simp: encode_ref_Cons passes_iff percent_encode_ref_def)

text \<open>
  C33. Escaping an IRI: the result holds only bytes of a URI, controls and \<open>#\<close>; a text is
  unchanged exactly when it held no other byte to begin with; and a text without a percent
  sign and without controls decodes back to itself. A percent sign is not escaped, so a text
  such as \<open>100%\<close> has no round trip.
\<close>

theorem iri_to_uri_roundtrip:
  assumes "percent_decodes dec" and "percent_encodes enc" and "utf8_valid s"
  shows "list_all passes (iri_to_uri enc s)
     \<and> (iri_to_uri enc s = s \<longleftrightarrow> list_all passes s)
     \<and> (list_all (\<lambda>b. b \<noteq> CHR ''%'' \<and> \<not> is_control_byte b) s
          \<longrightarrow> decode_fragment dec (iri_to_uri enc s) = Some s)"
proof (intro conjI impI)
  have dec: "dec = percent_decode_ref" and enc: "enc = percent_encode_ref"
    using assms percent_decodes_unique percent_encodes_unique by auto
  show all: "list_all passes (iri_to_uri enc s)"
    by (simp add: iri_to_uri_def enc encode_passes)
  show "iri_to_uri enc s = s \<longleftrightarrow> list_all passes s"
    using all encode_same [of s] by (auto simp: iri_to_uri_def enc)
  show "decode_fragment dec (iri_to_uri enc s) = Some s"
    if "list_all (\<lambda>b. b \<noteq> CHR ''%'' \<and> \<not> is_control_byte b) s"
  proof -
    from that have "list_all (\<lambda>b. b \<noteq> CHR ''%'') s" "list_all (\<lambda>b. \<not> is_control_byte b) s"
      by (simp_all add: list_all_iff)
    then show ?thesis
      using assms(3) by (simp add: decode_fragment_Some iri_to_uri_def dec enc decode_encode)
  qed
qed

theorem iri_to_uri_roundtrip_witness:
  "iri_to_uri percent_encode_ref ''a b'' \<noteq> ''a b''
     \<and> decode_fragment percent_decode_ref (iri_to_uri percent_encode_ref ''a b'') = Some ''a b''"
proof -
  have u: "utf8_valid ''a b''" by (rule utf8_valid_ascii) (simp add: is_ascii_def)
  have plain: "list_all (\<lambda>b. b \<noteq> CHR ''%'' \<and> \<not> is_control_byte b) ''a b''"
    by (simp add: is_control_byte_def)
  have "\<not> list_all passes ''a b''" by code_simp
  with iri_to_uri_roundtrip [OF percent_decodes_ref percent_encodes_ref u] plain show ?thesis by blast
qed

end
