(* ===== verification/Wire_Extraction.thy ===== *)
theory Wire_Extraction
  imports Wire_Policy
begin

text \<open>
  The governed channel and the byte spans of a destination,
  \<open>crates/amiss-wire/src/extraction.rs\<close>, and the classification of a governed definition,
  \<open>classify\<close> of \<open>crates/amiss-scan/src/scanned.rs\<close>.
\<close>

section \<open>Carrier lines\<close>

definition governed_carrier_line :: "bytes \<Rightarrow> (bytes \<times> bytes \<times> bytes) option" where
  "governed_carrier_line line =
     do {
       rest \<leftarrow> strip_prefix ''[amiss:'' line;
       (name, rest) \<leftarrow> split_text '']: <'' rest;
       if name = [] \<or> CHR ''['' \<in> set name \<or> CHR '']'' \<in> set name then None
       else do {
         (dest, rest) \<leftarrow> split_text ''> '' rest;
         if dest = [] \<or> CHR ''<'' \<in> set dest \<or> CHR ''>'' \<in> set dest then None
         else do {
           title \<leftarrow> (case strip_prefix [CHR 0x22] rest of
               Some tail \<Rightarrow> do {
                 body \<leftarrow> strip_suffix [CHR 0x22] tail;
                 if CHR 0x22 \<in> set body then None else Some body }
             | None \<Rightarrow> do {
                 tail \<leftarrow> strip_prefix [CHR 0x27] rest;
                 body \<leftarrow> strip_suffix [CHR 0x27] tail;
                 if CHR 0x27 \<in> set body then None else Some body });
           Some (''amiss:'' @ name, dest, title)
         }
       }
     }"

definition directive_name_option :: "bytes \<Rightarrow> bytes option" where
  "directive_name_option line =
     do {
       rest \<leftarrow> strip_prefix '':name:'' (str_trim line);
       let value = str_trim rest;
       if value \<noteq> [] \<and> CHR 0x60 \<notin> set value then Some value else None
     }"

text \<open>
  \<open>carrier\<close> of \<open>crates/amiss-rst/src/lib.rs\<close>: a comment block whose first line is a carrier
  line and whose remainder is blank, with the length of that line.
\<close>

definition rst_carrier :: "bytes \<Rightarrow> (nat \<times> bytes \<times> bytes \<times> bytes) option" where
  "rst_carrier body =
     (let (line, rest) = (case split_once (CHR 0x0A) body of None \<Rightarrow> (body, []) | Some (first, tail) \<Rightarrow> (first, tail))
      in if str_trim rest \<noteq> [] then None
         else let line = (case strip_suffix [CHR 0x0D] line of None \<Rightarrow> line | Some l \<Rightarrow> l)
              in do {
                inner \<leftarrow> strip_prefix ''.. '' line;
                parts \<leftarrow> governed_carrier_line inner;
                Some (length line, parts)
              })"

section \<open>Spans of a destination\<close>

text \<open>The places of a window in a cut_bytes, as \<open>windows\<close> and \<open>enumerate\<close> list them.\<close>

definition window_hits :: "bytes \<Rightarrow> bytes \<Rightarrow> nat list" where
  "window_hits cut_bytes needle =
     filter (\<lambda>at. take (length needle) (drop at cut_bytes) = needle) [0..<Suc (length cut_bytes) - length needle]"

definition locate_destination :: "bytes \<Rightarrow> nat \<times> nat \<Rightarrow> bytes \<Rightarrow> nat option" where
  "locate_destination source sp raw_dest =
     (case get_range source (fst sp) (snd sp) of
        None \<Rightarrow> None
      | Some cut_bytes \<Rightarrow>
          if raw_dest = [] then None
          else case window_hits cut_bytes raw_dest of
            [at] \<Rightarrow> Some (fst sp + at)
          | _ \<Rightarrow> None)"

definition source_fragment_span :: "bytes \<Rightarrow> nat \<times> nat \<Rightarrow> bytes \<Rightarrow> (nat \<times> nat) option" where
  "source_fragment_span source sp raw_dest =
     (case split_once (CHR ''#'') raw_dest of
        None \<Rightarrow> None
      | Some (before, frag) \<Rightarrow>
          if frag = [] \<or> list_ex (\<lambda>c. c \<in> set ''#%&'' \<or> c = CHR 0x5C) frag
             \<or> list_ex (\<lambda>c. c \<in> set ''%&'' \<or> c = CHR 0x5C) before
          then None
          else case locate_destination source sp raw_dest of
            None \<Rightarrow> None
          | Some at \<Rightarrow> let start = at + length before + 1 in Some (start, start + length frag))"

definition source_path_span :: "bytes \<Rightarrow> nat \<times> nat \<Rightarrow> bytes \<Rightarrow> (nat \<times> nat) option" where
  "source_path_span source sp raw_dest =
     (let part = (case split_once (CHR ''#'') raw_dest of None \<Rightarrow> raw_dest | Some (before, _) \<Rightarrow> before)
      in if part = [] \<or> list_ex (\<lambda>c. c \<in> set ''%&'' \<or> c = CHR 0x5C) part then None
         else case locate_destination source sp raw_dest of
           None \<Rightarrow> None
         | Some at \<Rightarrow> Some (at, at + length part))"

section \<open>Governed definitions\<close>

record governed_definition =
  definition_label :: bytes
  definition_url :: bytes
  definition_title :: "bytes option"
  definition_angled :: bool

record value_claim_t =
  claim_name :: bytes
  claim_path :: rpath
  claim_line :: u64
  claim_expected :: bytes

datatype governed_form = Form_Value value_claim_t | Form_Projection bytes | Form_Unknown

definition RESERVED_LABEL_PREFIX :: bytes where
  "RESERVED_LABEL_PREFIX = ''amiss:''"

definition MAX_SAFE :: u64 where
  "MAX_SAFE = 9007199254740991"

text \<open>\<open>str::parse\<close> of a \<open>u64\<close> from digits: \<open>None\<close> where the value does not fit.\<close>

definition digits_value :: "bytes \<Rightarrow> nat" where
  "digits_value ds = foldl (\<lambda>n d. n * 10 + (byte_nat d - 48)) 0 ds"

definition parse_u64 :: "bytes \<Rightarrow> u64 option" where
  "parse_u64 ds =
     (if ds \<noteq> [] \<and> list_all is_ascii_digit ds \<and> digits_value ds < 2 ^ 64
      then Some (of_nat (digits_value ds)) else None)"

definition safe_line_number :: "bytes \<Rightarrow> u64 option" where
  "safe_line_number s =
     (if s = [] \<or> 16 < length s \<or> hd s = CHR ''0'' then None
      else if \<not> list_all is_ascii_digit s then None
      else case parse_u64 s of None \<Rightarrow> None | Some v \<Rightarrow> if v \<le> MAX_SAFE then Some v else None)"

definition value_claim :: "governed_definition \<Rightarrow> value_claim_t option" where
  "value_claim d =
     (if \<not> definition_angled d then None
      else do {
        name \<leftarrow> strip_prefix RESERVED_LABEL_PREFIX (definition_label d);
        if \<not> governed_name_valid name then None
        else do {
          rest \<leftarrow> strip_prefix ''amiss:value?path='' (definition_url d);
          (path_part, line_part) \<leftarrow> split_once (CHR ''&'') rest;
          line_digits \<leftarrow> strip_prefix ''line=L'' line_part;
          if CHR ''&'' \<in> set line_digits then None
          else do {
            line \<leftarrow> safe_line_number line_digits;
            if path_part = [] \<or> CHR ''?'' \<in> set path_part \<or> CHR ''#'' \<in> set path_part then None
            else do {
              path \<leftarrow> rpath_from_bytes path_part;
              expected \<leftarrow> definition_title d;
              Some \<lparr>claim_name = name, claim_path = path, claim_line = line, claim_expected = expected\<rparr>
            }
          }
        }
      })"

definition classify :: "governed_definition \<Rightarrow> governed_form" where
  "classify d =
     (case value_claim d of
        Some claim \<Rightarrow> Form_Value claim
      | None \<Rightarrow>
          if definition_angled d \<and> definition_title d = None \<and> definition_url d = ''amiss:projection''
          then (case strip_prefix RESERVED_LABEL_PREFIX (definition_label d) of
                  Some name \<Rightarrow> if governed_name_valid name then Form_Projection name else Form_Unknown
                | None \<Rightarrow> Form_Unknown)
          else Form_Unknown)"

section \<open>Line numbers\<close>

lemma decimal_digits: "list_all is_ascii_digit (decimal n)" and decimal_not_Nil: "decimal n \<noteq> []"
proof (induction n rule: decimal.induct)
  case (1 n)
  {
    case 1
    with "1.IH"(1) show ?case
      by (cases "n < 10") (simp_all add: decimal_small decimal_step decimal_digit_facts)
  next
    case 2
    show ?case by (cases "n < 10") (simp_all add: decimal_small decimal_step)
  }
qed

lemma digits_value_snoc: "digits_value (ds @ [d]) = digits_value ds * 10 + (byte_nat d - 48)"
  by (simp add: digits_value_def)

lemma digits_value_decimal: "digits_value (decimal n) = n"
proof (induction n rule: decimal.induct)
  case (1 n)
  show ?case
  proof (cases "n < 10")
    case True
    then show ?thesis by (simp add: decimal_small digits_value_def decimal_digit_facts)
  next
    case False
    with 1 have "digits_value (decimal n) = n div 10 * 10 + n mod 10"
      by (simp add: decimal_step digits_value_snoc decimal_digit_facts)
    then show ?thesis by simp
  qed
qed

lemma decimal_hd: "0 < n \<Longrightarrow> hd (decimal n) \<noteq> CHR ''0''"
proof (induction n rule: decimal.induct)
  case (1 n)
  show ?case
  proof (cases "n < 10")
    case True
    with 1 show ?thesis
      using decimal_digit_eq [of n 0] by (simp add: decimal_small decimal_digit_0)
  next
    case False
    then have "0 < n div 10" by simp
    with False 1 show ?thesis by (simp add: decimal_step hd_append decimal_not_Nil)
  qed
qed

lemma decimal_length: "n < 10 ^ Suc k \<Longrightarrow> length (decimal n) \<le> Suc k"
proof (induction k arbitrary: n)
  case 0
  then show ?case by (simp add: decimal_small)
next
  case (Suc k)
  show ?case
  proof (cases "n < 10")
    case False
    from Suc.prems have "n div 10 < 10 ^ Suc k" by (simp add: less_mult_imp_div_less)
    with False Suc.IH show ?thesis by (simp add: decimal_step)
  qed (simp add: decimal_small)
qed

lemma safe_line_number_decimal:
  "safe_line_number (decimal (unat v)) = Some v \<longleftrightarrow> 0 < v \<and> v \<le> MAX_SAFE"
proof (cases "v = 0")
  case True
  then show ?thesis by (simp add: safe_line_number_def decimal_small decimal_digit_0)
next
  case False
  then have pos: "0 < unat v" by (simp add: unat_gt_0)
  have parse: "parse_u64 (decimal (unat v)) = Some v"
    using unsigned_less [of v] by (simp add: parse_u64_def decimal_digits decimal_not_Nil digits_value_decimal)
  show ?thesis
  proof (cases "v \<le> MAX_SAFE")
    case True
    then have "unat v < 10 ^ Suc 15" by (simp add: MAX_SAFE_def word_le_nat_alt)
    then have "length (decimal (unat v)) \<le> Suc 15" by (rule decimal_length)
    with True False pos parse show ?thesis
      by (simp add: safe_line_number_def decimal_not_Nil decimal_digits decimal_hd word_gt_0)
  next
    case False
    with parse show ?thesis by (simp add: safe_line_number_def)
  qed
qed

section \<open>Reading spans and carrier lines\<close>

lemma find_upt_Some: "find Q [0..<n] = Some i \<longleftrightarrow> i < n \<and> Q i \<and> (\<forall>j < i. \<not> Q j)"
proof (cases "i < n")
  case True
  then show ?thesis by (auto simp: find_Some_iff)
next
  case False
  then show ?thesis by (auto simp: find_Some_iff)
qed

lemma split_text_first:
  assumes "n \<notin> set a"
  shows "split_text (n # ns) (a @ (n # ns) @ b) = Some (a, b)"
proof -
  let ?xs = "a @ (n # ns) @ b"
  have below: "\<not> starts_with (drop i ?xs) (n # ns)" if "i < length a" for i
  proof -
    from that have "drop i ?xs = a ! i # drop (Suc i) a @ (n # ns) @ b" by (simp add: Cons_nth_drop_Suc [symmetric])
    moreover from that assms have "a ! i \<noteq> n" by (metis nth_mem)
    ultimately show ?thesis by (simp add: starts_with_iff)
  qed
  have at: "starts_with (drop (length a) ?xs) (n # ns)" by (simp add: starts_with_iff)
  have "find_text (n # ns) ?xs = Some (length a)"
    unfolding find_text_def find_upt_Some using below at by simp
  then show ?thesis by (simp add: split_text_def)
qed

lemma carrier_line_reads:
  assumes "governed_name_valid name" and "dest \<noteq> []"
    and "CHR ''<'' \<notin> set dest" and "CHR ''>'' \<notin> set dest" and "CHR 0x22 \<notin> set words"
  shows "governed_carrier_line (''[amiss:'' @ name @ '']: <'' @ dest @ ''> '' @ [CHR 0x22] @ words @ [CHR 0x22])
    = Some (''amiss:'' @ name, dest, words)"
proof -
  from assms(1) have n: "name \<noteq> []" "CHR ''['' \<notin> set name" "CHR '']'' \<notin> set name"
    by (auto simp: governed_name_valid_def list_all_iff is_ascii_alphanumeric_def is_ascii_alphabetic_def
        is_ascii_digit_def is_ascii_lowercase_def is_ascii_uppercase_def less_eq_char_def)
  have first: "split_text '']: <'' (name @ '']: <'' @ dest @ ''> '' @ [CHR 0x22] @ words @ [CHR 0x22])
      = Some (name, dest @ ''> '' @ [CHR 0x22] @ words @ [CHR 0x22])"
    using n by (intro split_text_first) simp
  have second: "split_text ''> '' (dest @ ''> '' @ [CHR 0x22] @ words @ [CHR 0x22])
      = Some (dest, [CHR 0x22] @ words @ [CHR 0x22])"
    using assms by (intro split_text_first) simp
  have close: "strip_suffix [CHR 0x22] (words @ [CHR 0x22]) = Some words" by (simp add: strip_suffix_Some_iff)
  show ?thesis
    unfolding governed_carrier_line_def using first second close n assms by simp
qed

section \<open>Where a destination stands\<close>

text \<open>The offsets at which a text occurs within a span of the source.\<close>

definition occurrences :: "bytes \<Rightarrow> nat \<times> nat \<Rightarrow> bytes \<Rightarrow> nat set" where
  "occurrences source sp needle =
     {i. fst sp \<le> i \<and> i + length needle \<le> snd sp \<and> take (length needle) (drop i source) = needle}"

lemma window_hits_mem:
  "needle \<noteq> [] \<Longrightarrow> at \<in> set (window_hits xs needle) \<longleftrightarrow>
     at + length needle \<le> length xs \<and> take (length needle) (drop at xs) = needle"
  by (cases needle) (auto simp: window_hits_def)

lemma window_hits_one: "window_hits xs needle = [at] \<longleftrightarrow> set (window_hits xs needle) = {at}"
proof
  have "distinct (window_hits xs needle)" by (simp add: window_hits_def)
  moreover assume "set (window_hits xs needle) = {at}"
  ultimately show "window_hits xs needle = [at]"
    by (cases "window_hits xs needle" rule: remdups_adj.cases) auto
qed simp

lemma window_hits_source:
  assumes "needle \<noteq> []" and "a \<le> b" and "b \<le> length source"
  shows "(+) a ` set (window_hits (take (b - a) (drop a source)) needle) = occurrences source (a, b) needle"
proof (intro set_eqI iffI)
  fix i
  assume "i \<in> (+) a ` set (window_hits (take (b - a) (drop a source)) needle)"
  then show "i \<in> occurrences source (a, b) needle"
    using assms by (auto simp: window_hits_mem occurrences_def drop_take min_def add.commute split: if_splits)
next
  fix i
  assume i: "i \<in> occurrences source (a, b) needle"
  then have "i - a \<in> set (window_hits (take (b - a) (drop a source)) needle)" "i = a + (i - a)"
    using assms by (auto simp: window_hits_mem occurrences_def drop_take min_def)
  then show "i \<in> (+) a ` set (window_hits (take (b - a) (drop a source)) needle)" by (rule_tac image_eqI)
qed

lemma shifted_singleton: "(\<exists>i. S = {i} \<and> at = a + i) \<longleftrightarrow> (+) a ` S = {at :: nat}"
proof
  assume eq: "(+) a ` S = {at}"
  then obtain i where i: "i \<in> S" "at = a + i" by (metis image_iff singletonI)
  moreover have "j = i" if "j \<in> S" for j
  proof -
    from that have "a + j \<in> (+) a ` S" by simp
    with eq i show ?thesis by simp
  qed
  ultimately show "\<exists>i. S = {i} \<and> at = a + i" by blast
qed auto

text \<open>
  C32: A destination is located exactly when it is not empty, its reference span lies inside
  the source, and it occurs at one offset of that span and at no other; the offset named is
  that one.
\<close>

theorem locate_destination_iff:
  "locate_destination source sp dest = Some at \<longleftrightarrow>
     dest \<noteq> [] \<and> fst sp \<le> snd sp \<and> snd sp \<le> length source \<and> occurrences source sp dest = {at}"
proof (cases "dest \<noteq> [] \<and> fst sp \<le> snd sp \<and> snd sp \<le> length source")
  case True
  obtain a b where sp: "sp = (a, b)" by force
  let ?hits = "window_hits (take (b - a) (drop a source)) dest"
  have image: "(+) a ` set ?hits = occurrences source sp dest"
    using True sp by (simp add: window_hits_source)
  have "locate_destination source sp dest = Some at \<longleftrightarrow> (\<exists>i. ?hits = [i] \<and> at = a + i)"
    using True sp by (auto simp: locate_destination_def get_range_def split: list.splits)
  also have "\<dots> \<longleftrightarrow> (\<exists>i. set ?hits = {i} \<and> at = a + i)" by (simp add: window_hits_one)
  also have "\<dots> \<longleftrightarrow> (+) a ` set ?hits = {at}"
    by (rule shifted_singleton)
  finally show ?thesis using True image by simp
next
  case False
  then show ?thesis by (auto simp: locate_destination_def get_range_def split: list.splits)
qed

end
