(* ===== verification/Scan_Route.thy ===== *)
theory Scan_Route
  imports Wire_Uri Btree Wire_Identity Text_Ops
begin

text \<open>
  Routes and paths, \<open>crates/amiss-scan/src/route.rs\<close>: the router table, the source paths a
  router serves for a destination, the directory arithmetic of documents and content roots,
  and the normalization of a relative destination. The readers of configuration files, in
  the middle of the same source file, are not modelled.
\<close>

section \<open>Routers\<close>

datatype spelling =
    Extensionless | OutputExtension | ReadmeIndex | AntoraResource | SiteAlias | ContentRoot
  | DocumentId | SourceRoot | DirectoryUrl | PageUrl | PageDirectory | BookRoute | BuiltPage
  | BuiltRoute

record route_rule =
  rule_name :: bytes
  declared_by :: "bytes list"
  rule_serves :: "spelling list"

definition rule_of :: "bytes \<Rightarrow> bytes list \<Rightarrow> spelling list \<Rightarrow> route_rule" where
  "rule_of name files spelled = \<lparr>rule_name = name, declared_by = files, rule_serves = spelled\<rparr>"

definition serves :: "route_rule \<Rightarrow> spelling \<Rightarrow> bool" where
  "serves rule s = (s \<in> set (rule_serves rule))"

definition ANTORA :: route_rule where
  "ANTORA = rule_of ''antora'' [''antora.yml''] [AntoraResource]"

definition DOCUSAURUS :: route_rule where
  "DOCUSAURUS = rule_of ''docusaurus''
     [''docusaurus.config.ts'', ''docusaurus.config.mts'', ''docusaurus.config.cts'',
      ''docusaurus.config.js'', ''docusaurus.config.mjs'', ''docusaurus.config.cjs'']
     [SiteAlias, ContentRoot, DocumentId]"

definition MKDOCS :: route_rule where
  "MKDOCS = rule_of ''mkdocs'' [''mkdocs.yml'', ''mkdocs.yaml'', ''zensical.toml''] [DirectoryUrl]"

definition SPHINX :: route_rule where
  "SPHINX = rule_of ''sphinx'' [''conf.py''] [SourceRoot]"

definition MDBOOK_PAGES :: route_rule where
  "MDBOOK_PAGES = rule_of ''mdbook-pages'' [''book.toml''] [BookRoute, BuiltPage]"

definition ZOLA :: route_rule where
  "ZOLA = rule_of ''zola'' [''config.toml''] [ContentRoot]"

definition ASTRO :: route_rule where
  "ASTRO = rule_of ''astro''
     [''astro.config.ts'', ''astro.config.mts'', ''astro.config.js'', ''astro.config.mjs'', ''astro.config.cjs'']
     [BuiltRoute]"

definition NEXTJS_APP :: route_rule where
  "NEXTJS_APP = rule_of ''nextjs-app''
     [''next.config.js'', ''next.config.mjs'', ''next.config.ts'', ''next.config.cjs'', ''next.config.mts'']
     [PageDirectory]"

definition APP_PAGES :: "bytes list" where
  "APP_PAGES = [''page.mdx'', ''page.md'']"

definition ELEVENTY :: route_rule where
  "ELEVENTY = rule_of ''eleventy''
     [''eleventy.config.ts'', ''eleventy.config.js'', ''eleventy.config.mjs'', ''eleventy.config.cjs'', ''.eleventy.js'']
     [BuiltRoute]"

definition HUGO :: route_rule where
  "HUGO = rule_of ''hugo''
     [''hugo.toml'', ''hugo.yaml'', ''hugo.json'', ''config.toml'', ''config.yaml'', ''config.json'',
      ''config/_default/hugo.toml'', ''config/_default/hugo.yaml'', ''config/_default/hugo.json'',
      ''config/_default/config.toml'', ''config/_default/config.yaml'', ''config/_default/config.json'']
     [BuiltRoute]"

definition SHARED_CONFIGS :: "bytes list" where
  "SHARED_CONFIGS = [''config.toml'', ''config.yaml'', ''config.json'']"

definition JEKYLL :: route_rule where
  "JEKYLL = rule_of ''jekyll'' [''_config.yml''] [BuiltRoute]"

definition DIRECTORY_PAGES :: route_rule where
  "DIRECTORY_PAGES = rule_of ''directory-pages'' [] [PageUrl]"

definition ROUTERS :: "route_rule list" where
  "ROUTERS =
     [rule_of ''mdbook'' [] [OutputExtension, ReadmeIndex],
      rule_of ''vitepress'' [] [Extensionless, OutputExtension],
      rule_of ''vitepress-readme'' [] [Extensionless, OutputExtension, ReadmeIndex],
      ANTORA, DOCUSAURUS, MKDOCS, SPHINX, MDBOOK_PAGES, ZOLA, ASTRO, NEXTJS_APP, ELEVENTY, HUGO,
      DIRECTORY_PAGES, JEKYLL]"

definition DECLARABLE :: "spelling list" where
  "DECLARABLE = [SiteAlias, ContentRoot, DocumentId, SourceRoot, DirectoryUrl, PageUrl, PageDirectory]"

definition declarable :: "route_rule \<Rightarrow> bool" where
  "declarable rule = list_all (\<lambda>s. s \<in> set DECLARABLE) (rule_serves rule)"

definition SITE_ALIAS :: bytes where
  "SITE_ALIAS = ''@site/''"

definition generator_alias :: "bytes \<Rightarrow> source_construct option \<Rightarrow> bool" where
  "generator_alias path_part kind =
     (starts_with path_part SITE_ALIAS
      \<or> kind \<in> {Some MarkdownLiquidLink, Some MarkdownHugoRef})"

definition BUNDLER_REQUESTS :: "(bytes \<times> bytes list) list" where
  "BUNDLER_REQUESTS = [(''webpack'', [''!'', ''-!''])]"

definition bundler_request :: "bytes \<Rightarrow> bool" where
  "bundler_request path_part = list_ex (starts_with path_part) (concat (map snd BUNDLER_REQUESTS))"

definition TEMPLATE_EXPRESSIONS :: "(bytes \<times> bytes) list" where
  "TEMPLATE_EXPRESSIONS = [(''{{'', ''}}''), (''{%'', ''%}'')]"

definition template_expression :: "bytes \<Rightarrow> bool" where
  "template_expression semantic = list_ex (\<lambda>(open, _). contains_bytes semantic open) TEMPLATE_EXPRESSIONS"

section \<open>Path arithmetic\<close>

abbreviation is_slash :: "byte \<Rightarrow> bool" where
  "is_slash b \<equiv> b = CHR ''/''"

definition within :: "bytes \<Rightarrow> bytes \<Rightarrow> bool" where
  "within doc project =
     (project = [] \<or> (case strip_prefix project doc of None \<Rightarrow> False | Some rest \<Rightarrow> starts_with rest ''/''))"

definition under_base :: "bytes \<Rightarrow> bytes \<Rightarrow> bytes option" where
  "under_base b route =
     (case strip_prefix b route of
        None \<Rightarrow> None
      | Some rest \<Rightarrow> if b = [] then Some rest else strip_prefix ''/'' rest)"

definition directory :: "bytes \<Rightarrow> bytes" where
  "directory doc = (case rposition is_slash doc of None \<Rightarrow> [] | Some split \<Rightarrow> take split doc)"

definition join :: "bytes \<Rightarrow> bytes \<Rightarrow> bytes" where
  "join dir name = (if dir = [] then name else dir @ ''/'' @ name)"

definition last_segment :: "bytes \<Rightarrow> bytes" where
  "last_segment dest = last (split_on (CHR ''/'') dest)"

definition PAGE_SUFFIXES :: "bytes list" where
  "PAGE_SUFFIXES = [''.md'', ''.mdx'', ''.markdown'']"

definition output_extension :: "bytes \<Rightarrow> bytes option" where
  "output_extension dest =
     (case strip_suffix ''.html'' dest of
        None \<Rightarrow> None
      | Some stem \<Rightarrow> if stem \<noteq> [] then Some (stem @ ''.md'') else None)"

definition extensionless :: "bytes \<Rightarrow> bytes \<Rightarrow> bytes option" where
  "extensionless dest ext =
     (let final = last_segment dest
      in if final \<noteq> [] \<and> \<not> ends_in final ''.html'' \<and> \<not> list_ex (ends_in final) PAGE_SUFFIXES
         then Some (dest @ ext) else None)"

definition readme_index :: "bytes \<Rightarrow> bytes option" where
  "readme_index dest =
     (case rposition is_slash dest of
        None \<Rightarrow> None
      | Some slash \<Rightarrow> if drop (slash + 1) dest = ''index.md'' then Some (take (slash + 1) dest @ ''README.md'') else None)"

section \<open>Spellings of a destination\<close>

text \<open>The closure \<open>push\<close> of \<open>spellings\<close>.\<close>

definition push_spelling ::
  "rpath \<Rightarrow> spelling \<Rightarrow> bytes option \<Rightarrow> (spelling \<times> rpath) list \<Rightarrow> (spelling \<times> rpath) list" where
  "push_spelling dest s bs out =
     (case Option.bind bs rpath_from_bytes of
        None \<Rightarrow> out
      | Some path \<Rightarrow>
          if path \<noteq> dest \<and> \<not> list_ex (\<lambda>(_, held). held = path) out then out @ [(s, path)] else out)"

definition spellings :: "route_rule \<Rightarrow> rpath \<Rightarrow> (spelling \<times> rpath) list" where
  "spellings rule dest =
     (let source = output_extension dest;
          out1 = (if serves rule OutputExtension then push_spelling dest OutputExtension source [] else []);
          out2 = (if serves rule Extensionless
                  then fold (\<lambda>ext. push_spelling dest Extensionless (extensionless dest ext)) PAGE_SUFFIXES out1
                  else out1);
          out3 = (if serves rule PageDirectory
                  then fold (\<lambda>page. push_spelling dest PageDirectory (Some (join dest page))) APP_PAGES out2
                  else out2)
      in if serves rule ReadmeIndex
         then let out4 = push_spelling dest ReadmeIndex (readme_index dest) out3
              in if serves rule OutputExtension
                 then push_spelling dest ReadmeIndex (Option.bind source readme_index) out4 else out4
         else out3)"

definition candidates :: "rpath \<Rightarrow> (spelling \<times> rpath) list" where
  "candidates destination =
     fold (\<lambda>rule out.
         fold (\<lambda>item out. if \<not> list_ex (\<lambda>(_, path). path = snd item) out then out @ [item] else out)
           (spellings rule destination) out) ROUTERS []"

definition declaring_directory :: "bytes \<Rightarrow> bytes \<Rightarrow> bytes option" where
  "declaring_directory path name =
     (case strip_suffix name path of
        None \<Rightarrow> None
      | Some rest \<Rightarrow> if rest = [] then Some rest else strip_suffix ''/'' rest)"

definition declares :: "route_rule \<Rightarrow> rpath \<Rightarrow> bool" where
  "declares rule path = list_ex (\<lambda>name. declaring_directory path name \<noteq> None) (declared_by rule)"

section \<open>Pages and content roots\<close>

text \<open>
  \<open>sole_claims\<close>: the set of routes claimed twice is an assoc list over \<open>unit\<close> values;
  removing its members from the map is a filter.
\<close>

definition claim_step ::
  "rpath \<times> rpath \<Rightarrow> (rpath, rpath) btree \<times> rpath list \<Rightarrow> (rpath, rpath) btree \<times> rpath list" where
  "claim_step claim state =
     (case (claim, state) of ((route, doc), (routes, claimed_twice)) \<Rightarrow>
        (btree_insert route doc routes,
         if (case map_of routes route of None \<Rightarrow> False | Some held \<Rightarrow> held \<noteq> doc)
         then route # claimed_twice else claimed_twice))"

definition sole_claims :: "(rpath \<times> rpath) list \<Rightarrow> (rpath, rpath) btree" where
  "sole_claims claims =
     (case fold claim_step claims ([], []) of (routes, claimed_twice) \<Rightarrow>
        filter (\<lambda>(route, _). route \<notin> set claimed_twice) routes)"

definition BUNDLE_INDEX :: "bytes list" where
  "BUNDLE_INDEX = [''_index.md'', ''index.md'']"

definition page_stem :: "bytes \<Rightarrow> bytes" where
  "page_stem name =
     (case rposition (\<lambda>b. b = CHR ''.'') name of
        Some dot \<Rightarrow> if 0 < dot then take dot name else name
      | None \<Rightarrow> name)"

definition page_route :: "bytes \<Rightarrow> bool \<Rightarrow> bytes" where
  "page_route doc bundles =
     (let parent = directory doc; stem = page_stem (last_segment doc)
      in if stem = ''index'' \<or> stem = ''README'' \<or> (bundles \<and> stem = ''_index'') then parent
         else join parent stem)"

definition DOCUSAURUS_CONTENT_ROOTS :: "bytes list list" where
  "DOCUSAURUS_CONTENT_ROOTS = [[''docs''], [''blog''], [''src'', ''pages''], [''versioned_docs'', ''*'']]"

definition content_pattern :: "bytes \<Rightarrow> bytes list \<Rightarrow> bytes list \<Rightarrow> bytes option" where
  "content_pattern site segments pattern =
     (case get_range segments 0 (length pattern) of
        None \<Rightarrow> None
      | Some head \<Rightarrow>
          if length pattern < length segments
             \<and> list_all (\<lambda>(want, have). want = ''*'' \<or> want = have) (zip pattern head)
          then Some (join site (join_with (CHR ''/'') head)) else None)"

definition plugin_path :: "bytes \<Rightarrow> bytes \<Rightarrow> bytes option" where
  "plugin_path site doc =
     do {
       rest \<leftarrow> strip_prefix site doc;
       relative \<leftarrow> if site = [] then Some rest else strip_prefix ''/'' rest;
       find_map (content_pattern site (split_on (CHR ''/'') relative)) DOCUSAURUS_CONTENT_ROOTS
     }"

definition content_root :: "bytes \<Rightarrow> bytes \<Rightarrow> bytes option" where
  "content_root site doc =
     (case plugin_path site doc of
        Some path \<Rightarrow> Some path
      | None \<Rightarrow> plugin_path (directory site) doc)"

definition translated_content :: "bytes \<Rightarrow> bytes \<Rightarrow> bytes list" where
  "translated_content site doc =
     (case (if site = [] then Some doc
            else Option.bind (strip_prefix site doc) (strip_prefix ''/'')) of
        None \<Rightarrow> []
      | Some relative \<Rightarrow>
          (case split_on (CHR ''/'') relative of
             i18n # locale_name # plugin # following # _ \<Rightarrow>
               if i18n \<noteq> ''i18n'' then []
               else
                 let localized = join site (join_with (CHR ''/'') [''i18n'', locale_name, plugin])
                 in if plugin = ''docusaurus-plugin-content-docs'' \<and> following = ''current''
                    then [join localized ''current'', join site ''docs'']
                    else if plugin = ''docusaurus-plugin-content-docs'' \<and> starts_with following ''version-''
                    then [join localized following, join site (''versioned_docs/'' @ following)]
                    else if plugin = ''docusaurus-plugin-content-blog''
                    then [localized, join site ''blog'']
                    else if plugin = ''docusaurus-plugin-content-pages''
                    then [localized, join site ''src/pages'']
                    else []
           | _ \<Rightarrow> []))"

definition DEFAULT_SOURCE_SUFFIX :: bytes where
  "DEFAULT_SOURCE_SUFFIX = ''.rst''"

definition docname_spelling :: "bytes \<Rightarrow> bytes \<Rightarrow> bytes" where
  "docname_spelling docname ext = (if ends_in docname ext then docname else docname @ ext)"

definition rooted_docname :: "bytes \<Rightarrow> bytes \<Rightarrow> bytes list \<Rightarrow> (bytes \<times> bytes) list" where
  "rooted_docname source_root absolute exts =
     (if absolute = [] \<or> starts_with absolute ''/'' then []
      else map (\<lambda>ext. (source_root, docname_spelling absolute ext)) exts)"

definition beside_document :: "rpath \<Rightarrow> bytes \<Rightarrow> (bytes \<times> bytes) option" where
  "beside_document doc path_part =
     (let name = (case strip_suffix ''/'' path_part of None \<Rightarrow> path_part | Some rest \<Rightarrow> rest)
      in if name \<noteq> [] \<and> \<not> starts_with name ''/'' \<and> \<not> starts_with name ''@/'' \<and> scheme name = None
         then Some (directory doc, name) else None)"

definition docname_beside :: "rpath \<Rightarrow> bytes \<Rightarrow> bytes list \<Rightarrow> (bytes \<times> bytes) list" where
  "docname_beside doc docname exts =
     (if list_ex (ends_in docname) (exts @ [DEFAULT_SOURCE_SUFFIX]) then []
      else case beside_document doc docname of
        None \<Rightarrow> []
      | Some (beside, relative) \<Rightarrow>
          map (\<lambda>ext. (beside, docname_spelling relative ext)) exts @ [(beside, relative)])"

text \<open>
  The loop of \<open>ancestor_root\<close>: the slice before the last separator is the next directory, and
  the loop ends when a slice holds no separator. \<open>prefix_at\<close> is the slice up to \<open>end\<close>.
\<close>

function ancestor_loop :: "(bytes \<Rightarrow> bool) \<Rightarrow> bytes \<Rightarrow> bytes option" where
  "ancestor_loop holds prefix_at =
     (case rposition is_slash prefix_at of
        None \<Rightarrow> if holds [] then Some [] else None
      | Some slash \<Rightarrow>
          if holds (take slash prefix_at) then Some (take slash prefix_at)
          else ancestor_loop holds (take slash prefix_at))"
  by pat_completeness auto

termination
  by (relation "measure (\<lambda>(_, prefix_at). length prefix_at)") (auto simp: rposition_Some)

definition ancestor_root :: "bytes \<Rightarrow> (bytes \<Rightarrow> bool) \<Rightarrow> bytes option" where
  "ancestor_root doc holds = ancestor_loop holds doc"

section \<open>Relative destinations\<close>

definition invalid_path_byte :: "byte \<Rightarrow> invalid_reference option" where
  "invalid_path_byte b =
     (if b = CHR ''/'' then Some Invalid_EncodedSlash
      else if b = CHR 0x5C then Some Invalid_BackslashSeparator
      else if is_control_byte b then Some Invalid_DecodedPathControl
      else None)"

text \<open>One segment of the destination, applied to the buffer.\<close>

definition segment_step ::
  "(bytes \<Rightarrow> bytes) \<Rightarrow> bytes \<Rightarrow> bytes \<Rightarrow> (rpath resolution, bytes) result" where
  "segment_step dec seg resolved =
     (let prior = length resolved;
          opened = (if 0 < prior then resolved @ ''/'' else resolved)
      in case decode_component dec seg opened invalid_path_byte of
           (Inl reason, _) \<Rightarrow> Inl (Res_Invalid reason)
         | (Inr _, out) \<Rightarrow>
             let tail = drop (length opened) out
             in if tail = ''.'' then Inr (take prior out)
                else if tail = ''..'' then
                  (let parent = take prior out
                   in if parent = [] then Inl (Res_Invalid Invalid_PathTraversal)
                      else case rposition is_slash parent of
                        Some separator \<Rightarrow> Inr (take separator parent)
                      | None \<Rightarrow> Inr [])
                else Inr out)"

definition normalized_path_under ::
  "(bytes \<Rightarrow> bytes) \<Rightarrow> bytes \<Rightarrow> bool \<Rightarrow> bytes \<Rightarrow> (rpath resolution, rpath \<times> target_kind) result" where
  "normalized_path_under dec parent img path_part =
     (if CHR 0x5C \<in> set path_part then Inl (Res_Invalid Invalid_BackslashSeparator)
      else
        let trailing_slash = 1 < length path_part \<and> ends_in path_part ''/'';
            path = (case strip_suffix ''/'' path_part of None \<Rightarrow> path_part | Some rest \<Rightarrow> rest);
            segments = split_on (CHR ''/'') path;
            kind = (if trailing_slash then Kind_Tree else if img then Kind_Blob else Kind_Either)
        in if list_ex (\<lambda>seg. seg = []) segments \<or> (trailing_slash \<and> img)
           then Inl (Res_Invalid Invalid_Syntax)
           else rbind (rfold (segment_step dec) segments parent) (\<lambda>resolved.
             if resolved = [] \<and> \<not> img then Inl (Res_UnsupportedSemantics Sem_RepositoryRoot)
             else case rpath_from_bytes resolved of
               None \<Rightarrow> Inl (Res_Invalid Invalid_Syntax)
             | Some joined \<Rightarrow> Inr (joined, kind)))"

definition normalized_native_path ::
  "(bytes \<Rightarrow> bytes) \<Rightarrow> rpath \<Rightarrow> bool \<Rightarrow> bytes \<Rightarrow> (rpath resolution, rpath \<times> target_kind) result" where
  "normalized_native_path dec doc img path_part = normalized_path_under dec (directory doc) img path_part"

section \<open>Theorems\<close>

lemma directory_snoc:
  assumes "CHR ''/'' \<notin> set fin"
  shows "directory (join_with (CHR ''/'') (init @ [fin])) = join_with (CHR ''/'') init"
  using assms
  by (cases "init = []") (simp_all add: directory_def join_with_snoc rposition_append_slash rposition_slash_None [THEN iffD2])

lemma directory_split: "directory doc = join_with (CHR ''/'') (butlast (split_on (CHR ''/'') doc))"
proof -
  obtain init fin where segs: "split_on (CHR ''/'') doc = init @ [fin]"
    and doc: "doc = join_with (CHR ''/'') (init @ [fin])" and "CHR ''/'' \<notin> set fin"
    by (rule split_on_snoc)
  then show ?thesis using directory_snoc by (metis butlast_snoc)
qed

text \<open>Directories from the document's own up to the repository root.\<close>

definition ancestors :: "bytes \<Rightarrow> bytes list" where
  "ancestors doc =
     (let segs = split_on (CHR ''/'') doc
      in map (\<lambda>k. join_with (CHR ''/'') (take k segs)) (rev [0..<length segs]))"

lemma ancestors_directory:
  "ancestors doc = directory doc # (if CHR ''/'' \<in> set doc then ancestors (directory doc) else [])"
proof -
  obtain init fin where segs: "split_on (CHR ''/'') doc = init @ [fin]"
    and doc: "doc = join_with (CHR ''/'') (init @ [fin])" and fin: "CHR ''/'' \<notin> set fin"
    by (rule split_on_snoc)
  have dir: "directory doc = join_with (CHR ''/'') init" by (simp add: directory_split segs)
  have "CHR ''/'' \<in> set doc \<longleftrightarrow> init \<noteq> []" using doc fin by (simp add: join_with_snoc)
  moreover have "init \<noteq> [] \<Longrightarrow> split_on (CHR ''/'') (join_with (CHR ''/'') init) = init"
    using split_on_pieces [of _ "CHR ''/''" doc] by (intro join_split_on) (auto simp: segs)
  ultimately show ?thesis by (simp add: ancestors_def segs dir)
qed

lemma ancestor_loop_find: "ancestor_loop holds doc = find holds (ancestors doc)"
proof (induction holds doc rule: ancestor_loop.induct)
  case (1 holds doc)
  show ?case
  proof (cases "rposition is_slash doc")
    case None
    then have "CHR ''/'' \<notin> set doc" by (simp add: rposition_slash_None)
    with None show ?thesis by (subst ancestor_loop.simps) (simp add: ancestors_directory [of doc] directory_def)
  next
    case (Some at)
    then have "CHR ''/'' \<in> set doc" by (metis option.distinct(1) rposition_slash_None)
    with Some 1 show ?thesis by (subst ancestor_loop.simps) (simp add: ancestors_directory [of doc] directory_def)
  qed
qed

text \<open>
  C34. The search for a root ends on every document and every test, and answers with the
  nearest directory of the document's ancestor chain the test holds for, the repository root
  last.
\<close>

theorem ancestor_root_nearest: "ancestor_root doc holds = find holds (ancestors doc)"
  unfolding ancestor_root_def by (rule ancestor_loop_find)

section \<open>Spellings\<close>

definition fresh_spellings :: "rpath \<Rightarrow> (spelling \<times> rpath) list \<Rightarrow> bool" where
  "fresh_spellings dest out \<longleftrightarrow>
     distinct (map snd out) \<and> list_all (\<lambda>(_, path). path \<noteq> dest \<and> path_bytes_valid path) out"

lemma fresh_push: "fresh_spellings dest out \<Longrightarrow> fresh_spellings dest (push_spelling dest k bs out)"
  by (auto simp: fresh_spellings_def push_spelling_def rpath_from_bytes_iff list_ex_iff list_all_iff
      split: option.splits Option.bind_splits)

lemma fresh_fold: "fresh_spellings dest out \<Longrightarrow> fresh_spellings dest (fold (\<lambda>x. push_spelling dest k (f x)) xs out)"
  by (induction xs arbitrary: out) (auto intro: fresh_push)

lemma fresh_Nil [simp]: "fresh_spellings dest []"
  by (simp add: fresh_spellings_def)

lemma fresh_spellings_rule: "fresh_spellings dest (spellings rule dest)"
  unfolding spellings_def Let_def by (simp add: fresh_push fresh_fold)

text \<open>
  C35. The routers offer for a destination only valid paths, none twice, and never the
  destination itself.
\<close>

theorem candidates_fresh: "fresh_spellings dest (candidates dest)"
proof -
  define add where
    "add = (\<lambda>item out. if \<not> list_ex (\<lambda>(_ :: spelling, path :: rpath). path = snd item) out then out @ [item] else out)"
  have one: "fresh_spellings dest (add item out)"
    if "fresh_spellings dest out" and "snd item \<noteq> dest" and "path_bytes_valid (snd item)" for item out
    using that by (auto simp: add_def fresh_spellings_def list_ex_iff list_all_iff)
  have all: "fresh_spellings dest (fold add items out)"
    if "fresh_spellings dest out" and "\<forall>item \<in> set items. snd item \<noteq> dest \<and> path_bytes_valid (snd item)" for items out
    using that by (induction items arbitrary: out) (simp_all add: one)
  have served: "\<forall>item \<in> set (spellings rule dest). snd item \<noteq> dest \<and> path_bytes_valid (snd item)" for rule
    using fresh_spellings_rule [of dest rule] by (auto simp: fresh_spellings_def list_all_iff)
  have "fresh_spellings dest (fold (\<lambda>rule. fold add (spellings rule dest)) rules out)"
    if "fresh_spellings dest out" for rules out
    using that by (induction rules arbitrary: out) (simp_all add: all served)
  then show ?thesis by (simp add: candidates_def flip: add_def)
qed

section \<open>Sole claims\<close>

definition claims_ok :: "(rpath \<times> rpath) set \<Rightarrow> (rpath, rpath) btree \<times> rpath list \<Rightarrow> bool" where
  "claims_ok seen state \<longleftrightarrow> (case state of (routes, twice) \<Rightarrow>
     btree_ok routes
     \<and> (\<forall>r. map_of routes r = None \<longleftrightarrow> r \<notin> fst ` seen)
     \<and> (\<forall>r d. map_of routes r = Some d \<longrightarrow> (r, d) \<in> seen)
     \<and> (\<forall>r. r \<in> set twice \<longleftrightarrow> (\<exists>d d'. (r, d) \<in> seen \<and> (r, d') \<in> seen \<and> d \<noteq> d')))"

lemma claims_ok_step:
  assumes "claims_ok seen state"
  shows "claims_ok (insert claim seen) (claim_step claim state)"
proof -
  obtain routes twice where st: "state = (routes, twice)" by fastforce
  obtain r doc where c: "claim = (r, doc)" by fastforce
  have ok: "btree_ok routes" and none: "\<And>r. map_of routes r = None \<longleftrightarrow> r \<notin> fst ` seen"
    and some: "\<And>r d. map_of routes r = Some d \<Longrightarrow> (r, d) \<in> seen"
    and tw: "\<And>r. r \<in> set twice \<longleftrightarrow> (\<exists>d d'. (r, d) \<in> seen \<and> (r, d') \<in> seen \<and> d \<noteq> d')"
    using assms by (auto simp: claims_ok_def st)
  show ?thesis
  proof (cases "map_of routes r")
    case None
    then have unseen: "\<And>d. (r, d) \<notin> seen" using none [of r] by force
    have "claim_step claim state = (btree_insert r doc routes, twice)" by (simp add: claim_step_def st c None)
    then show ?thesis using ok none some tw unseen by (simp add: claims_ok_def c) blast
  next
    case (Some held)
    with some have held: "(r, held) \<in> seen" by blast
    have step: "claim_step claim state = (btree_insert r doc routes, if held = doc then twice else r # twice)"
      by (simp add: claim_step_def st c Some)
    have "(r' \<in> set (if held = doc then twice else r # twice)) \<longleftrightarrow>
        (\<exists>d d'. (r', d) \<in> insert claim seen \<and> (r', d') \<in> insert claim seen \<and> d \<noteq> d')" for r'
      using tw [of r'] held by (auto simp: c)
    then show ?thesis unfolding claims_ok_def step prod.case
      using ok none some by (simp add: c)
  qed
qed

lemma claims_ok_fold: "claims_ok seen state \<Longrightarrow> claims_ok (set claims \<union> seen) (fold claim_step claims state)"
proof (induction claims arbitrary: seen state)
  case (Cons claim claims)
  from Cons.IH [OF claims_ok_step [OF Cons.prems]] show ?case by simp
qed simp

text \<open>
  C31. A route names a document exactly when that document is the only one that claims it,
  however often it does.
\<close>

theorem sole_claims_iff: "map_of (sole_claims claims) r = Some d \<longleftrightarrow> {d'. (r, d') \<in> set claims} = {d}"
proof -
  obtain routes twice where f: "fold claim_step claims ([], []) = (routes, twice)" by fastforce
  have "claims_ok {} ([], [])" by (simp add: claims_ok_def)
  from claims_ok_fold [OF this, of claims] have ok: "claims_ok (set claims) (routes, twice)" by (simp add: f)
  have "map_of (filter (\<lambda>(route, _). route \<notin> set twice) m) r = (if r \<in> set twice then None else map_of m r)" for m :: "(rpath, rpath) btree"
    by (induction m) auto
  then have lookup: "map_of (sole_claims claims) r = (if r \<in> set twice then None else map_of routes r)"
    by (simp add: sole_claims_def f)
  let ?S = "{d'. (r, d') \<in> set claims}"
  note facts = ok [unfolded claims_ok_def prod.case]
  have twice: "r \<in> set twice \<longleftrightarrow> (\<exists>d d'. d \<in> ?S \<and> d' \<in> ?S \<and> d \<noteq> d')"
    unfolding mem_Collect_eq by (rule facts [THEN conjunct2, THEN conjunct2, THEN conjunct2, THEN spec])
  have none: "map_of routes r = None \<longleftrightarrow> r \<notin> fst ` set claims"
    by (rule facts [THEN conjunct2, THEN conjunct1, THEN spec])
  have some: "map_of routes r = Some h \<Longrightarrow> h \<in> ?S" for h
    unfolding mem_Collect_eq
    by (rule facts [THEN conjunct2, THEN conjunct2, THEN conjunct1, THEN spec, THEN spec, THEN mp])
  show ?thesis
  proof (cases "map_of routes r")
    case None
    with none have "?S = {}" by force
    then show ?thesis by (simp add: lookup None)
  next
    case (Some h)
    then have h: "h \<in> ?S" by (rule some)
    show ?thesis
    proof (cases "?S = {h}")
      case True
      then have "r \<notin> set twice" unfolding twice by (simp only: singleton_iff) blast
      then have "map_of (sole_claims claims) r = Some h" by (simp add: lookup Some)
      with True show ?thesis by (simp only:) auto
    next
      case False
      with h have "\<exists>d'. h \<in> ?S \<and> d' \<in> ?S \<and> h \<noteq> d'" by blast
      then have "r \<in> set twice" unfolding twice by blast
      then have "map_of (sole_claims claims) r = None" by (simp add: lookup)
      moreover have "?S \<noteq> {d}" using False h by (metis singletonD)
      ultimately show ?thesis by simp
    qed
  qed
qed

section \<open>Normalization refines a component stack\<close>

text \<open>
  The specification of a relative destination: a stack of components, on which a segment
  pushes its decoded name, \<open>.\<close> does nothing and \<open>..\<close> pops, and an empty stack refuses to pop.
\<close>

definition stack_step :: "bytes \<Rightarrow> bytes list \<Rightarrow> (rpath resolution, bytes list) result" where
  "stack_step seg stack =
     (if \<not> escapes_ok seg then Inl (Res_Invalid Invalid_PercentEncoding)
      else
        let name = percent_decode_ref seg
        in case find_map invalid_path_byte name of
             Some reason \<Rightarrow> Inl (Res_Invalid reason)
           | None \<Rightarrow>
               if name = ''.'' then Inr stack
               else if name = ''..'' then
                 (if stack = [] then Inl (Res_Invalid Invalid_PathTraversal) else Inr (butlast stack))
               else Inr (stack @ [name]))"

definition path_stack :: "bytes \<Rightarrow> bytes list" where
  "path_stack path = (if path = [] then [] else split_on (CHR ''/'') path)"

definition normalized_spec ::
  "bytes \<Rightarrow> bool \<Rightarrow> bytes \<Rightarrow> (rpath resolution, rpath \<times> target_kind) result" where
  "normalized_spec parent img path_part =
     (if CHR 0x5C \<in> set path_part then Inl (Res_Invalid Invalid_BackslashSeparator)
      else
        let tree = 1 < length path_part \<and> last path_part = CHR ''/'';
            segments = split_on (CHR ''/'')
              (if path_part \<noteq> [] \<and> last path_part = CHR ''/'' then butlast path_part else path_part)
        in if [] \<in> set segments \<or> (tree \<and> img) then Inl (Res_Invalid Invalid_Syntax)
           else rbind (rfold stack_step segments (path_stack parent)) (\<lambda>stack.
             if stack = [] then
               Inl (if img then Res_Invalid Invalid_Syntax else Res_UnsupportedSemantics Sem_RepositoryRoot)
             else if path_bytes_valid (join_with (CHR ''/'') stack)
             then Inr (join_with (CHR ''/'') stack,
                       if tree then Kind_Tree else if img then Kind_Blob else Kind_Either)
             else Inl (Res_Invalid Invalid_Syntax)))"

definition stack_ok :: "bytes list \<Rightarrow> bool" where
  "stack_ok stack \<longleftrightarrow> (\<forall>c \<in> set stack. c \<noteq> [] \<and> CHR ''/'' \<notin> set c)"

lemma first_error_find_map:
  "fold (\<lambda>b found. case found of None \<Rightarrow> invalid b | Some e \<Rightarrow> Some e) bs None = find_map invalid bs"
proof -
  have "fold (\<lambda>b found. case found of None \<Rightarrow> invalid b | Some e \<Rightarrow> Some e) bs (Some e) = Some e" for e
    by (induction bs) auto
  then show ?thesis by (induction bs) (auto split: option.splits)
qed

lemma decode_component_ref:
  "decode_component percent_decode_ref seg out invalid =
     (if \<not> escapes_ok seg then
        (Inl Invalid_PercentEncoding,
         out @ percent_decode_ref (case first_malformed_escape seg of None \<Rightarrow> seg | Some at \<Rightarrow> take at seg))
      else (case find_map invalid (percent_decode_ref seg) of None \<Rightarrow> Inr () | Some e \<Rightarrow> Inl e,
            out @ percent_decode_ref seg))"
  using first_malformed_None [of seg]
  by (auto simp: decode_component_def Let_def first_error_find_map split: option.splits)

lemma percent_decode_ref_not_Nil: "seg \<noteq> [] \<Longrightarrow> percent_decode_ref seg \<noteq> []"
  by (cases seg rule: percent_decode_ref.cases) auto

lemma find_map_None: "find_map f xs = None \<longleftrightarrow> (\<forall>x \<in> set xs. f x = None)"
  by (induction xs) (auto split: option.splits)

lemma join_with_Nil_iff: "stack_ok stack \<Longrightarrow> join_with (CHR ''/'') stack = [] \<longleftrightarrow> stack = []"
  by (cases stack) (auto simp: join_with_Cons stack_ok_def)

lemma segment_step_refines:
  assumes "stack_ok stack" and "seg \<noteq> []"
  shows "segment_step percent_decode_ref seg (join_with (CHR ''/'') stack) =
     map_sum id (join_with (CHR ''/'')) (stack_step seg stack)"
    and "stack_step seg stack = Inr stack' \<Longrightarrow> stack_ok stack'"
proof -
  let ?name = "percent_decode_ref seg"
  have name: "?name \<noteq> []" using assms(2) by (rule percent_decode_ref_not_Nil)
  have slash: "CHR ''/'' \<notin> set ?name" if "find_map invalid_path_byte ?name = None"
    using that by (auto simp: find_map_None invalid_path_byte_def)
  have pop: "(case rposition is_slash (join_with (CHR ''/'') stack) of
        Some separator \<Rightarrow> take separator (join_with (CHR ''/'') stack) | None \<Rightarrow> [])
      = join_with (CHR ''/'') (butlast stack)" if "stack \<noteq> []"
  proof -
    have "CHR ''/'' \<notin> set (last stack)" using assms(1) that by (simp add: stack_ok_def)
    from directory_snoc [OF this, of "butlast stack"] show ?thesis using that by (simp add: directory_def)
  qed
  show "segment_step percent_decode_ref seg (join_with (CHR ''/'') stack) =
     map_sum id (join_with (CHR ''/'')) (stack_step seg stack)"
  proof (cases "escapes_ok seg \<and> find_map invalid_path_byte ?name = None")
    case False
    then show ?thesis
      by (auto simp: segment_step_def stack_step_def Let_def decode_component_ref split: option.splits)
  next
    case True
    then show ?thesis
      using pop join_with_Nil_iff [OF assms(1)]
      by (auto simp: segment_step_def stack_step_def Let_def decode_component_ref join_with_snoc split: option.splits)
  qed
  show "stack_ok stack'" if "stack_step seg stack = Inr stack'"
    using that assms(1) name slash
    by (auto simp: stack_step_def Let_def stack_ok_def split: if_splits option.splits dest: in_set_butlastD)
qed

lemma segments_refine:
  "stack_ok stack \<Longrightarrow> [] \<notin> set segs \<Longrightarrow>
     rfold (segment_step percent_decode_ref) segs (join_with (CHR ''/'') stack) =
       map_sum id (join_with (CHR ''/'')) (rfold stack_step segs stack)
     \<and> (\<forall>stack'. rfold stack_step segs stack = Inr stack' \<longrightarrow> stack_ok stack')"
proof (induction segs arbitrary: stack)
  case (Cons seg segs)
  then have seg: "seg \<noteq> []" "[] \<notin> set segs" by auto
  note step = segment_step_refines [OF Cons.prems(1) seg(1)]
  show ?case
  proof (cases "stack_step seg stack")
    case (Inr pushed)
    then show ?thesis using Cons.IH [OF step(2) [OF Inr] seg(2)] step(1) by simp
  qed (use step(1) in simp)
qed simp

lemma path_stack_join: "join_with (CHR ''/'') (path_stack path) = path"
  by (simp add: path_stack_def)

lemma path_bytes_valid_Nil: "\<not> path_bytes_valid []"
  by (simp add: path_bytes_valid_def)

lemma strip_suffix_slash:
  "strip_suffix ''/'' path = (if path \<noteq> [] \<and> last path = CHR ''/'' then Some (butlast path) else None)"
proof (cases "path \<noteq> [] \<and> last path = CHR ''/''")
  case True
  then have "path = butlast path @ ''/''" by (metis append_butlast_last_id)
  then show ?thesis using True by (metis strip_suffix_Some_iff)
next
  case False
  then have "strip_suffix ''/'' path \<noteq> Some r" for r by (auto simp: strip_suffix_Some_iff)
  then show ?thesis using False by auto
qed

lemma normalized_path_under_eq:
  assumes "percent_decodes dec" and "stack_ok (path_stack parent)"
  shows "normalized_path_under dec parent img path_part = normalized_spec parent img path_part"
proof -
  have dec: "dec = percent_decode_ref" using assms(1) by (rule percent_decodes_unique)
  let ?path = "if path_part \<noteq> [] \<and> last path_part = CHR ''/'' then butlast path_part else path_part"
  let ?segs = "split_on (CHR ''/'') ?path"
  have path: "(case strip_suffix ''/'' path_part of None \<Rightarrow> path_part | Some rest \<Rightarrow> rest) = ?path"
    by (simp add: strip_suffix_slash)
  have tree: "1 < length path_part \<and> ends_in path_part ''/'' \<longleftrightarrow> 1 < length path_part \<and> last path_part = CHR ''/''"
    by (auto simp: ends_in_def strip_suffix_slash)
  show ?thesis
  proof (cases "[] \<in> set ?segs")
    case True
    then show ?thesis
      unfolding normalized_path_under_def normalized_spec_def Let_def path tree list_ex_iff by auto
  next
    case False
    note walk = segments_refine [OF assms(2) False, unfolded path_stack_join]
    show ?thesis
      unfolding normalized_path_under_def normalized_spec_def Let_def path tree list_ex_iff dec walk [THEN conjunct1]
      using walk [THEN conjunct2] join_with_Nil_iff
      by (cases "rfold stack_step ?segs (path_stack parent)")
        (auto simp: rpath_from_bytes_def from_bytes_def False path_bytes_valid_Nil split: option.splits)
  qed
qed

text \<open>
  C29. Normalizing a relative destination on the byte buffer gives, for every destination and
  on every error path, what the component stack specifies: the parent is the root or a path
  without empty components, as the directory of a document is.
\<close>

theorem normalized_path_under_refines:
  assumes "percent_decodes dec" and "stack_ok (path_stack parent)"
  shows "normalized_path_under dec parent img path_part = normalized_spec parent img path_part"
  using assms by (rule normalized_path_under_eq)

theorem normalized_path_under_refines_witness:
  "normalized_path_under percent_decode_ref ''a'' False ''../b'' = normalized_spec ''a'' False ''../b''"
proof (rule normalized_path_under_refines)
  show "percent_decodes percent_decode_ref" by (rule percent_decodes_ref)
  show "stack_ok (path_stack ''a'')" by (simp add: stack_ok_def path_stack_def)
qed

end
