(* ===== verification/Scan_Fixes.thy ===== *)
theory Scan_Fixes
  imports Scan_Components Scan_Route Wire_Extraction
begin

text \<open>
  Machine-applicable repairs, the fix constructors of
  \<open>crates/amiss-scan/src/evaluate/finding.rs\<close> and \<open>evaluate/claims.rs\<close> with the claim respelling
  of \<open>claim.rs\<close>. A repair is an edit of one byte span of one document. A relocated link is
  shown to reach the path its target moved to.
\<close>

section \<open>Edits\<close>

datatype fix_kind = ClaimValueRewrite | AnchorRespelling | PathRespelling | PathRelocation

record finding_fix =
  fix_path :: repo_path_text
  fix_span :: "nat \<times> nat"
  fix_replacement :: bytes
  fix_kind :: fix_kind

definition text_path :: "rpath \<Rightarrow> repo_path_text option" where
  "text_path p =
     (case rpath_as_str p of
        None \<Rightarrow> None
      | Some s \<Rightarrow> (case repo_path_text_try_from s of Inl _ \<Rightarrow> None | Inr t \<Rightarrow> Some t))"

text \<open>\<open>str::get(i..)\<close>: the rest of a text from a character boundary.\<close>

definition str_from :: "bytes \<Rightarrow> nat \<Rightarrow> bytes option" where
  "str_from s i =
     (if i \<le> length s \<and> (i = 0 \<or> i = length s \<or> \<not> utf8_cont (s ! i)) then Some (drop i s) else None)"

definition anchor_fix :: "observation \<Rightarrow> bytes \<Rightarrow> finding_fix option" where
  "anchor_fix obs near =
     do {
       path \<leftarrow> text_path (document obs);
       sp \<leftarrow> fragment_span obs;
       Some \<lparr>fix_path = path, fix_span = sp, fix_replacement = near, fix_kind = AnchorRespelling\<rparr>
     }"

definition path_fix :: "observation \<Rightarrow> rpath \<Rightarrow> finding_fix option" where
  "path_fix obs near =
     do {
       sp \<leftarrow> path_span obs;
       let part = (case split_once (CHR ''#'') (raw_destination obs) of
           None \<Rightarrow> raw_destination obs | Some (before, _) \<Rightarrow> before);
       missed \<leftarrow> repository_path (obs_intent obs);
       let tail_at = length missed - length part;
       if length missed < length part then None
       else if drop tail_at missed \<noteq> part then None
       else if tail_at \<noteq> 0 \<and> missed ! (tail_at - 1) \<noteq> CHR ''/'' then None
       else if length near < tail_at \<or> take tail_at near \<noteq> take tail_at missed then None
       else do {
         spelled \<leftarrow> rpath_as_str near;
         replacement \<leftarrow> str_from spelled tail_at;
         path \<leftarrow> text_path (document obs);
         Some \<lparr>fix_path = path, fix_span = sp, fix_replacement = replacement, fix_kind = PathRespelling\<rparr>
       }
     }"

definition plain_link :: "bytes \<Rightarrow> bool" where
  "plain_link s = (s \<noteq> [] \<and> \<not> starts_with s ''/'' \<and> list_all (\<lambda>c. c \<notin> set ''% ()<>:'' \<and> c \<noteq> CHR 0x5C) s)"

definition common_prefix :: "'a list \<Rightarrow> 'a list \<Rightarrow> nat" where
  "common_prefix xs ys = length (takeWhile (\<lambda>(l, r). l = r) (zip xs ys))"

text \<open>The link from one directory to a target, both as component lists.\<close>

definition relative_link :: "bytes list \<Rightarrow> bytes list \<Rightarrow> bytes" where
  "relative_link here there =
     (let shared = common_prefix here there
      in join_with (CHR ''/'') (replicate (length here - shared) ''..'' @ drop shared there))"

definition relocation_fix :: "(bytes \<Rightarrow> bytes) \<Rightarrow> observation \<Rightarrow> rpath \<Rightarrow> finding_fix option" where
  "relocation_fix dec obs moved =
     do {
       sp \<leftarrow> path_span obs;
       let part = takeWhile (\<lambda>c. c \<notin> set ''#?'') (raw_destination obs);
       target \<leftarrow> rpath_as_str moved;
       if \<not> plain_link part \<or> \<not> plain_link target then None
       else do {
         let beside = directory (document obs);
         reached \<leftarrow> (case normalized_path_under dec beside False part of Inl _ \<Rightarrow> None | Inr (p, _) \<Rightarrow> Some p);
         if Some reached \<noteq> repository_path (obs_intent obs) then None
         else if \<not> utf8_valid beside then None
         else do {
           let relative = relative_link (filter (\<lambda>seg. seg \<noteq> []) (split_on (CHR ''/'') beside))
                 (split_on (CHR ''/'') target);
           let replacement = (if starts_with part ''./'' \<and> \<not> starts_with relative ''../''
                 then ''./'' @ relative else relative);
           path \<leftarrow> text_path (document obs);
           Some \<lparr>fix_path = path, fix_span = sp, fix_replacement = replacement, fix_kind = PathRelocation\<rparr>
         }
       }
     }"

text \<open>The closure \<open>fix\<close> of \<open>missing_fix\<close>.\<close>

definition missing_edit :: "(bytes \<Rightarrow> bytes) \<Rightarrow> observation \<Rightarrow> finding_fix option" where
  "missing_edit dec obs =
     (case obs_resolution obs of
        Res_Missing (HeadingAnchorNotFound _ (Some near)) \<Rightarrow> anchor_fix obs near
      | Res_Missing (PathNotFound _ (Some near) _) \<Rightarrow> path_fix obs near
      | Res_Missing (PathNotFound _ None (Some moved)) \<Rightarrow> relocation_fix dec obs moved
      | _ \<Rightarrow> None)"

definition missing_fix :: "(bytes \<Rightarrow> bytes) \<Rightarrow> observation list \<Rightarrow> finding_fix option" where
  "missing_fix dec observed =
     (case observed of
        [] \<Rightarrow> None
      | first # rest \<Rightarrow>
          (case missing_edit dec first of
             None \<Rightarrow> None
           | Some edit \<Rightarrow> if list_all (\<lambda>other. missing_edit dec other = Some edit) rest then Some edit else None))"

section \<open>Claims\<close>

datatype claim_missing_reason = Reason_Absent | Reason_NotABlob | Reason_LfsPointer | Reason_LineOutOfRange

datatype moved = Nowhere | Moved_To u64 bytes | Moved_Ambiguous

datatype claim_verdict =
    Claim_Attested
  | Claim_Broken digest bytes moved
  | Claim_TargetMissing claim_missing_reason

datatype claim_carrier = Carrier_Definition | Carrier_RstComment | Carrier_AdocComment

primrec carrier_of :: "adapter \<Rightarrow> claim_carrier" where
  "carrier_of Rst = Carrier_RstComment"
| "carrier_of AsciiDoc = Carrier_AdocComment"
| "carrier_of Markdown = Carrier_Definition"
| "carrier_of Mdx = Carrier_Definition"
| "carrier_of PlainAdvisory = Carrier_Definition"

primrec carrier_prefix :: "claim_carrier \<Rightarrow> bytes" where
  "carrier_prefix Carrier_Definition = []"
| "carrier_prefix Carrier_RstComment = ''.. ''"
| "carrier_prefix Carrier_AdocComment = ''// ''"

primrec carrier_prover :: "claim_carrier \<Rightarrow> adapter" where
  "carrier_prover Carrier_Definition = Markdown"
| "carrier_prover Carrier_RstComment = Rst"
| "carrier_prover Carrier_AdocComment = AsciiDoc"

record claim_outcome =
  outcome_carrier :: claim_carrier
  outcome_document :: rpath
  outcome_name :: bytes
  outcome_span :: "nat \<times> nat"
  outcome_display :: span_display
  outcome_source_digest :: digest
  outcome_path :: rpath
  outcome_line :: u64
  outcome_expected_digest :: digest
  outcome_verdict :: claim_verdict

text \<open>
  The respelled definition is read back by the extractor, which drives a parser of its own
  for each format; the governed definitions it finds in a text are a parameter, \<open>None\<close> where
  the text does not scan.
\<close>

type_synonym extractor = "adapter \<Rightarrow> bytes \<Rightarrow> governed_form list option"

definition claim_text :: "claim_carrier \<Rightarrow> bytes \<Rightarrow> bytes \<Rightarrow> u64 \<Rightarrow> bytes \<Rightarrow> bytes" where
  "claim_text carrier name path line words =
     carrier_prefix carrier @ ''[amiss:'' @ name @ '']: <amiss:value?path='' @ path @ ''&line=L''
     @ decimal (unat line) @ ''> '' @ [CHR 0x22] @ words @ [CHR 0x22]"

definition rewrite ::
  "extractor \<Rightarrow> bytes \<Rightarrow> rpath \<Rightarrow> u64 \<Rightarrow> bytes \<Rightarrow> claim_carrier \<Rightarrow> bytes option" where
  "rewrite extract name path line words carrier =
     (if \<not> utf8_valid words then None
      else if CHR 0x22 \<in> set words \<or> CHR 0x5C \<in> set words \<or> any_control words then None
      else case rpath_as_str path of
        None \<Rightarrow> None
      | Some path_text \<Rightarrow>
          let replacement = claim_text carrier name path_text line words
          in case extract (carrier_prover carrier) replacement of
               Some [Form_Value claim] \<Rightarrow>
                 if claim_name claim = name \<and> claim_path claim = path \<and> claim_line claim = line
                    \<and> claim_expected claim = words
                 then Some replacement else None
             | _ \<Rightarrow> None)"

section \<open>Claims read back\<close>

definition claim_url :: "bytes \<Rightarrow> u64 \<Rightarrow> bytes" where
  "claim_url path line = ''amiss:value?path='' @ path @ ''&line=L'' @ decimal (unat line)"

definition claim_definition :: "bytes \<Rightarrow> bytes \<Rightarrow> bytes \<Rightarrow> governed_definition" where
  "claim_definition label url words =
     \<lparr>definition_label = label, definition_url = url, definition_title = Some words, definition_angled = True\<rparr>"

lemma decimal_plain: "c \<in> set (decimal n) \<Longrightarrow> is_ascii_digit c"
  using decimal_digits [of n] by (simp add: list_all_iff)

lemma value_claim_reads:
  assumes "governed_name_valid name" and "path_bytes_valid path" and "set path \<inter> set ''?#&'' = {}"
    and "0 < line" and "line \<le> MAX_SAFE"
  shows "value_claim (claim_definition (''amiss:'' @ name) (claim_url path line) words)
    = Some \<lparr>claim_name = name, claim_path = path, claim_line = line, claim_expected = words\<rparr>"
proof -
  let ?rest = "path @ CHR ''&'' # ''line=L'' @ decimal (unat line)"
  have "strip_prefix ''amiss:value?path='' (claim_url path line) = Some ?rest"
    by (simp add: claim_url_def)
  moreover have "split_once (CHR ''&'') ?rest = Some (path, ''line=L'' @ decimal (unat line))"
    using assms(3) by (auto simp: split_once_Some_iff)
  moreover have "CHR ''&'' \<notin> set (decimal (unat line))"
    by (auto dest!: decimal_plain simp: is_ascii_digit_def less_eq_char_def)
  moreover have "path \<noteq> []" using assms(2) by (auto simp: path_bytes_valid_def)
  moreover have "rpath_from_bytes path = Some path" using assms(2) by (simp add: rpath_from_bytes_iff)
  moreover have "safe_line_number (decimal (unat line)) = Some line"
    using assms(4,5) by (simp add: safe_line_number_decimal)
  ultimately show ?thesis
    using assms(1,3) by (simp add: value_claim_def claim_definition_def RESERVED_LABEL_PREFIX_def)
qed

text \<open>
  C30: A claim respelled for reStructuredText is read back by that format's carrier reader as
  the same claim. The reader takes the whole comment, and the definition it makes of the line
  classifies as a value claim with the name, path, line and expected words that were written.
\<close>

theorem claim_text_roundtrip:
  assumes "governed_name_valid name" and "path_bytes_valid path" and "set path \<inter> set ''?#&<>'' = {}" and "CHR 0x0A \<notin> set path"
    and "0 < line" and "line \<le> MAX_SAFE" and "CHR 0x22 \<notin> set words" and "CHR 0x0A \<notin> set words"
  shows "\<exists>label url title.
      rst_carrier (claim_text Carrier_RstComment name path line words)
        = Some (length (claim_text Carrier_RstComment name path line words), label, url, title)
    \<and> classify (claim_definition label url title)
        = Form_Value \<lparr>claim_name = name, claim_path = path, claim_line = line, claim_expected = words\<rparr>"
proof -
  let ?words = "claim_text Carrier_RstComment name path line words"
  let ?inner = "''[amiss:'' @ name @ '']: <'' @ claim_url path line @ ''> '' @ [CHR 0x22] @ words @ [CHR 0x22]"
  have spelled: "?words = ''.. '' @ ?inner" by (simp add: claim_text_def claim_url_def)
  have plain: "CHR 0x0A \<notin> set name"
    using assms(1) by (auto simp: governed_name_valid_def list_all_iff is_ascii_alphanumeric_def
        is_ascii_alphabetic_def is_ascii_digit_def is_ascii_lowercase_def is_ascii_uppercase_def less_eq_char_def)
  have url: "CHR ''<'' \<notin> set (claim_url path line)" "CHR ''>'' \<notin> set (claim_url path line)"
      "CHR 0x0A \<notin> set (claim_url path line)"
    using assms(3,4) by (auto simp: claim_url_def dest!: decimal_plain simp: is_ascii_digit_def less_eq_char_def)
  have one_line: "split_once (CHR 0x0A) ?words = None"
    using plain url assms(8) by (simp add: spelled split_once_None_iff)
  have no_cr: "strip_suffix [CHR 0x0D] ?words = None"
    by (rule ccontr) (auto simp: spelled strip_suffix_Some_iff)
  have start: "strip_prefix ''.. '' ?words = Some ?inner" by (simp add: spelled)
  have blank: "str_trim [] = []"
    by (simp add: str_trim_def str_trim_start_def str_trim_end_def trim_start_by_def trim_end_by_def
        str_chars.simps [of "[]"] utf8_next_def)
  have "governed_carrier_line ?inner = Some (''amiss:'' @ name, claim_url path line, words)"
    by (rule carrier_line_reads) (use assms url in \<open>simp_all add: claim_url_def\<close>)
  then have taken: "rst_carrier ?words = Some (length ?words, ''amiss:'' @ name, claim_url path line, words)"
    unfolding rst_carrier_def one_line by (simp add: no_cr blank start Let_def)
  have read: "value_claim (claim_definition (''amiss:'' @ name) (claim_url path line) words)
      = Some \<lparr>claim_name = name, claim_path = path, claim_line = line, claim_expected = words\<rparr>"
    by (rule value_claim_reads) (use assms in auto)
  have "classify (claim_definition (''amiss:'' @ name) (claim_url path line) words)
      = Form_Value \<lparr>claim_name = name, claim_path = path, claim_line = line, claim_expected = words\<rparr>"
    by (simp only: classify_def read option.case)
  with taken show ?thesis by blast
qed

theorem claim_text_roundtrip_witness:
  "\<exists>label url title.
      rst_carrier (claim_text Carrier_RstComment ''pin'' ''src/a.rs'' 12 ''fn main'')
        = Some (length (claim_text Carrier_RstComment ''pin'' ''src/a.rs'' 12 ''fn main''), label, url, title)
    \<and> classify (claim_definition label url title)
        = Form_Value \<lparr>claim_name = ''pin'', claim_path = ''src/a.rs'', claim_line = 12, claim_expected = ''fn main''\<rparr>"
  by (rule claim_text_roundtrip) code_simp+

section \<open>Where a relocated link leads\<close>

lemma path_bytes_valid_components:
  "path_bytes_valid p \<longleftrightarrow> p \<noteq> [] \<and> length p \<le> 4096 \<and> CHR 0x00 \<notin> set p \<and> CHR 0x5C \<notin> set p
     \<and> list_all real_name (split_on (CHR ''/'') p)"
  using path_scan_iff [of "[]" p] by (auto simp: path_bytes_valid_def segment_state_def)

lemma split_on_slashless: "seg \<in> set (split_on (CHR ''/'') p) \<Longrightarrow> CHR ''/'' \<notin> set seg"
  by (rule split_on_pieces)

lemma split_on_subset: "seg \<in> set (split_on s p) \<Longrightarrow> set seg \<subseteq> set p"
proof (induction p arbitrary: seg)
  case (Cons x p)
  then show ?case by (cases "split_on s p") (fastforce split: if_splits)+
qed simp

lemma directory_stack:
  assumes "path_bytes_valid doc"
  shows "filter (\<lambda>seg. seg \<noteq> []) (split_on (CHR ''/'') (directory doc)) = path_stack (directory doc)"
    and "stack_ok (path_stack (directory doc))"
proof -
  let ?init = "butlast (split_on (CHR ''/'') doc)"
  have ok: "stack_ok ?init"
    unfolding stack_ok_def
  proof
    fix c
    assume "c \<in> set ?init"
    then have c: "c \<in> set (split_on (CHR ''/'') doc)" by (rule in_set_butlastD)
    moreover from assms have "list_all real_name (split_on (CHR ''/'') doc)"
      by (simp only: path_bytes_valid_components)
    ultimately have "real_name c" by (simp only: list_all_iff)
    with split_on_slashless [OF c] show "c \<noteq> [] \<and> CHR ''/'' \<notin> set c" by (simp add: real_name_def)
  qed
  have stack: "path_stack (directory doc) = ?init"
  proof (cases "?init = []")
    case False
    then have "directory doc \<noteq> []" using join_with_Nil_iff [OF ok] by (simp add: directory_split)
    then show ?thesis
      using False ok by (simp add: path_stack_def directory_split join_split_on stack_ok_def)
  qed (simp add: path_stack_def directory_split)
  show "stack_ok (path_stack (directory doc))" using ok by (simp add: stack)
  show "filter (\<lambda>seg. seg \<noteq> []) (split_on (CHR ''/'') (directory doc)) = path_stack (directory doc)"
    using ok stack by (auto simp: path_stack_def stack_ok_def filter_id_conv split: if_splits)
qed

definition plain_name :: "bytes \<Rightarrow> bool" where
  "plain_name seg \<longleftrightarrow> real_name seg \<and> list_all (\<lambda>c. c \<notin> set ''/%'' \<and> c \<noteq> CHR 0x5C \<and> \<not> is_control_byte c) seg"

lemma decode_plain: "CHR ''%'' \<notin> set seg \<Longrightarrow> percent_decode_ref seg = seg \<and> escapes_ok seg"
  by (induction seg) (auto simp: percent_decode_ref_keep)

lemma stack_step_plain: "plain_name seg \<Longrightarrow> stack_step seg stack = Inr (stack @ [seg])"
proof -
  assume plain: "plain_name seg"
  then have "percent_decode_ref seg = seg" "escapes_ok seg"
    using decode_plain [of seg] by (auto simp: plain_name_def list_all_iff)
  moreover have "find_map invalid_path_byte seg = None"
    using plain by (auto simp: plain_name_def list_all_iff find_map_None invalid_path_byte_def)
  ultimately show ?thesis using plain by (simp add: stack_step_def plain_name_def real_name_def)
qed

lemma stack_push: "list_all plain_name segs \<Longrightarrow> rfold stack_step segs stack = Inr (stack @ segs)"
  by (induction segs arbitrary: stack) (auto simp: stack_step_plain)

lemma stack_step_dots:
  "stack_step ''.'' stack = Inr stack"
  "stack \<noteq> [] \<Longrightarrow> stack_step ''..'' stack = Inr (butlast stack)"
  by (simp_all add: stack_step_def invalid_path_byte_def is_control_byte_def)

lemma stack_pop: "n \<le> length stack \<Longrightarrow>
    rfold stack_step (replicate n ''..'' @ segs) stack = rfold stack_step segs (take (length stack - n) stack)"
proof (induction n arbitrary: stack)
  case (Suc n)
  then have "stack \<noteq> []" by auto
  with Suc show ?case
    by (simp add: stack_step_dots butlast_conv_take)
qed simp

lemma common_prefix_le: "common_prefix xs ys \<le> length xs" "common_prefix xs ys \<le> length ys"
  using length_takeWhile_le [of "\<lambda>(l, r). l = r" "zip xs ys"] by (simp_all add: common_prefix_def)

lemma common_prefix_take: "take (common_prefix xs ys) xs = take (common_prefix xs ys) ys"
  by (induction xs ys rule: list_induct2') (auto simp: common_prefix_def)

lemma relative_walk:
  assumes "list_all plain_name there"
  shows "rfold stack_step (replicate (length here - common_prefix here there) ''..''
      @ drop (common_prefix here there) there) here = Inr there"
proof -
  let ?k = "common_prefix here there"
  have "list_all plain_name (drop ?k there)"
    using assms by (auto simp: list_all_iff dest: in_set_dropD)
  then have "rfold stack_step (drop ?k there) (take ?k here) = Inr (take ?k here @ drop ?k there)"
    by (rule stack_push)
  then have "rfold stack_step (drop ?k there) (take ?k here) = Inr there"
    by (metis append_take_drop_id common_prefix_take)
  then show ?thesis using common_prefix_le(1) [of here there] by (simp add: stack_pop)
qed

lemma join_with_last: "segs \<noteq> [] \<Longrightarrow> last segs \<noteq> [] \<Longrightarrow>
    join_with s segs \<noteq> [] \<and> last (join_with s segs) = last (last segs)"
  by (cases segs rule: rev_cases) (auto simp: join_with_snoc)

lemma join_with_set: "set (join_with s segs) \<subseteq> insert s (\<Union> (set ` set segs))"
  by (induction segs) (auto simp: join_with_Cons)

text \<open>A link spelled by components leads where the stack of its components leads.\<close>

lemma normalized_components:
  assumes "segs \<noteq> []" and "\<forall>seg \<in> set segs. seg \<noteq> [] \<and> CHR ''/'' \<notin> set seg \<and> CHR 0x5C \<notin> set seg"
    and "rfold stack_step segs (path_stack parent) = Inr there"
    and "there \<noteq> []" and "path_bytes_valid (join_with (CHR ''/'') there)"
  shows "normalized_spec parent False (join_with (CHR ''/'') segs)
    = Inr (join_with (CHR ''/'') there, Kind_Either)"
proof -
  let ?path = "join_with (CHR ''/'') segs"
  have fin: "last segs \<in> set segs" using assms(1) by simp
  then have "last (last segs) \<noteq> CHR ''/''" using assms(2) by (metis last_in_set)
  then have "last ?path \<noteq> CHR ''/''" using join_with_last [OF assms(1)] fin assms(2) by metis
  moreover have "CHR 0x5C \<notin> set ?path" using join_with_set [of "CHR ''/''" segs] assms(2) by auto
  moreover have "split_on (CHR ''/'') ?path = segs" using assms(1,2) by (simp add: join_split_on)
  moreover have "[] \<notin> set segs" using assms(2) by auto
  ultimately show ?thesis
    unfolding normalized_spec_def Let_def using assms(3-5) by simp
qed

definition plain_target :: "rpath \<Rightarrow> bool" where
  "plain_target moved \<longleftrightarrow> path_bytes_valid moved
     \<and> list_all (\<lambda>c. \<not> is_control_byte c \<and> c \<notin> set ''#?'') moved"

lemma plain_target_components:
  assumes "plain_target moved" and "plain_link moved"
  shows "list_all plain_name (split_on (CHR ''/'') moved)"
  unfolding list_all_iff
proof
  fix seg
  assume seg: "seg \<in> set (split_on (CHR ''/'') moved)"
  have "list_all real_name (split_on (CHR ''/'') moved)"
    using assms(1) by (simp add: plain_target_def path_bytes_valid_components)
  with seg have "real_name seg" by (simp add: list_all_iff)
  moreover have "c \<in> set moved \<and> c \<noteq> CHR ''/''" if "c \<in> set seg" for c
    using that split_on_subset [OF seg] split_on_slashless [OF seg] by auto
  ultimately show "plain_name seg"
    using assms by (auto simp: plain_name_def plain_target_def plain_link_def list_all_iff)
qed

lemma relative_link_reaches:
  fixes here there :: "bytes list"
  defines "segs \<equiv> replicate (length here - common_prefix here there) ''..'' @ drop (common_prefix here there) there"
  assumes plain: "list_all plain_name there" and here: "path_stack parent = here"
    and there: "there \<noteq> []" "path_bytes_valid (join_with (CHR ''/'') there)" and segs: "segs \<noteq> []"
  shows "normalized_spec parent False (relative_link here there) = Inr (join_with (CHR ''/'') there, Kind_Either)"
    and "normalized_spec parent False (''./'' @ relative_link here there)
      = Inr (join_with (CHR ''/'') there, Kind_Either)"
proof -
  have link: "relative_link here there = join_with (CHR ''/'') segs"
    by (simp add: relative_link_def segs_def Let_def)
  have names: "\<forall>seg \<in> set segs. seg \<noteq> [] \<and> CHR ''/'' \<notin> set seg \<and> CHR 0x5C \<notin> set seg"
  proof
    fix seg
    assume "seg \<in> set segs"
    then consider "seg = ''..''" | "seg \<in> set there" by (auto simp: segs_def dest: in_set_dropD)
    then show "seg \<noteq> [] \<and> CHR ''/'' \<notin> set seg \<and> CHR 0x5C \<notin> set seg"
    proof cases
      case 2
      with plain have "plain_name seg" by (simp add: list_all_iff)
      then show ?thesis by (auto simp: plain_name_def real_name_def list_all_iff)
    qed simp
  qed
  have walk: "rfold stack_step segs (path_stack parent) = Inr there"
    unfolding segs_def here using plain by (rule relative_walk)
  show "normalized_spec parent False (relative_link here there) = Inr (join_with (CHR ''/'') there, Kind_Either)"
    unfolding link using segs names walk there by (rule normalized_components)
  have "''./'' @ relative_link here there = join_with (CHR ''/'') (''.'' # segs)"
    using segs by (simp add: link join_with_Cons)
  moreover have "normalized_spec parent False (join_with (CHR ''/'') (''.'' # segs))
      = Inr (join_with (CHR ''/'') there, Kind_Either)"
    using names walk there by (intro normalized_components) (simp_all add: stack_step_dots)
  ultimately show "normalized_spec parent False (''./'' @ relative_link here there)
      = Inr (join_with (CHR ''/'') there, Kind_Either)" by simp
qed

text \<open>What a relocation edit has been through when it is offered.\<close>

lemma relocation_fix_link:
  assumes "relocation_fix dec obs moved = Some edit"
  shows "plain_link moved"
    and "fix_replacement edit =
      (let relative = relative_link (filter (\<lambda>seg. seg \<noteq> []) (split_on (CHR ''/'') (directory (document obs))))
             (split_on (CHR ''/'') moved)
       in if starts_with (takeWhile (\<lambda>c. c \<notin> set ''#?'') (raw_destination obs)) ''./''
             \<and> \<not> starts_with relative ''../''
          then ''./'' @ relative else relative)"
  using assms
  by (auto simp: relocation_fix_def Let_def rpath_as_str_def bind_eq_Some_conv split: if_splits option.splits)

lemma relative_link_Nil:
  assumes "relative_link here there = []" and "list_all plain_name there"
  shows "here = there"
proof -
  let ?k = "common_prefix here there"
  let ?segs = "replicate (length here - ?k) ''..'' @ drop ?k there"
  have join: "join_with (CHR ''/'') ?segs = []" using assms(1) by (simp add: relative_link_def Let_def)
  have "stack_ok ?segs"
    unfolding stack_ok_def
  proof
    fix seg
    assume "seg \<in> set ?segs"
    then consider "seg = ''..''" | "seg \<in> set there" by (auto dest: in_set_dropD)
    then show "seg \<noteq> [] \<and> CHR ''/'' \<notin> set seg"
    proof cases
      case 2
      with assms(2) have "plain_name seg" by (simp add: list_all_iff)
      then show ?thesis by (auto simp: plain_name_def real_name_def list_all_iff)
    qed simp
  qed
  with join have "?segs = []" by (simp only: join_with_Nil_iff)
  then have "length here \<le> ?k" "length there \<le> ?k" by simp_all
  then show ?thesis using common_prefix_take [of here there] by simp
qed

lemma takeWhile_plain:
  assumes "plain_target moved" and "plain_link moved"
  defines "there \<equiv> split_on (CHR ''/'') moved"
  shows "takeWhile (\<lambda>c. c \<notin> set ''#?'') (relative_link here there) = relative_link here there"
    and "takeWhile (\<lambda>c. c \<notin> set ''#?'') (''./'' @ relative_link here there) = ''./'' @ relative_link here there"
proof -
  have "c \<notin> set ''#?''" if c: "c \<in> set (relative_link here there)" for c
  proof -
    let ?segs = "replicate (length here - common_prefix here there) ''..'' @ drop (common_prefix here there) there"
    have "c \<in> insert (CHR ''/'') (\<Union> (set ` set ?segs))"
      using c join_with_set [of "CHR ''/''" ?segs] by (auto simp: relative_link_def Let_def)
    then have "c = CHR ''/'' \<or> c = CHR ''.'' \<or> (\<exists>seg \<in> set there. c \<in> set seg)"
      by (auto dest: in_set_dropD split: if_splits)
    moreover have "c \<in> set moved" if "seg \<in> set there" "c \<in> set seg" for seg
      using that split_on_subset [of seg "CHR ''/''" moved] by (auto simp: there_def)
    ultimately show ?thesis using assms(1) by (auto simp: plain_target_def list_all_iff)
  qed
  then have free: "\<forall>c \<in> set (relative_link here there). c \<notin> set ''#?''" by blast
  then show "takeWhile (\<lambda>c. c \<notin> set ''#?'') (relative_link here there) = relative_link here there"
    by (simp only: takeWhile_eq_all_conv)
  from free have "\<forall>c \<in> set (''./'' @ relative_link here there). c \<notin> set ''#?''" by simp
  then show "takeWhile (\<lambda>c. c \<notin> set ''#?'') (''./'' @ relative_link here there) = ''./'' @ relative_link here there"
    by (simp only: takeWhile_eq_all_conv)
qed

lemma normalized_own_directory:
  assumes "path_stack parent = there" and "there \<noteq> []" and "path_bytes_valid (join_with (CHR ''/'') there)"
  shows "normalized_spec parent False ''./'' = Inr (join_with (CHR ''/'') there, Kind_Tree)"
  using assms by (simp add: normalized_spec_def stack_step_dots)

lemma common_prefix_self: "common_prefix xs xs = length xs"
  by (induction xs) (auto simp: common_prefix_def)

lemma dot_slash_cut:
  "starts_with (takeWhile (\<lambda>c. c \<notin> set ''#?'') s) ''./'' \<longleftrightarrow> starts_with s ''./''"
proof
  assume "starts_with (takeWhile (\<lambda>c. c \<notin> set ''#?'') s) ''./''"
  then obtain rest where "takeWhile (\<lambda>c. c \<notin> set ''#?'') s = ''./'' @ rest"
    by (auto simp: starts_with_iff)
  then have "s = ''./'' @ rest @ dropWhile (\<lambda>c. c \<notin> set ''#?'') s"
    by (metis append_assoc takeWhile_dropWhile_id)
  then show "starts_with s ''./''" by (metis starts_with_append)
next
  assume "starts_with s ''./''"
  then obtain rest where "s = ''./'' @ rest" by (auto simp: starts_with_iff)
  then show "starts_with (takeWhile (\<lambda>c. c \<notin> set ''#?'') s) ''./''" by (simp add: starts_with_iff)
qed

lemma relative_link_own:
  assumes "path_bytes_valid doc" and "list_all plain_name (split_on (CHR ''/'') moved)" and "moved \<noteq> []"
  shows "relative_link (path_stack (directory doc)) (split_on (CHR ''/'') moved) = [] \<longleftrightarrow> moved = directory doc"
proof
  assume "relative_link (path_stack (directory doc)) (split_on (CHR ''/'') moved) = []"
  then have "path_stack (directory doc) = split_on (CHR ''/'') moved" using assms(2) by (rule relative_link_Nil)
  then show "moved = directory doc"
    using path_stack_join [of "directory doc"] by simp
next
  assume "moved = directory doc"
  then show "relative_link (path_stack (directory doc)) (split_on (CHR ''/'') moved) = []"
    using assms(3) by (simp add: path_stack_def relative_link_def common_prefix_self Let_def)
qed

text \<open>
  C28: Where a relocation edit leads, for a new path free of control bytes, \<open>#\<close> and \<open>?\<close>, which
  the edit does not escape. Resolving the path part of the replacement from the document's
  directory gives the new path, with one exception: when the target moved to the
  document's own directory and the link was not written with a leading \<open>./\<close>, the replacement
  is the empty text.
\<close>

theorem relocation_fix_reaches:
  assumes "percent_decodes dec" and "path_bytes_valid (document obs)" and "plain_target moved"
    and "relocation_fix dec obs moved = Some edit"
  shows "if moved = directory (document obs) \<and> \<not> starts_with (raw_destination obs) ''./''
    then fix_replacement edit = []
    else fix_replacement edit \<noteq> []
      \<and> (\<exists>kind. normalized_path_under dec (directory (document obs)) False
           (takeWhile (\<lambda>c. c \<notin> set ''#?'') (fix_replacement edit)) = Inr (moved, kind))"
proof -
  define here where "here = path_stack (directory (document obs))"
  define there where "there = split_on (CHR ''/'') moved"
  note link = relocation_fix_link [OF assms(4)]
  have plain: "list_all plain_name there"
    using plain_target_components [OF assms(3) link(1)] by (simp add: there_def)
  have there: "there \<noteq> []" "join_with (CHR ''/'') there = moved" by (simp_all add: there_def)
  have valid: "path_bytes_valid moved" using assms(3) by (simp add: plain_target_def)
  note eq = normalized_path_under_eq [OF assms(1) directory_stack(2) [OF assms(2)]]
  have own: "relative_link here there = [] \<longleftrightarrow> moved = directory (document obs)"
    unfolding here_def there_def using link(1)
    by (intro relative_link_own [OF assms(2) plain [unfolded there_def]]) (auto simp: plain_link_def)
  have edit: "fix_replacement edit =
      (if starts_with (raw_destination obs) ''./'' \<and> \<not> starts_with (relative_link here there) ''../''
       then ''./'' @ relative_link here there else relative_link here there)"
    using link(2) [unfolded dot_slash_cut] by (simp add: directory_stack(1) [OF assms(2)] here_def there_def Let_def)
  note cut = takeWhile_plain [OF assms(3) link(1), folded there_def]
  show ?thesis
  proof (cases "relative_link here there = []")
    case True
    then have "here = there" using plain by (rule relative_link_Nil)
    then have "normalized_spec (directory (document obs)) False ''./'' = Inr (moved, Kind_Tree)"
      using normalized_own_directory [of "directory (document obs)" there] there valid by (simp add: here_def)
    then show ?thesis using True own edit by (auto simp: eq starts_with_def)
  next
    case False
    then have "replicate (length here - common_prefix here there) ''..'' @ drop (common_prefix here there) there \<noteq> []"
      by (auto simp: relative_link_def Let_def)
    note reach = relative_link_reaches [OF plain here_def [symmetric] there(1) _ this, unfolded there(2), OF valid]
    have "moved \<noteq> directory (document obs)" using False own by simp
    moreover have "fix_replacement edit \<noteq> []" using False edit by simp
    moreover have "\<exists>kind. normalized_path_under dec (directory (document obs)) False
        (takeWhile (\<lambda>c. c \<notin> set ''#?'') (fix_replacement edit)) = Inr (moved, kind)"
      using edit reach unfolding eq by (cases "fix_replacement edit = relative_link here there") (auto simp only: cut split: if_splits)
    ultimately show ?thesis by simp
  qed
qed

definition moved_example :: "bytes \<Rightarrow> bytes \<Rightarrow> bytes \<Rightarrow> observation" where
  "moved_example doc dest missed =
     \<lparr>obs_id = Digest [], adapter_contract_digest = Digest [], document = doc, span = (0, 9),
      display = \<lparr>start_line = 1, start_column = 1, end_line = 1, end_column = 9\<rparr>,
      block_kind = Paragraph, node_path = [], adapter = Markdown, construct = InlineLink,
      obs_intent = \<lparr>intent_kind = RepositoryPath, commit_oid = None, repository_path = Some missed, target_kind = None,
        external_scheme = None, query = None, fragment = None\<rparr>, external_destination = None,
      raw_destination = dest, raw_destination_digest = Digest [], projection_digest = Digest [],
      obs_resolution = Res_Missing (PathNotFound missed None None), fragment_span = None, path_span = Some (3, 8)\<rparr>"

lemma normalized_example: "normalized_path_under percent_decode_ref ''d'' False ''b'' = Inr (''d/b'', Kind_Either)"
  by code_simp

lemma path_text_example: "text_path ''d/a'' = Some (RepoPathText ''d/a'')"
proof -
  have "utf8_valid ''d/a''" by (rule utf8_valid_ascii) (simp add: is_ascii_def)
  moreover have "path_bytes_valid ''d/a''" by code_simp
  ultimately show ?thesis by (simp add: text_path_def rpath_as_str_def repo_path_text_try_from_def)
qed

lemma relocation_fix_example:
  assumes "plain_link moved" and "rpath_as_str moved = Some moved"
  shows "relocation_fix percent_decode_ref (moved_example ''d/a'' ''b'' ''d/b'') moved =
    Some \<lparr>fix_path = RepoPathText ''d/a'', fix_span = (3, 8),
      fix_replacement = relative_link [''d''] (split_on (CHR ''/'') moved), fix_kind = PathRelocation\<rparr>"
proof -
  have "directory ''d/a'' = ''d''" by code_simp
  moreover have "utf8_valid ''d''" by (rule utf8_valid_ascii) (simp add: is_ascii_def)
  moreover have "plain_link ''b''" by code_simp
  ultimately show ?thesis
    using assms normalized_example path_text_example
    by (simp add: relocation_fix_def moved_example_def starts_with_def)
qed

theorem relocation_fix_reaches_witness:
  "\<exists>kind. normalized_path_under percent_decode_ref ''d'' False ''e/c'' = Inr (''d/e/c'', kind)"
proof -
  have "utf8_valid ''d/e/c''" by (rule utf8_valid_ascii) (simp add: is_ascii_def)
  then have spelled: "rpath_as_str ''d/e/c'' = Some ''d/e/c''" by (simp add: rpath_as_str_def)
  have plain: "plain_link ''d/e/c''" by code_simp
  have valid: "path_bytes_valid (document (moved_example ''d/a'' ''b'' ''d/b''))" by code_simp
  have target: "plain_target ''d/e/c''" by code_simp
  have link: "relative_link [''d''] (split_on (CHR ''/'') ''d/e/c'') = ''e/c''" by code_simp
  have beside: "directory (document (moved_example ''d/a'' ''b'' ''d/b'')) = ''d''" by code_simp
  show ?thesis
    using relocation_fix_reaches [OF percent_decodes_ref valid target relocation_fix_example [OF plain spelled],
        unfolded link beside] by simp
qed

end
