(* ===== verification/Scan_Findings.thy ===== *)
theory Scan_Findings
  imports Scan_Fixes Scan_Correlate Scan_Policy
begin

text \<open>
  The findings of one evaluation and their constructors, \<open>crates/amiss-scan/src/evaluate/\<close>:
  \<open>model.rs\<close>, \<open>finding.rs\<close>, \<open>control.rs\<close>, \<open>claims.rs\<close>, \<open>projections.rs\<close> and \<open>documents.rs\<close>. A finding
  is named by the digest of its key and carries the steps by which its disposition was
  reached. The schema tags, which have one value each, are left out of the records. The
  evidence of a document or of an observation is built for the report only and is not a
  form of the evidence here.
\<close>

section \<open>Keys and facts\<close>

datatype repository_intent_path = Intent_Empty | Intent_Path rpath

record reference_key =
  ref_document :: rpath
  ref_commit_oid :: "oid option"
  ref_fragment_digest :: "digest option"
  ref_path :: repository_intent_path
  ref_query_digest :: "digest option"
  ref_target_kind :: target_kind
  ref_projection_digest :: digest
  ref_construct :: source_construct

datatype finding_key_scope =
    Key_Control "rpath option" bytes
  | Key_Document rpath
  | Key_Observation digest
  | Key_Reference reference_key

record finding_key_input =
  finding_kind :: finding_kind
  finding_scope :: finding_key_scope

datatype control_state = State_Absent | State_Invalid | State_OutsideCoverage | State_Present | State_Refused

record control_state_source =
  source_digest :: digest
  source_multiplicity :: u64

record control_state_input =
  state_path :: "repo_path_text option"
  state_rule_id :: bytes
  state_sources :: "control_state_source list"
  state_state :: control_state

datatype claim_observed =
    Observed_LineDiffers | Observed_LineOutOfRange | Observed_TargetAbsent | Observed_TargetLfsPointer
  | Observed_TargetNotABlob

datatype broken_redirect_reason =
    Redirect_AmbiguousRoute | Redirect_MissingAnchor | Redirect_MissingRoute | Redirect_NonterminalRedirect

datatype projection_observed =
    ContentAbsent | ContentDiffers | SinkAbsent | SinkAmbiguous | SinkDocumentUnavailable | SinkNotAdjacent
  | SourceAbsent | SourceEndMarkerAbsent | SourceEndMarkerAmbiguous | SourceKeyAbsent | SourceKeyNotScalar
  | SourceLfsPointer | SourceLinesOutOfRange | SourceNotABlob | SourceRecordAbsent | SourceRecordSetAbsent
  | SourceRecordSetIncomplete | SourceRecordUnproven | SourceRegionNotUtf8 | SourceRegionOrderInvalid
  | SourceStartMarkerAbsent | SourceStartMarkerAmbiguous | SourceTreePathNotARow | SourceTreePathNotUtf8
  | SourceTreeRootAbsent | SourceTreeRootNotATree | SourceUnparsable

record rows_projection_difference =
  expected_records :: u64
  extra_omitted :: u64
  extra_preview :: "bytes list"
  extra_records :: u64
  missing_omitted :: u64
  missing_preview :: "bytes list"
  missing_records :: u64
  observed_records :: u64
  ordering_only :: bool

datatype projection_difference =
    Difference_Count u64 "u64 option"
  | Difference_Rows rows_projection_difference

record debt_diagnostic_row =
  dd_accepted_fact_digest :: digest
  dd_adoption_tree :: tree_identity
  dd_created_at :: utc_instant
  dd_current_fact_digest :: digest
  dd_debt_id :: artifact_id
  dd_debt_snapshot_digest :: digest
  dd_expires_at :: utc_instant
  dd_owner :: owner_id
  dd_reason :: bytes

record waiver_diagnostic_row =
  wd_authorized_fact_digest :: digest
  wd_candidate_tree :: tree_identity
  wd_created_at :: utc_instant
  wd_current_fact_digest :: "digest option"
  wd_expires_at :: utc_instant
  wd_finding_key :: digest
  wd_issuer :: owner_id
  wd_not_before :: utc_instant
  wd_owner :: owner_id
  wd_reason :: bytes
  wd_waiver_bundle_digest :: digest
  wd_waiver_id :: artifact_id

datatype exception_diagnostic = Diagnostic_Debt debt_diagnostic_row | Diagnostic_Waiver waiver_diagnostic_row

record claim_evidence =
  ce_expected_digest :: digest
  ce_line :: u64
  ce_name :: bytes
  ce_observed :: claim_observed
  ce_observed_digest :: "digest option"
  ce_sources :: "control_state_source list"
  ce_target_path :: repo_path_text

record control_evidence =
  base_control_digest :: "digest option"
  base_control_state :: "control_state_input option"
  candidate_control_digest :: "digest option"
  candidate_control_state :: "control_state_input option"
  evidence_control_path :: "rpath option"
  evidence_exception :: "exception_diagnostic option"
  evidence_rule_id :: bytes

record projection_evidence =
  pe_difference :: "projection_difference option"
  pe_expected_bytes :: "u64 option"
  pe_expected_digest :: "digest option"
  pe_name :: bytes
  pe_observed :: projection_observed
  pe_observed_bytes :: "u64 option"
  pe_observed_digest :: "digest option"
  pe_projection :: projection_kind
  pe_source :: projection_source
  pe_sources :: "control_state_source list"

datatype finding_fact_evidence =
    Evidence_BrokenRedirect digest bytes broken_redirect_reason bytes rpath
  | Evidence_Claim claim_evidence
  | Evidence_Control control_evidence
  | Evidence_DuplicateRoute "digest list" bytes "rpath list"
  | Evidence_Projection projection_evidence
  | Evidence_Reference u64 "rpath resolution"

record finding_fact_input =
  input_evidence :: finding_fact_evidence
  input_finding_kind :: finding_kind
  input_key_input :: finding_key_input

record finding_fact =
  fact_input :: finding_fact_input
  fact_digest :: digest

text \<open>
  What the evaluation takes from outside: the hash, percent-decoding, the canonical writers
  of a key and of a fact, and the extractor of governed definitions.
\<close>

record externals =
  ext_sha :: sha256
  ext_decode :: "bytes \<Rightarrow> bytes"
  ext_write_key :: "finding_key_input \<Rightarrow> bytes option"
  ext_write_fact :: "finding_fact_input \<Rightarrow> bytes option"
  ext_extract :: extractor

section \<open>Findings\<close>

datatype location_side = Side_Base | Side_Candidate | Side_Control | Side_Global

record location =
  location_side :: location_side
  location_path :: "rpath option"
  location_span :: "(nat \<times> nat) option"
  location_display :: "span_display option"

record debt_application =
  da_debt_id :: artifact_id
  da_debt_snapshot_digest :: digest
  da_adoption_tree :: tree_identity
  da_accepted_fact_digest :: digest
  da_owner :: owner_id
  da_reason :: bytes
  da_created_at :: utc_instant
  da_expires_at :: utc_instant

record waiver_application =
  wa_waiver_id :: artifact_id
  wa_waiver_bundle_digest :: digest
  wa_candidate_tree :: tree_identity
  wa_authorized_fact_digest :: digest
  wa_issuer :: owner_id
  wa_not_before :: utc_instant
  wa_owner :: owner_id
  wa_reason :: bytes
  wa_created_at :: utc_instant
  wa_expires_at :: utc_instant

record finding =
  key_input :: finding_key_input
  finding_key :: digest
  finding_attribution :: attribution
  base_fact :: "finding_fact option"
  candidate_fact :: "finding_fact option"
  member_count :: u64
  observation_ids :: "digest list"
  finding_location :: location
  configured_disposition :: disposition
  effective_disposition :: disposition
  finding_steps :: "policy_step list"
  finding_debt :: "debt_application option"
  finding_waiver :: "waiver_application option"
  finding_edit :: "finding_fix option"

abbreviation kind_of :: "finding \<Rightarrow> finding_kind" where
  "kind_of f \<equiv> finding_kind (key_input f)"

section \<open>Constructors\<close>

definition fact :: "externals \<Rightarrow> finding_key_input \<Rightarrow> finding_fact_evidence \<Rightarrow> (error, finding_fact) result" where
  "fact ext key evidence =
     (let input = \<lparr>input_evidence = evidence, input_finding_kind = finding_kind key, input_key_input = key\<rparr>
      in rbind (ok_or Internal (document_digest (ext_sha ext) (ext_write_fact ext) FACT_DOMAIN input))
           (\<lambda>d. Inr \<lparr>fact_input = input, fact_digest = d\<rparr>))"

definition reference_fact ::
  "externals \<Rightarrow> finding_key_input \<Rightarrow> observation \<Rightarrow> u64 \<Rightarrow> (error, finding_fact) result" where
  "reference_fact ext key obs multiplicity = fact ext key (Evidence_Reference multiplicity (obs_resolution obs))"

definition observation_location :: "observation \<Rightarrow> location_side \<Rightarrow> location" where
  "observation_location obs at_side =
     \<lparr>location_side = at_side, location_path = Some (document obs), location_span = Some (span obs),
      location_display = Some (display obs)\<rparr>"

definition path_location :: "location_side \<Rightarrow> rpath option \<Rightarrow> location" where
  "path_location at_side path =
     \<lparr>location_side = at_side, location_path = path, location_span = None, location_display = None\<rparr>"

text \<open>Step one: built-in always starts from \<open>record\<close>.\<close>

definition built_in_step :: "finding_kind \<Rightarrow> profile \<Rightarrow> policy_step" where
  "built_in_step kind prof =
     \<lparr>step_after = built_in_disposition kind prof, step_before = Record,
      step_rule_id = ''scanner-policy-defaults/'' @ finding_kind_str kind @ ''/'' @ profile_str (policy_defaults prof),
      step_source = BuiltIn\<rparr>"

definition simple ::
  "externals \<Rightarrow> finding_kind \<Rightarrow> finding_key_scope \<Rightarrow> attribution \<Rightarrow> digest list \<Rightarrow> location \<Rightarrow> profile
   \<Rightarrow> (error, finding) result" where
  "simple ext kind scope attr ids loc prof =
     (let key = \<lparr>finding_kind = kind, finding_scope = scope\<rparr>;
          configured = built_in_disposition kind prof
      in rbind (ok_or Internal (document_digest (ext_sha ext) (ext_write_key ext) FINDING_KEY_DOMAIN key))
           (\<lambda>d. Inr \<lparr>key_input = key, finding_key = d, finding_attribution = attr, base_fact = None,
              candidate_fact = None, member_count = 1, observation_ids = ids, finding_location = loc,
              configured_disposition = configured, effective_disposition = configured,
              finding_steps = [built_in_step kind prof], finding_debt = None, finding_waiver = None,
              finding_edit = None\<rparr>))"

definition candidate_fact_finding ::
  "externals \<Rightarrow> finding_kind \<Rightarrow> finding_key_scope \<Rightarrow> finding_fact_evidence \<Rightarrow> u64 \<Rightarrow> location \<Rightarrow> profile
   \<Rightarrow> (error, finding) result" where
  "candidate_fact_finding ext kind scope evidence amount loc prof =
     rbind (simple ext kind scope NotApplicable [] loc prof) (\<lambda>f.
       rbind (fact ext (key_input f) evidence) (\<lambda>ft.
         Inr (f\<lparr>candidate_fact := Some ft, member_count := amount\<rparr>)))"

section \<open>Control findings\<close>

record governed_seed =
  seed_document :: rpath
  seed_member_count :: u64
  seed_sources :: "control_state_source list"
  seed_span :: "(nat \<times> nat) option"
  seed_display :: "span_display option"

definition control_fact_finding ::
  "externals \<Rightarrow> finding_kind \<Rightarrow> rpath \<Rightarrow> bytes \<Rightarrow> finding_fact_evidence \<Rightarrow> u64
   \<Rightarrow> (nat \<times> nat) option \<times> span_display option \<Rightarrow> profile \<Rightarrow> (error, finding) result" where
  "control_fact_finding ext kind doc rule evidence amount repr prof =
     candidate_fact_finding ext kind (Key_Control (Some doc) rule) evidence amount
       \<lparr>location_side = Side_Candidate, location_path = Some doc, location_span = fst repr,
        location_display = snd repr\<rparr> prof"

definition governed_finding :: "externals \<Rightarrow> governed_seed \<Rightarrow> profile \<Rightarrow> (error, finding) result" where
  "governed_finding ext seed prof =
     (let rule = ''unsupported/governed-claim''
      in rbind
           (case rpath_as_str (seed_document seed) of
              None \<Rightarrow> Inr None
            | Some s \<Rightarrow> (case repo_path_text_try_from s of Inl _ \<Rightarrow> Inl Internal | Inr t \<Rightarrow> Inr (Some t)))
           (\<lambda>path. control_fact_finding ext UnsupportedCapability (seed_document seed) rule
              (Evidence_Control
                 \<lparr>base_control_digest = None, base_control_state = None, candidate_control_digest = None,
                  candidate_control_state = Some
                    \<lparr>state_path = path, state_rule_id = rule, state_sources = seed_sources seed,
                     state_state = State_Refused\<rparr>,
                  evidence_control_path = Some (seed_document seed), evidence_exception = None,
                  evidence_rule_id = rule\<rparr>)
              (seed_member_count seed) (seed_span seed, seed_display seed) prof))"

definition control_row ::
  "externals \<Rightarrow> finding_kind \<Rightarrow> bytes \<Rightarrow> rpath option \<Rightarrow> digest option \<times> digest option
   \<Rightarrow> exception_diagnostic option \<Rightarrow> profile \<Rightarrow> (error, finding) result" where
  "control_row ext kind rule control_path digests exc prof =
     candidate_fact_finding ext kind (Key_Control control_path rule)
       (Evidence_Control
          \<lparr>base_control_digest = fst digests, base_control_state = None,
           candidate_control_digest = snd digests, candidate_control_state = None,
           evidence_control_path = control_path, evidence_exception = exc, evidence_rule_id = rule\<rparr>)
       1 (path_location (if control_path \<noteq> None then Side_Control else Side_Global) control_path) prof"

definition control_finding :: "externals \<Rightarrow> control_seed \<Rightarrow> effects \<Rightarrow> profile \<Rightarrow> (error, finding) result" where
  "control_finding ext seed policy prof =
     control_row ext (seed_kind seed) (seed_rule_id seed) (seed_control_path seed)
       (base_digest policy, candidate_digest policy) None prof"

section \<open>Claims\<close>

record claim_group =
  cg_kind :: finding_kind
  cg_carrier :: claim_carrier
  cg_document :: rpath
  cg_name :: bytes
  cg_member_count :: u64
  cg_sources :: "control_state_source list"
  cg_span :: "(nat \<times> nat) option"
  cg_display :: "span_display option"
  cg_target_path :: rpath
  cg_line :: u64
  cg_expected_digest :: digest
  cg_observed :: claim_observed
  cg_observed_digest :: "digest option"
  cg_observed_line :: "bytes option"
  cg_moved :: moved

text \<open>\<open>slice::chunk_by\<close> with equality: the runs of equal neighbours.\<close>

fun equal_runs :: "'a list \<Rightarrow> 'a list list" where
  "equal_runs [] = []"
| "equal_runs (x # xs) =
     (case equal_runs xs of
        [] \<Rightarrow> [[x]]
      | run # runs \<Rightarrow> if hd run = x then (x # run) # runs else [x] # run # runs)"

definition source_multiplicities :: "digest list \<Rightarrow> control_state_source list" where
  "source_multiplicities digests =
     map (\<lambda>run. \<lparr>source_digest = hd run, source_multiplicity = u64_of_usize (length run)\<rparr>)
       (equal_runs (sort digests))"

record keyed_claim =
  keyed_outcome :: claim_outcome
  keyed_kind :: finding_kind
  keyed_observed :: claim_observed
  keyed_observed_digest :: "digest option"
  keyed_observed_line :: "bytes option"
  keyed_moved :: "moved option"

primrec missing_observed :: "claim_missing_reason \<Rightarrow> claim_observed" where
  "missing_observed Reason_Absent = Observed_TargetAbsent"
| "missing_observed Reason_NotABlob = Observed_TargetNotABlob"
| "missing_observed Reason_LfsPointer = Observed_TargetLfsPointer"
| "missing_observed Reason_LineOutOfRange = Observed_LineOutOfRange"

definition claim_defect :: "claim_outcome \<Rightarrow> keyed_claim option" where
  "claim_defect oc =
     (case outcome_verdict oc of
        Claim_Attested \<Rightarrow> None
      | Claim_Broken d obs mv \<Rightarrow> Some
          \<lparr>keyed_outcome = oc, keyed_kind = ClaimBroken, keyed_observed = Observed_LineDiffers,
           keyed_observed_digest = Some d, keyed_observed_line = Some obs, keyed_moved = Some mv\<rparr>
      | Claim_TargetMissing why \<Rightarrow> Some
          \<lparr>keyed_outcome = oc, keyed_kind = ClaimTargetMissing, keyed_observed = missing_observed why,
           keyed_observed_digest = None, keyed_observed_line = None, keyed_moved = None\<rparr>)"

type_synonym claim_key_type = "rpath \<times> bytes \<times> finding_kind"

definition claim_key :: "keyed_claim \<Rightarrow> claim_key_type" where
  "claim_key k = (outcome_document (keyed_outcome k), outcome_name (keyed_outcome k), keyed_kind k)"

definition representative_group :: "keyed_claim list \<Rightarrow> claim_group option" where
  "representative_group grouped =
     (let ordered = sort_key (\<lambda>k. outcome_span (keyed_outcome k)) grouped
      in case ordered of
           [] \<Rightarrow> None
         | r # _ \<Rightarrow> Some
             \<lparr>cg_kind = keyed_kind r, cg_carrier = outcome_carrier (keyed_outcome r),
              cg_document = outcome_document (keyed_outcome r), cg_name = outcome_name (keyed_outcome r),
              cg_member_count = u64_of_usize (length ordered),
              cg_sources = source_multiplicities (map (\<lambda>k. outcome_source_digest (keyed_outcome k)) ordered),
              cg_span = Some (outcome_span (keyed_outcome r)),
              cg_display = Some (outcome_display (keyed_outcome r)),
              cg_target_path = outcome_path (keyed_outcome r), cg_line = outcome_line (keyed_outcome r),
              cg_expected_digest = outcome_expected_digest (keyed_outcome r),
              cg_observed = keyed_observed r, cg_observed_digest = keyed_observed_digest r,
              cg_observed_line = keyed_observed_line r,
              cg_moved = (case keyed_moved r of None \<Rightarrow> Nowhere | Some mv \<Rightarrow> mv)\<rparr>)"

definition keyed_claims :: "claim_outcome list \<Rightarrow> (claim_key_type, keyed_claim list) btree" where
  "keyed_claims outcomes =
     fold (\<lambda>oc m. case claim_defect oc of None \<Rightarrow> m | Some k \<Rightarrow> btree_push (claim_key k) k m) outcomes []"

definition claim_groups :: "claim_outcome list \<Rightarrow> claim_group list" where
  "claim_groups outcomes = List.map_filter representative_group (map snd (keyed_claims outcomes))"

definition claim_fix :: "extractor \<Rightarrow> claim_group \<Rightarrow> finding_fix option" where
  "claim_fix extract g =
     (if cg_kind g \<noteq> ClaimBroken \<or> cg_member_count g \<noteq> 1 then None
      else do {
        (line, words) \<leftarrow> (case cg_moved g of
            Moved_To line words \<Rightarrow> Some (line, words)
          | Moved_Ambiguous \<Rightarrow> None
          | Nowhere \<Rightarrow> map_option (Pair (cg_line g)) (cg_observed_line g));
        replacement \<leftarrow> rewrite extract (cg_name g) (cg_target_path g) line words (cg_carrier g);
        sp \<leftarrow> cg_span g;
        path \<leftarrow> text_path (cg_document g);
        Some \<lparr>fix_path = path, fix_span = sp, fix_replacement = replacement, fix_kind = ClaimValueRewrite\<rparr>
      })"

definition claim_finding :: "externals \<Rightarrow> claim_group \<Rightarrow> profile \<Rightarrow> (error, finding) result" where
  "claim_finding ext g prof =
     rbind (ok_or Internal (text_path (cg_target_path g))) (\<lambda>target.
       rbind (control_fact_finding ext (cg_kind g) (cg_document g) (''claim/value/'' @ cg_name g)
           (Evidence_Claim
              \<lparr>ce_expected_digest = cg_expected_digest g, ce_line = cg_line g, ce_name = cg_name g,
               ce_observed = cg_observed g, ce_observed_digest = cg_observed_digest g,
               ce_sources = cg_sources g, ce_target_path = target\<rparr>)
           (cg_member_count g) (cg_span g, cg_display g) prof)
         (\<lambda>f. Inr (f\<lparr>finding_edit := claim_fix (ext_extract ext) g\<rparr>)))"

section \<open>Projections\<close>

record projection_drift =
  drift_reason :: projection_observed
  drift_expected_digest :: "digest option"
  drift_observed_digest :: "digest option"
  drift_expected_bytes :: "u64 option"
  drift_observed_bytes :: "u64 option"
  drift_difference :: "projection_difference option"

datatype projection_verdict = Projection_Attested | Projection_Drift projection_drift

record projection_outcome =
  outcome_assertion :: projection_assertion
  carrier_digests :: "digest list"
  answered_spans :: "(nat \<times> nat) list"
  projection_span :: "(nat \<times> nat) option"
  projection_display :: "span_display option"
  projection_verdict :: projection_verdict

definition projection_finding ::
  "externals \<Rightarrow> projection_outcome \<Rightarrow> profile \<Rightarrow> (error, finding option) result" where
  "projection_finding ext oc prof =
     (case projection_verdict oc of
        Projection_Attested \<Rightarrow> Inr None
      | Projection_Drift d \<Rightarrow>
          let a = outcome_assertion oc
          in rbind (control_fact_finding ext ProjectionDrift (as_text (assertion_document a))
                 (''claim/projection/'' @ assertion_name a)
                 (Evidence_Projection
                    \<lparr>pe_difference = drift_difference d, pe_expected_bytes = drift_expected_bytes d,
                     pe_expected_digest = drift_expected_digest d, pe_name = assertion_name a,
                     pe_observed = drift_reason d, pe_observed_bytes = drift_observed_bytes d,
                     pe_observed_digest = drift_observed_digest d, pe_projection = assertion_projection a,
                     pe_source = assertion_source a, pe_sources = source_multiplicities (carrier_digests oc)\<rparr>)
                 1 (projection_span oc, projection_display oc) prof)
               (\<lambda>f. Inr (Some f)))"

section \<open>Documents\<close>

datatype document_side =
    Doc_Scanned (mdx_regions: u64) (html_regions: u64) (extracted_references: u64)
  | Doc_Unsupported
  | Doc_ExcludedBuiltIn

record document_input =
  input_path :: rpath
  input_base :: "document_side option"
  input_candidate :: "document_side option"

record site_navigation =
  navigation_root :: "rpath option"
  navigation_manifest :: rpath
  entrypoints :: "bytes list"
  reachable :: "rpath list"

record site_defect =
  defect_id :: digest
  defect_evidence :: finding_fact_evidence
  defect_source :: "rpath option"
  defect_member_count :: u64

record site_evaluation =
  site_navigation :: "site_navigation option"
  site_defects :: "site_defect list"

definition navigation_contains :: "rpath option \<Rightarrow> rpath \<Rightarrow> bool" where
  "navigation_contains site_root path =
     (case site_root of
        None \<Rightarrow> True
      | Some r \<Rightarrow> (case strip_prefix r path of
          None \<Rightarrow> False | Some rest \<Rightarrow> rest \<noteq> [] \<and> hd rest = CHR ''/''))"

definition unlinked :: "site_navigation option \<Rightarrow> rpath \<Rightarrow> bool" where
  "unlinked nav path =
     (case nav of
        None \<Rightarrow> False
      | Some n \<Rightarrow> navigation_contains (navigation_root n) path \<and> path \<noteq> navigation_manifest n
          \<and> binary_search (reachable n) path = None)"

definition document_finding ::
  "externals \<Rightarrow> finding_kind \<Rightarrow> rpath \<Rightarrow> location_side \<Rightarrow> profile \<Rightarrow> (error, finding) result" where
  "document_finding ext kind path at_side prof =
     simple ext kind (Key_Document path) NotApplicable [] (path_location at_side (Some path)) prof"

definition document_findings ::
  "externals \<Rightarrow> document_input \<Rightarrow> profile \<Rightarrow> site_navigation option \<Rightarrow> finding list
   \<Rightarrow> (error, finding list) result" where
  "document_findings ext doc prof nav findings =
     (let path = input_path doc;
          push = (\<lambda>kind at_side out. rbind (document_finding ext kind path at_side prof) (\<lambda>f. Inr (out @ [f])));
          push_if = (\<lambda>holds kind out. if holds then push kind Side_Candidate out else Inr out)
      in if input_base doc \<noteq> None \<and> input_candidate doc = None then push DocumentRemoved Side_Base findings
         else case input_candidate doc of
           None \<Rightarrow> Inr findings
         | Some Doc_ExcludedBuiltIn \<Rightarrow> Inr findings
         | Some Doc_Unsupported \<Rightarrow> push UnsupportedDocumentFormat Side_Candidate findings
         | Some (Doc_Scanned mdx html _) \<Rightarrow>
             rbind (push_if (0 < mdx) OpaqueMdxRegion findings) (\<lambda>out.
             rbind (push_if (0 < html) OpaqueHtmlRegion out)
               (push_if (unlinked nav path) UnlinkedDocument)))"

end
