(* ===== verification/Scan_Structural.thy ===== *)
theory Scan_Structural
  imports Scan_Findings
begin

text \<open>
  Reference findings, \<open>crates/amiss-scan/src/evaluate.rs\<close> and \<open>evaluate/references.rs\<close>: the
  failures of both sides are grouped by finding key, each group becomes one finding, and its
  attribution says on which side the failure was seen. No failing candidate reference is
  lost or counted twice.
\<close>

section \<open>Kinds of a resolution\<close>

record kinds_of_resolution =
  kinds_structural :: "finding_kind option"
  kinds_boundary :: "finding_kind option"

primrec resolution_kinds :: "rpath resolution \<Rightarrow> kinds_of_resolution" where
  "resolution_kinds (Res_Missing m) =
     \<lparr>kinds_structural = Some ExplicitTargetMissing, kinds_boundary = None\<rparr>"
| "resolution_kinds (Res_TypeMismatch t) =
     \<lparr>kinds_structural = Some ExplicitTargetTypeMismatch, kinds_boundary = None\<rparr>"
| "resolution_kinds (Res_Invalid i) =
     \<lparr>kinds_structural = None, kinds_boundary = Some Kind_InvalidReference\<rparr>"
| "resolution_kinds (Res_UnsupportedSemantics s) =
     \<lparr>kinds_structural = None, kinds_boundary = Some UnsupportedReferenceSemantics\<rparr>"
| "resolution_kinds (Res_UnsupportedVersion v) =
     \<lparr>kinds_structural = None, kinds_boundary = Some UnsupportedVersionScope\<rparr>"
| "resolution_kinds (Res_UnsupportedTarget t) =
     \<lparr>kinds_structural = None, kinds_boundary = Some UnsupportedTargetKind\<rparr>"
| "resolution_kinds (Res_DeclaredUntracked d) =
     \<lparr>kinds_structural = None, kinds_boundary = Some TargetDeclaredUntracked\<rparr>"
| "resolution_kinds (Res_Resolved t) = \<lparr>kinds_structural = None, kinds_boundary = None\<rparr>"
| "resolution_kinds (Res_External e) = \<lparr>kinds_structural = None, kinds_boundary = None\<rparr>"

abbreviation structural_kind :: "observation \<Rightarrow> finding_kind option" where
  "structural_kind obs \<equiv> kinds_structural (resolution_kinds (obs_resolution obs))"

section \<open>Groups\<close>

record key_group =
  group_key :: finding_key_input
  group_base :: "observation list"
  group_candidate :: "observation list"

type_synonym key_groups = "(digest, key_group) btree"

definition reference_key_input :: "externals \<Rightarrow> finding_kind \<Rightarrow> observation \<Rightarrow> finding_key_input" where
  "reference_key_input ext kind obs =
     (let i = obs_intent obs
      in \<lparr>finding_kind = kind, finding_scope = Key_Reference
           \<lparr>ref_document = document obs, ref_commit_oid = commit_oid i,
            ref_fragment_digest = map_option (sealed_digest (ext_sha ext) LINK_FRAGMENT_DOMAIN) (fragment i),
            ref_path = (case repository_path i of None \<Rightarrow> Intent_Empty | Some p \<Rightarrow> Intent_Path p),
            ref_query_digest = map_option (sealed_digest (ext_sha ext) LINK_QUERY_DOMAIN) (query i),
            ref_target_kind = (case target_kind i of None \<Rightarrow> Kind_Either | Some k \<Rightarrow> k),
            ref_projection_digest = projection_digest obs, ref_construct = construct obs\<rparr>\<rparr>)"

definition group_member :: "bool \<Rightarrow> observation \<Rightarrow> key_group \<Rightarrow> key_group" where
  "group_member is_base obs g =
     (if is_base then g\<lparr>group_base := group_base g @ [obs]\<rparr>
      else g\<lparr>group_candidate := group_candidate g @ [obs]\<rparr>)"

definition collect_structural ::
  "externals \<Rightarrow> observation \<Rightarrow> bool \<Rightarrow> key_groups \<Rightarrow> (error, digest option \<times> key_groups) result" where
  "collect_structural ext obs is_base groups =
     (case structural_kind obs of
        None \<Rightarrow> Inr (None, groups)
      | Some kind \<Rightarrow>
          let key = reference_key_input ext kind obs
          in rbind (ok_or Internal (document_digest (ext_sha ext) (ext_write_key ext) FINDING_KEY_DOMAIN key))
               (\<lambda>d. Inr (Some d, btree_alter d (\<lambda>old. group_member is_base obs
                  (case old of
                     None \<Rightarrow> \<lparr>group_key = key, group_base = [], group_candidate = []\<rparr>
                   | Some g \<Rightarrow> g)) groups)))"

definition collect_each :: "externals \<Rightarrow> bool \<Rightarrow> observation list \<Rightarrow> key_groups \<Rightarrow> (error, key_groups) result" where
  "collect_each ext is_base =
     rfold (\<lambda>obs groups. rbind (collect_structural ext obs is_base groups) (\<lambda>(_, groups). Inr groups))"

text \<open>The adoption-reproduction projection.\<close>

definition structural_facts :: "externals \<Rightarrow> observation list \<Rightarrow> (error, (digest, u64 \<times> digest) btree) result" where
  "structural_facts ext observations =
     rbind (collect_each ext False observations []) (rmap (\<lambda>(d, g).
       (case group_candidate g of
          [] \<Rightarrow> Inl Internal
        | first # _ \<Rightarrow>
            let multiplicity = u64_of_usize (length (group_candidate g))
            in rbind (reference_fact ext (group_key g) first multiplicity)
                 (\<lambda>ft. Inr (d, multiplicity, fact_digest ft)))))"

section \<open>Failures\<close>

datatype resolution_tag =
    Tag_Resolved | Tag_Missing | Tag_DeclaredUntracked | Tag_TypeMismatch | Tag_UnsupportedTarget
  | Tag_UnsupportedSemantics | Tag_UnsupportedVersion | Tag_Invalid | Tag_External

primrec resolution_tag_from :: "'p resolution \<Rightarrow> resolution_tag" where
  "resolution_tag_from (Res_Resolved t) = Tag_Resolved"
| "resolution_tag_from (Res_Missing m) = Tag_Missing"
| "resolution_tag_from (Res_DeclaredUntracked d) = Tag_DeclaredUntracked"
| "resolution_tag_from (Res_TypeMismatch t) = Tag_TypeMismatch"
| "resolution_tag_from (Res_UnsupportedTarget t) = Tag_UnsupportedTarget"
| "resolution_tag_from (Res_UnsupportedSemantics s) = Tag_UnsupportedSemantics"
| "resolution_tag_from (Res_UnsupportedVersion v) = Tag_UnsupportedVersion"
| "resolution_tag_from (Res_Invalid i) = Tag_Invalid"
| "resolution_tag_from (Res_External e) = Tag_External"

datatype missing_tag =
    Tag_PathNotFound | Tag_LineFragmentOutOfRange | Tag_HeadingAnchorNotFound | Tag_LabelNotDeclared
  | Tag_SelectionNotFound

primrec missing_tag_from :: "'p missing \<Rightarrow> missing_tag" where
  "missing_tag_from (PathNotFound p n s) = Tag_PathNotFound"
| "missing_tag_from (LineFragmentOutOfRange p) = Tag_LineFragmentOutOfRange"
| "missing_tag_from (HeadingAnchorNotFound p n) = Tag_HeadingAnchorNotFound"
| "missing_tag_from LabelNotDeclared = Tag_LabelNotDeclared"
| "missing_tag_from (SelectionNotFound p) = Tag_SelectionNotFound"

datatype target_tag = Tag_Tree | Tag_Blob

primrec target_tag_from :: "'p target \<Rightarrow> target_tag" where
  "target_tag_from (Target_Tree p) = Tag_Tree"
| "target_tag_from (Target_Blob b) = Tag_Blob"

definition failure_shape :: "'p resolution \<Rightarrow> resolution_tag \<times> missing_tag option \<times> target_tag option" where
  "failure_shape r =
     (resolution_tag_from r,
      (case r of Res_Missing m \<Rightarrow> Some (missing_tag_from m) | _ \<Rightarrow> None),
      (case r of Res_TypeMismatch t \<Rightarrow> Some (target_tag_from t) | _ \<Rightarrow> None))"

definition same_failure :: "observation list \<Rightarrow> observation list \<Rightarrow> bool" where
  "same_failure bs cs =
     (length bs = length cs
      \<and> (case (bs, cs) of
           (l # _, r # _) \<Rightarrow> failure_shape (obs_resolution l) = failure_shape (obs_resolution r)
         | _ \<Rightarrow> False))"

text \<open>\<open>Iterator::min_by_key\<close>: the first of the least elements.\<close>

fun min_by_key :: "('a \<Rightarrow> 'k::linorder) \<Rightarrow> 'a list \<Rightarrow> 'a option" where
  "min_by_key f [] = None"
| "min_by_key f (x # xs) = Some (fold (\<lambda>y m. if f y < f m then y else m) xs x)"

definition reported_members :: "key_group \<Rightarrow> digest list \<times> u64 \<times> location" where
  "reported_members g =
     (let (ms, at_side) = (if group_candidate g = [] then (group_base g, Side_Base)
            else (group_candidate g, Side_Candidate))
      in (sort (map obs_id ms), u64_of_usize (length ms),
          (case min_by_key (\<lambda>obs. (document obs, span obs, obs_id obs)) ms of
             None \<Rightarrow> path_location at_side None
           | Some obs \<Rightarrow> observation_location obs at_side)))"

section \<open>Structural findings\<close>

definition continued_group :: "digest option \<Rightarrow> finding_kind option \<Rightarrow> key_groups \<Rightarrow> (digest \<times> key_group) option" where
  "continued_group continued kind groups =
     (case continued of
        None \<Rightarrow> None
      | Some d \<Rightarrow> (case map_of groups d of
          None \<Rightarrow> None
        | Some g \<Rightarrow> if Some (finding_kind (group_key g)) = kind then Some (d, g) else None))"

definition collect_base ::
  "externals \<Rightarrow> digest option \<Rightarrow> observation \<Rightarrow> key_groups \<Rightarrow> (error, key_groups) result" where
  "collect_base ext continued obs groups =
     (case continued_group continued (structural_kind obs) groups of
        Some (d, g) \<Rightarrow> Inr (btree_insert d (g\<lparr>group_base := group_base g @ [obs]\<rparr>) groups)
      | None \<Rightarrow> collect_each ext True [obs] groups)"

definition collect_comparison :: "externals \<Rightarrow> comparison \<Rightarrow> key_groups \<Rightarrow> (error, key_groups) result" where
  "collect_comparison ext cmp groups =
     rbind (case candidate cmp of None \<Rightarrow> Inr (None, groups) | Some obs \<Rightarrow> collect_structural ext obs False groups)
       (\<lambda>(found, groups).
         let continued = (if outcome cmp \<in> {Exact, Candidate} then found else None)
         in rbind (collect_each ext False (alternatives_candidate cmp) groups) (\<lambda>groups.
            rbind (case base cmp of None \<Rightarrow> Inr groups | Some obs \<Rightarrow> collect_base ext continued obs groups)
              (collect_each ext True (alternatives_base cmp))))"

definition side_fact :: "externals \<Rightarrow> finding_key_input \<Rightarrow> observation list \<Rightarrow> (error, finding_fact option) result" where
  "side_fact ext key ms =
     (case ms of
        [] \<Rightarrow> Inr None
      | first # _ \<Rightarrow> rbind (reference_fact ext key first (u64_of_usize (length ms))) (\<lambda>ft. Inr (Some ft)))"

definition group_attribution :: "key_group \<Rightarrow> finding_fact option \<Rightarrow> finding_fact option \<Rightarrow> attribution" where
  "group_attribution g bf cf =
     (case (bf, cf) of
        (None, Some _) \<Rightarrow> Introduced
      | (Some _, None) \<Rightarrow> Resolved
      | (Some _, Some _) \<Rightarrow> if same_failure (group_base g) (group_candidate g) then PreExisting else Unknown
      | (None, None) \<Rightarrow> NotApplicable)"

definition resolved_step :: policy_step where
  "resolved_step = \<lparr>step_after = Record, step_before = Record, step_rule_id = ''resolved-projection'',
     step_source = ResolvedProjection\<rparr>"

definition group_finding :: "externals \<Rightarrow> profile \<Rightarrow> digest \<times> key_group \<Rightarrow> (error, finding option) result" where
  "group_finding ext prof entry =
     (let (d, g) = entry;
          kind = finding_kind (group_key g)
      in rbind (side_fact ext (group_key g) (group_base g)) (\<lambda>bf.
         rbind (side_fact ext (group_key g) (group_candidate g)) (\<lambda>cf.
           let attr = group_attribution g bf cf;
               (ids, amount, loc) = reported_members g;
               configured = (if attr = Resolved then Record else built_in_disposition kind prof)
           in if attr = NotApplicable then Inr None
              else Inr (Some
                \<lparr>key_input = group_key g, finding_key = d, finding_attribution = attr, base_fact = bf,
                 candidate_fact = cf, member_count = amount, observation_ids = ids, finding_location = loc,
                 configured_disposition = configured, effective_disposition = configured,
                 finding_steps = (if attr = Resolved then [resolved_step] else [built_in_step kind prof]),
                 finding_debt = None, finding_waiver = None,
                 finding_edit = missing_fix (ext_decode ext) (group_candidate g)\<rparr>))))"

text \<open>\<open>Iterator::flatten\<close> over options.\<close>

fun flatten :: "'a option list \<Rightarrow> 'a list" where
  "flatten [] = []"
| "flatten (None # xs) = flatten xs"
| "flatten (Some x # xs) = x # flatten xs"

definition structural_groups :: "externals \<Rightarrow> comparison list \<Rightarrow> (error, key_groups) result" where
  "structural_groups ext comparisons = rfold (collect_comparison ext) comparisons []"

definition structural_findings ::
  "externals \<Rightarrow> comparison list \<Rightarrow> profile \<Rightarrow> finding list \<Rightarrow> (error, finding list) result" where
  "structural_findings ext comparisons prof findings =
     rbind (structural_groups ext comparisons) (\<lambda>groups.
       rbind (rmap (group_finding ext prof) groups) (\<lambda>built.
         Inr (findings @ flatten built)))"

section \<open>Comparison findings\<close>

definition comparison_kind :: "comparison \<Rightarrow> finding_kind option" where
  "comparison_kind cmp =
     (if outcome cmp = Outcome_None \<and> candidate cmp = None then Some ExplicitReferenceRemoved
      else if outcome cmp = Ambiguous then Some ObservationCorrelationAmbiguous
      else case impact cmp of
        Impact_DependencyChangedSubjectUnchanged \<Rightarrow> Some DependencyChangedSubjectUnchanged
      | Impact_DependencyAndSubjectCochanged \<Rightarrow> Some DependencyAndSubjectCochanged
      | Impact_SubjectChanged \<Rightarrow> Some SubjectChanged
      | _ \<Rightarrow> None)"

definition comparison_findings ::
  "externals \<Rightarrow> comparison \<Rightarrow> profile \<Rightarrow> finding list \<Rightarrow> (error, finding list) result" where
  "comparison_findings ext cmp prof findings =
     (case (case candidate cmp of
              Some obs \<Rightarrow> Some (obs, Side_Candidate)
            | None \<Rightarrow> map_option (\<lambda>obs. (obs, Side_Base)) (base cmp)) of
        None \<Rightarrow> Inr findings
      | Some (primary, at_side) \<Rightarrow>
          (case comparison_kind cmp of
             None \<Rightarrow> Inr findings
           | Some kind \<Rightarrow>
               rbind (simple ext kind (Key_Observation (obs_id primary)) NotApplicable [obs_id primary]
                   (observation_location primary at_side) prof)
                 (\<lambda>f. Inr (findings @ [f]))))"

section \<open>No failing reference is lost\<close>

text \<open>The observations the groups hold on one side, with their multiplicities.\<close>

definition held :: "(key_group \<Rightarrow> observation list) \<Rightarrow> key_groups \<Rightarrow> observation multiset" where
  "held get groups = (\<Sum>(d, g) \<leftarrow> groups. mset (get g))"

lemma held_simps [simp]: "held get [] = {#}" "held get ((d, g) # groups) = mset (get g) + held get groups"
  by (simp_all add: held_def)

lemma held_alter:
  assumes "\<And>old. mset (get (h old)) = (case old of None \<Rightarrow> {#} | Some g \<Rightarrow> mset (get g)) + added"
  shows "held get (btree_alter d h groups) = held get groups + added"
proof (induction groups)
  case Nil
  then show ?case using assms [of None] by simp
next
  case (Cons row groups)
  obtain a v where "row = (a, v)" by force
  then show ?case using Cons assms [of None] assms [of "Some v"] by (simp add: ac_simps)
qed

lemma held_insert:
  "btree_ok groups \<Longrightarrow> map_of groups d = Some g \<Longrightarrow> mset (get g') = mset (get g) + added
    \<Longrightarrow> held get (btree_insert d g' groups) = held get groups + added"
proof (induction groups)
  case (Cons row groups)
  obtain a v where row: "row = (a, v)" by force
  have below: "a < d" if "a \<noteq> d"
    using Cons.prems that row by (force dest: map_of_SomeD)
  show ?case
    using Cons below row by (cases "a = d") (auto simp: btree_insert_def ac_simps)
qed simp

lemma collect_structural_held:
  assumes "collect_structural ext obs is_base groups = Inr (found, groups')"
  shows "held group_candidate groups' = held group_candidate groups
      + (if \<not> is_base \<and> structural_kind obs \<noteq> None then {#obs#} else {#})"
    and "btree_ok groups \<Longrightarrow> btree_ok groups'"
proof -
  have "held group_candidate groups' = held group_candidate groups
      + (if \<not> is_base \<and> structural_kind obs \<noteq> None then {#obs#} else {#})
    \<and> (btree_ok groups \<longrightarrow> btree_ok groups')"
  proof (cases "structural_kind obs")
    case None
    with assms show ?thesis by (simp add: collect_structural_def)
  next
    case (Some kind)
    let ?h = "\<lambda>old. group_member is_base obs (case old of
        None \<Rightarrow> \<lparr>group_key = reference_key_input ext kind obs, group_base = [], group_candidate = []\<rparr> | Some g \<Rightarrow> g)"
    from assms Some obtain d where "groups' = btree_alter d ?h groups"
      by (auto simp: collect_structural_def rbind_Inr_iff Let_def)
    moreover have "held group_candidate (btree_alter d ?h groups)
        = held group_candidate groups + (if is_base then {#} else {#obs#})"
      by (rule held_alter) (simp add: group_member_def split: option.splits)
    ultimately show ?thesis using Some by (simp add: btree_ok_alter)
  qed
  then show "held group_candidate groups' = held group_candidate groups
      + (if \<not> is_base \<and> structural_kind obs \<noteq> None then {#obs#} else {#})"
    and "btree_ok groups \<Longrightarrow> btree_ok groups'" by blast+
qed

definition failing :: "observation list \<Rightarrow> observation multiset" where
  "failing obs = mset (filter (\<lambda>x. structural_kind x \<noteq> None) obs)"

lemma failing_simps [simp]:
  "failing [] = {#}"
  "failing (x # xs) = (if structural_kind x \<noteq> None then {#x#} else {#}) + failing xs"
  "failing (xs @ ys) = failing xs + failing ys"
  by (simp_all add: failing_def)

lemma collect_each_held:
  "collect_each ext is_base obs groups = Inr groups' \<Longrightarrow>
     held group_candidate groups' = held group_candidate groups + (if is_base then {#} else failing obs)
     \<and> (btree_ok groups \<longrightarrow> btree_ok groups')"
proof (induction obs arbitrary: groups)
  case (Cons x xs)
  then obtain found next_groups where step: "collect_structural ext x is_base groups = Inr (found, next_groups)"
    and rest: "collect_each ext is_base xs next_groups = Inr groups'"
    by (auto simp: collect_each_def rbind_Inr_iff split: prod.splits)
  show ?case
    using collect_structural_held [OF step] Cons.IH [OF rest] by (auto simp: ac_simps)
qed (simp add: collect_each_def)

lemma collect_base_held:
  assumes "collect_base ext continued obs groups = Inr groups'" and "btree_ok groups"
  shows "held group_candidate groups' = held group_candidate groups \<and> btree_ok groups'"
proof (cases "continued_group continued (structural_kind obs) groups")
  case None
  with assms collect_each_held show ?thesis by (fastforce simp: collect_base_def)
next
  case (Some row)
  then obtain d g where row: "row = (d, g)" "map_of groups d = Some g"
    by (auto simp: continued_group_def split: option.splits if_splits)
  have "held group_candidate (btree_insert d (g\<lparr>group_base := group_base g @ [obs]\<rparr>) groups)
      = held group_candidate groups + {#}"
    by (rule held_insert [OF assms(2) row(2)]) simp
  with assms Some row show ?thesis by (auto simp: collect_base_def)
qed

lemma collect_comparison_held:
  assumes "collect_comparison ext cmp groups = Inr groups'" and "btree_ok groups"
  shows "held group_candidate groups' = held group_candidate groups + failing (candidate_occurrences cmp)
    \<and> btree_ok groups'"
proof -
  from assms(1) obtain found g1 g2 g3 where
    first: "(case candidate cmp of None \<Rightarrow> Inr (None, groups)
        | Some obs \<Rightarrow> collect_structural ext obs False groups) = Inr (found, g1)"
    and second: "collect_each ext False (alternatives_candidate cmp) g1 = Inr g2"
    and third: "(case base cmp of None \<Rightarrow> Inr g2
        | Some obs \<Rightarrow> collect_base ext (if outcome cmp \<in> {Exact, Candidate} then found else None) obs g2) = Inr g3"
    and fourth: "collect_each ext True (alternatives_base cmp) g3 = Inr groups'"
    unfolding collect_comparison_def Let_def by (auto simp: rbind_Inr_iff split: prod.splits)
  have one: "held group_candidate g1 = held group_candidate groups
      + failing (case candidate cmp of None \<Rightarrow> [] | Some obs \<Rightarrow> [obs]) \<and> btree_ok g1"
    using first assms(2) collect_structural_held by (fastforce split: option.splits)
  note two = collect_each_held [OF second]
  have three: "held group_candidate g3 = held group_candidate g2 \<and> btree_ok g3"
    using third one two collect_base_held by (fastforce split: option.splits)
  show ?thesis
    using one two three collect_each_held [OF fourth] by (simp add: candidate_occurrences_def ac_simps)
qed

lemma structural_groups_held:
  assumes "structural_groups ext comparisons = Inr groups"
  shows "held group_candidate groups = failing (concat (map candidate_occurrences comparisons)) \<and> btree_ok groups"
proof -
  have "held group_candidate groups' = held group_candidate groups + failing (concat (map candidate_occurrences cs))
      \<and> btree_ok groups'" if "rfold (collect_comparison ext) cs groups = Inr groups'" "btree_ok groups"
    for cs and groups groups' :: key_groups
    using that
  proof (induction cs arbitrary: groups)
    case (Cons c cs)
    from Cons.prems(1) obtain mid where step: "collect_comparison ext c groups = Inr mid"
      and rest: "rfold (collect_comparison ext) cs mid = Inr groups'" by (auto simp: rbind_Inr_iff)
    note here = collect_comparison_held [OF step Cons.prems(2)]
    then show ?case using Cons.IH [OF rest] by (simp add: ac_simps)
  qed simp
  from this [of comparisons "[]" groups] assms show ?thesis by (simp add: structural_groups_def)
qed

lemma side_fact_None: "side_fact ext key ms = Inr ft \<Longrightarrow> ft = None \<longleftrightarrow> ms = []"
  by (auto simp: side_fact_def rbind_Inr_iff split: list.splits)

text \<open>The ids a finding reports from the candidate side.\<close>

definition candidate_ids :: "finding \<Rightarrow> digest list" where
  "candidate_ids f = (if candidate_fact f = None then [] else observation_ids f)"

lemma group_finding_ids:
  assumes "group_finding ext prof (d, g) = Inr built"
  shows "mset (case built of None \<Rightarrow> [] | Some f \<Rightarrow> candidate_ids f) = mset (map obs_id (group_candidate g))"
    and "built = Some f \<Longrightarrow> finding_key f = d \<and> (finding_attribution f = Resolved \<longleftrightarrow> candidate_fact f = None)"
proof -
  from assms obtain bf cf where facts: "side_fact ext (group_key g) (group_base g) = Inr bf"
      "side_fact ext (group_key g) (group_candidate g) = Inr cf"
    unfolding group_finding_def Let_def by (auto simp: rbind_Inr_iff)
  note None = side_fact_None [OF facts(2)]
  show "mset (case built of None \<Rightarrow> [] | Some f \<Rightarrow> candidate_ids f) = mset (map obs_id (group_candidate g))"
    and "built = Some f \<Longrightarrow> finding_key f = d \<and> (finding_attribution f = Resolved \<longleftrightarrow> candidate_fact f = None)"
    using assms facts None
    by (auto simp: group_finding_def Let_def reported_members_def group_attribution_def candidate_ids_def
        split: option.splits if_splits prod.splits)
qed

lemma group_findings_ids:
  "rmap (group_finding ext prof) groups = Inr built \<Longrightarrow>
     mset (concat (map candidate_ids (flatten built))) = image_mset obs_id (held group_candidate groups)
     \<and> (\<forall>f \<in> set (flatten built). finding_key f \<in> fst ` set groups
          \<and> (finding_attribution f = Resolved \<longleftrightarrow> candidate_fact f = None))
     \<and> (btree_ok groups \<longrightarrow> sorted_wrt (<) (map finding_key (flatten built)))"
proof (induction groups arbitrary: built)
  case (Cons row groups)
  obtain d g where row: "row = (d, g)" by force
  from Cons.prems obtain b bs where b: "group_finding ext prof (d, g) = Inr b"
    and bs: "rmap (group_finding ext prof) groups = Inr bs" and built: "built = b # bs"
    by (auto simp: row rbind_Inr_iff)
  note here = group_finding_ids [OF b] and rest = Cons.IH [OF bs]
  show ?case
  proof (cases b)
    case None
    then show ?thesis using here(1) rest by (auto simp: built row)
  next
    case (Some f)
    have f: "finding_key f = d" "finding_attribution f = Resolved \<longleftrightarrow> candidate_fact f = None"
      using here(2) [OF Some] by blast+
    have "\<forall>h \<in> set (flatten bs). d < finding_key h" if "btree_ok (row # groups)"
    proof
      fix h
      assume "h \<in> set (flatten bs)"
      with rest have "finding_key h \<in> fst ` set groups" by blast
      with that row show "d < finding_key h" by auto
    qed
    with f show ?thesis using here(1) rest Some by (simp add: built row)
  qed
qed simp

text \<open>Construction fails in one way only: a key or a fact that cannot be written.\<close>

definition fails_internal :: "(error, 'a) result \<Rightarrow> bool" where
  "fails_internal r \<longleftrightarrow> (case r of Inl e \<Rightarrow> e = Internal | Inr _ \<Rightarrow> True)"

named_theorems internal_intros

lemma fails_internal_basic [internal_intros]:
  "fails_internal (Inr x)" "fails_internal (Inl Internal)" "fails_internal (ok_or Internal opt)"
  by (simp_all add: fails_internal_def ok_or_def split: option.split)

lemma fails_internal_rbind [internal_intros]:
  "fails_internal m \<Longrightarrow> (\<And>x. fails_internal (f x)) \<Longrightarrow> fails_internal (rbind m f)"
  by (cases m) (auto simp: fails_internal_def)

lemma fails_internal_rfold [internal_intros]:
  "(\<And>x s. fails_internal (f x s)) \<Longrightarrow> fails_internal (rfold f xs s)"
  by (induction xs arbitrary: s) (auto intro!: internal_intros)

lemma fails_internal_rmap [internal_intros]: "(\<And>x. fails_internal (f x)) \<Longrightarrow> fails_internal (rmap f xs)"
  by (induction xs) (auto intro!: internal_intros)

lemma fails_internal_fact [internal_intros]: "fails_internal (fact ext key evidence)"
  by (auto simp: fact_def Let_def intro!: internal_intros)

lemma fails_internal_collect [internal_intros]: "fails_internal (collect_structural ext obs is_base groups)"
  by (auto simp: collect_structural_def Let_def intro!: internal_intros split: option.split)

lemma fails_internal_each [internal_intros]: "fails_internal (collect_each ext is_base obs groups)"
  by (auto simp: collect_each_def intro!: internal_intros split: prod.split)

lemma fails_internal_comparison [internal_intros]: "fails_internal (collect_comparison ext cmp groups)"
  by (auto simp: collect_comparison_def collect_base_def Let_def intro!: internal_intros
      split: option.split prod.split)

lemma fails_internal_group [internal_intros]: "fails_internal (group_finding ext prof row)"
  by (auto simp: group_finding_def side_fact_def reference_fact_def Let_def intro!: internal_intros
      split: list.split prod.split)

lemma fails_internal_structural [internal_intros]: "fails_internal (structural_findings ext comparisons prof findings)"
  by (auto simp: structural_findings_def structural_groups_def intro!: internal_intros)

lemma fails_internal_Inl: "fails_internal r \<Longrightarrow> r = Inl e \<Longrightarrow> e = Internal"
  by (simp add: fails_internal_def)

lemma structural_findings_conserve:
  "case structural_findings ext comparisons prof [] of
     Inl e \<Rightarrow> e = Internal
   | Inr fs \<Rightarrow>
       mset (concat (map candidate_ids fs)) =
         mset (map obs_id (filter (\<lambda>obs. structural_kind obs \<noteq> None) (concat (map candidate_occurrences comparisons))))
       \<and> sorted_wrt (<) (map finding_key fs)
       \<and> list_all (\<lambda>f. (finding_attribution f = Resolved) = (candidate_fact f = None)) fs"
proof (cases "structural_findings ext comparisons prof []")
  case (Inl e)
  then show ?thesis using fails_internal_Inl [OF fails_internal_structural] by simp
next
  case (Inr fs)
  then obtain groups built where groups: "structural_groups ext comparisons = Inr groups"
    and built: "rmap (group_finding ext prof) groups = Inr built" and fs: "fs = flatten built"
    by (auto simp: structural_findings_def rbind_Inr_iff)
  note held = structural_groups_held [OF groups] and ids = group_findings_ids [OF built]
  have "mset (concat (map candidate_ids fs)) = image_mset obs_id (failing (concat (map candidate_occurrences comparisons)))"
    using held ids by (simp add: fs)
  then show ?thesis using held ids by (simp add: Inr fs failing_def list_all_iff)
qed

end
