(* ===== verification/Scan_Evaluate.thy ===== *)
theory Scan_Evaluate
  imports Scan_Structural
begin

text \<open>
  The evaluation of one comparison, \<open>crates/amiss-scan/src/evaluate/run.rs\<close> with \<open>debt.rs\<close> and
  \<open>waiver.rs\<close>: the ordinary findings, the raises of the repository policy and of the floor,
  the ratchet, the exceptions, and the control findings. The trace of every finding is a
  chain from \<open>record\<close> to its effective disposition, and a disposition is lowered only by the
  ratchet or by an exception that is valid for that finding.
\<close>

section \<open>Ordinary findings\<close>

primrec is_invalid :: "'p resolution \<Rightarrow> bool" where
  "is_invalid (Res_Invalid r) = True"
| "is_invalid (Res_Resolved t) = False"
| "is_invalid (Res_Missing m) = False"
| "is_invalid (Res_DeclaredUntracked d) = False"
| "is_invalid (Res_TypeMismatch t) = False"
| "is_invalid (Res_UnsupportedTarget t) = False"
| "is_invalid (Res_UnsupportedSemantics s) = False"
| "is_invalid (Res_UnsupportedVersion v) = False"
| "is_invalid (Res_External e) = False"

definition invalid_row :: "comparison \<Rightarrow> observation \<Rightarrow> attribution" where
  "invalid_row cmp obs =
     (if outcome cmp = Ambiguous then Unknown
      else case base cmp of
        None \<Rightarrow> Introduced
      | Some b \<Rightarrow>
          if is_invalid (obs_resolution b) \<and> raw_destination_digest b = raw_destination_digest obs
          then PreExisting else Introduced)"

definition invalid_step :: "comparison \<Rightarrow> (digest, attribution) btree \<Rightarrow> (digest, attribution) btree" where
  "invalid_step cmp rows =
     (let rows = (case candidate cmp of
            None \<Rightarrow> rows
          | Some obs \<Rightarrow> if is_invalid (obs_resolution obs)
              then btree_insert (obs_id obs) (invalid_row cmp obs) rows else rows)
      in fold (\<lambda>obs rows. if is_invalid (obs_resolution obs) then btree_insert (obs_id obs) Unknown rows else rows)
           (alternatives_candidate cmp) rows)"

definition invalid_attributions :: "comparison list \<Rightarrow> (digest, attribution) btree" where
  "invalid_attributions comparisons = fold invalid_step comparisons []"

definition boundary_kinds :: "observation \<Rightarrow> finding_kind list" where
  "boundary_kinds obs =
     (case kinds_boundary (resolution_kinds (obs_resolution obs)) of None \<Rightarrow> [] | Some kind \<Rightarrow> [kind])
     @ (if resolution_is_lfs_pointer (obs_resolution obs) then [UnsupportedTargetKind] else [])"

type_synonym folded_rows = "(finding_kind \<times> rpath, observation list) btree"

definition boundary_attribution :: "(digest, attribution) btree \<Rightarrow> observation \<Rightarrow> attribution" where
  "boundary_attribution invalid obs =
     (if is_invalid (obs_resolution obs)
      then (case map_of invalid (obs_id obs) of None \<Rightarrow> Unknown | Some attr \<Rightarrow> attr)
      else NotApplicable)"

definition boundary_step ::
  "externals \<Rightarrow> profile \<Rightarrow> (digest, attribution) btree \<Rightarrow> observation \<Rightarrow> finding list \<times> folded_rows
   \<Rightarrow> (error, finding list \<times> folded_rows) result" where
  "boundary_step ext prof invalid obs =
     rfold (\<lambda>kind (findings, folded).
         if md_scope (kind_metadata kind) = Scope_Document
         then Inr (findings, btree_push (kind, document obs) obs folded)
         else rbind (simple ext kind (Key_Observation (obs_id obs)) (boundary_attribution invalid obs) [obs_id obs]
                (observation_location obs Side_Candidate) prof)
              (\<lambda>f. Inr (findings @ [f], folded)))
       (boundary_kinds obs)"

definition folded_finding ::
  "externals \<Rightarrow> profile \<Rightarrow> (finding_kind \<times> rpath) \<times> observation list \<Rightarrow> (error, finding) result" where
  "folded_finding ext prof row =
     (let ((kind, doc), ms) = row
      in rbind (ok_or Internal (min_by_key (\<lambda>obs. (span obs, obs_id obs)) ms)) (\<lambda>representative.
         rbind (simple ext kind (Key_Document doc) NotApplicable (sort (map obs_id ms))
             (observation_location representative Side_Candidate) prof)
           (\<lambda>f. Inr (f\<lparr>member_count := u64_of_usize (length ms)\<rparr>))))"

definition defect_finding :: "externals \<Rightarrow> profile \<Rightarrow> site_defect \<Rightarrow> (error, finding) result" where
  "defect_finding ext prof defect =
     candidate_fact_finding ext SiteBuildDefect (Key_Observation (defect_id defect)) (defect_evidence defect)
       (defect_member_count defect) (path_location Side_Candidate (defect_source defect)) prof"

definition ordinary ::
  "externals \<Rightarrow> document_input list \<Rightarrow> comparison list \<Rightarrow> profile \<Rightarrow> site_evaluation
   \<Rightarrow> (error, finding list) result" where
  "ordinary ext documents comparisons prof site =
     rbind (rfold (\<lambda>doc. document_findings ext doc prof (site_navigation site)) documents []) (\<lambda>docs.
     rbind (rmap (defect_finding ext prof) (site_defects site)) (\<lambda>defects.
     rbind (rfold (boundary_step ext prof (invalid_attributions comparisons))
         (concat (map candidate_occurrences comparisons)) (docs @ defects, [])) (\<lambda>(findings, folded).
     rbind (rmap (folded_finding ext prof) folded) (\<lambda>rows.
     rbind (structural_findings ext comparisons prof (findings @ rows)) (\<lambda>findings.
     rbind (rfold (\<lambda>cmp. comparison_findings ext cmp prof) comparisons findings) (\<lambda>findings.
       Inr (sort_key finding_key findings)))))))"

section \<open>Raises and the ratchet\<close>

definition current_disposition :: "finding \<Rightarrow> disposition" where
  "current_disposition f =
     (if finding_steps f = [] then configured_disposition f else step_after (last (finding_steps f)))"

definition push_step :: "finding \<Rightarrow> policy_step \<Rightarrow> finding" where
  "push_step f st = f\<lparr>finding_steps := finding_steps f @ [st]\<rparr>"

definition apply_raise ::
  "(finding_kind \<times> disposition) list \<Rightarrow> policy_source \<Rightarrow> bytes \<Rightarrow> finding \<Rightarrow> finding" where
  "apply_raise rows source rule f =
     (case find (\<lambda>(kind, _). kind = kind_of f) rows of
        None \<Rightarrow> f
      | Some (_, target) \<Rightarrow>
          if current_disposition f < target
          then push_step f \<lparr>step_after = target, step_before = current_disposition f,
                 step_rule_id = rule @ ''/'' @ finding_kind_str (kind_of f), step_source = source\<rparr>
          else f)"

definition raise_finding :: "effects \<Rightarrow> finding \<Rightarrow> finding" where
  "raise_finding policy f =
     (if finding_attribution f = Resolved \<or> candidate_fact f = None then f
      else
        let f = apply_raise (raised policy) RepositoryPolicy ''repository'' f;
            f = apply_raise (floor_raised policy) OrganizationFloor ''floor'' f
        in f\<lparr>configured_disposition := current_disposition f, effective_disposition := current_disposition f\<rparr>)"

definition ratchet :: "finding \<Rightarrow> finding" where
  "ratchet f =
     (if effective_disposition f = Fail \<and> finding_attribution f = PreExisting
      then (push_step f
             \<lparr>step_after = Warn, step_before = Fail,
              step_rule_id = ''scanner-policy-defaults/'' @ finding_kind_str (kind_of f) @ ''/enforce-introduced'',
              step_source = BuiltIn\<rparr>)\<lparr>effective_disposition := Warn\<rparr>
      else f)"

section \<open>Exceptions\<close>

definition exception_targets :: "finding list \<Rightarrow> (digest, nat) btree" where
  "exception_targets findings =
     fold (\<lambda>(index, f) targets. if candidate_fact f \<noteq> None then btree_or_insert (finding_key f) index targets else targets)
       (enumerate 0 findings) []"

definition current_fact :: "finding list \<Rightarrow> nat \<Rightarrow> digest option" where
  "current_fact findings target =
     (case get_at findings target of None \<Rightarrow> None | Some f \<Rightarrow> map_option fact_digest (candidate_fact f))"

definition debt_diagnostic :: "debt_item \<Rightarrow> debt_context \<Rightarrow> digest \<Rightarrow> exception_diagnostic" where
  "debt_diagnostic item ctx current = Diagnostic_Debt
     \<lparr>dd_accepted_fact_digest = accepted_fact_digest item, dd_adoption_tree = debt_adoption_tree ctx,
      dd_created_at = debt_created_at item, dd_current_fact_digest = current, dd_debt_id = debt_id item,
      dd_debt_snapshot_digest = debt_context_digest ctx, dd_expires_at = debt_expires_at item,
      dd_owner = debt_owner item, dd_reason = debt_reason item\<rparr>"

definition debt_step ::
  "externals \<Rightarrow> finding list \<Rightarrow> (digest, nat) btree \<Rightarrow> debt_context \<Rightarrow> profile \<Rightarrow> utc_instant
   \<Rightarrow> nat \<times> debt_item \<Rightarrow> (digest, nat) btree \<times> finding list \<Rightarrow> (error, (digest, nat) btree \<times> finding list) result" where
  "debt_step ext findings targets ctx prof instant row state =
     (let (index, item) = row;
          (valid, extra) = state
      in case map_of targets (debt_finding_key item) of
           None \<Rightarrow> Inr state
         | Some target \<Rightarrow>
             (case current_fact findings target of
                None \<Rightarrow> Inr state
              | Some current \<Rightarrow>
                  let expired = debt_expires_at item \<le> instant;
                      same = (current = accepted_fact_digest item);
                      defect = (\<lambda>holds kind ending out.
                        if holds
                        then rbind (control_row ext kind (''debt/'' @ artifact_str (debt_id item) @ ending) None
                               (None, Some (debt_context_digest ctx)) (Some (debt_diagnostic item ctx current)) prof)
                             (\<lambda>f. Inr (out @ [f]))
                        else Inr out)
                  in rbind (defect expired DebtExpired ''/expired'' extra) (\<lambda>extra.
                     rbind (defect (\<not> same) DebtWorsened ''/fact'' extra) (\<lambda>extra.
                       Inr (if \<not> expired \<and> same then btree_insert (debt_finding_key item) index valid else valid,
                            extra)))))"

definition debt_pass ::
  "externals \<Rightarrow> finding list \<Rightarrow> (digest, nat) btree \<Rightarrow> effects \<Rightarrow> profile \<Rightarrow> utc_instant \<Rightarrow> finding list
   \<Rightarrow> (error, (digest, nat) btree \<times> finding list) result" where
  "debt_pass ext findings targets policy prof instant extra =
     (case effects_debt policy of
        None \<Rightarrow> Inr ([], extra)
      | Some ctx \<Rightarrow>
          rfold (debt_step ext findings targets ctx prof instant)
            (enumerate 0 (debt_context_items ctx)) ([], extra))"

definition waiver_diagnostic :: "waiver_item \<Rightarrow> digest \<Rightarrow> digest option \<Rightarrow> exception_diagnostic" where
  "waiver_diagnostic item bundle current = Diagnostic_Waiver
     \<lparr>wd_authorized_fact_digest = authorized_fact_digest item, wd_candidate_tree = candidate_tree item,
      wd_created_at = waiver_created_at item, wd_current_fact_digest = current,
      wd_expires_at = waiver_expires_at item, wd_finding_key = waiver_finding_key item,
      wd_issuer = issuer item, wd_not_before = not_before item, wd_owner = waiver_owner item,
      wd_reason = waiver_reason item, wd_waiver_bundle_digest = bundle, wd_waiver_id = waiver_id item\<rparr>"

definition waiver_defects ::
  "finding list \<Rightarrow> waiver_context \<Rightarrow> utc_instant \<Rightarrow> waiver_item \<Rightarrow> nat option \<Rightarrow> bytes list" where
  "waiver_defects findings ctx instant item target =
     (if instant < not_before item then [''not-yet''] else [])
     @ (if waiver_expires_at item \<le> instant then [''expired''] else [])
     @ (if issuer item \<notin> set (authorized_issuers ctx) then [''issuer''] else [])
     @ (if fact_finding_kind (authorized_fact item) \<notin> set (waivable_kinds ctx) then [''kind''] else [])
     @ (if waiver_owner item = issuer item then [''same-owner''] else [])
     @ (case target of
          None \<Rightarrow> []
        | Some found \<Rightarrow>
            (case get_at findings found of
               None \<Rightarrow> []
             | Some f \<Rightarrow>
                 if finding_kind_str (kind_of f) \<noteq> eligible_str (fact_finding_kind (authorized_fact item))
                 then [''key''] else [])
            @ (if current_fact findings found \<noteq> Some (authorized_fact_digest item) then [''fact''] else []))"

definition waiver_step ::
  "externals \<Rightarrow> finding list \<Rightarrow> (digest, nat) btree \<Rightarrow> waiver_context \<Rightarrow> profile \<Rightarrow> utc_instant
   \<Rightarrow> nat \<times> waiver_item \<Rightarrow> (digest, nat) btree \<times> finding list \<Rightarrow> (error, (digest, nat) btree \<times> finding list) result" where
  "waiver_step ext findings targets ctx prof instant row state =
     (let (index, item) = row;
          (valid, extra) = state
      in if candidate_tree item \<noteq> context_candidate_tree ctx then Inr state
         else
           let target = map_of targets (waiver_finding_key item);
               current = (case target of None \<Rightarrow> None | Some found \<Rightarrow> current_fact findings found);
               defects = waiver_defects findings ctx instant item target
           in rbind (rfold (\<lambda>ending out.
                  rbind (control_row ext WaiverInvalid
                      (''waiver/'' @ artifact_str (waiver_id item) @ ''/'' @ ending) None
                      (None, Some (waiver_context_digest ctx))
                      (Some (waiver_diagnostic item (waiver_context_digest ctx) current)) prof)
                    (\<lambda>f. Inr (out @ [f]))) defects extra) (\<lambda>extra.
                Inr (if defects = [] \<and> target \<noteq> None then btree_insert (waiver_finding_key item) index valid
                     else valid, extra)))"

definition waiver_pass ::
  "externals \<Rightarrow> finding list \<Rightarrow> (digest, nat) btree \<Rightarrow> effects \<Rightarrow> profile \<Rightarrow> utc_instant \<Rightarrow> finding list
   \<Rightarrow> (error, (digest, nat) btree \<times> finding list) result" where
  "waiver_pass ext findings targets policy prof instant extra =
     (case effects_waiver policy of
        None \<Rightarrow> Inr ([], extra)
      | Some ctx \<Rightarrow>
          rfold (waiver_step ext findings targets ctx prof instant)
            (enumerate 0 (waiver_context_items ctx)) ([], extra))"

definition debt_applied :: "debt_context \<Rightarrow> debt_item \<Rightarrow> finding \<Rightarrow> finding" where
  "debt_applied ctx item f =
     (push_step f
        \<lparr>step_after = Warn, step_before = current_disposition f,
         step_rule_id = ''debt/'' @ artifact_str (debt_id item), step_source = DebtSnapshot\<rparr>)
       \<lparr>effective_disposition := Warn,
        finding_debt := Some
          \<lparr>da_debt_id = debt_id item, da_debt_snapshot_digest = debt_context_digest ctx,
           da_adoption_tree = debt_adoption_tree ctx, da_accepted_fact_digest = accepted_fact_digest item,
           da_owner = debt_owner item, da_reason = debt_reason item, da_created_at = debt_created_at item,
           da_expires_at = debt_expires_at item\<rparr>\<rparr>"

definition waiver_applied :: "waiver_context \<Rightarrow> waiver_item \<Rightarrow> finding \<Rightarrow> finding" where
  "waiver_applied ctx item f =
     (if current_disposition f = Fail
      then (push_step f
             \<lparr>step_after = Warn, step_before = Fail,
              step_rule_id = ''waiver/'' @ artifact_str (waiver_id item), step_source = WaiverBundle\<rparr>)
            \<lparr>effective_disposition := Warn,
             finding_waiver := Some
               \<lparr>wa_waiver_id = waiver_id item, wa_waiver_bundle_digest = waiver_context_digest ctx,
                wa_candidate_tree = candidate_tree item, wa_authorized_fact_digest = authorized_fact_digest item,
                wa_issuer = issuer item, wa_not_before = not_before item, wa_owner = waiver_owner item,
                wa_reason = waiver_reason item, wa_created_at = waiver_created_at item,
                wa_expires_at = waiver_expires_at item\<rparr>\<rparr>
      else f)"

text \<open>One round of the loop of \<open>apply_valid_exceptions\<close>: the finding, and whether both items matched.\<close>

definition apply_exception ::
  "effects \<Rightarrow> (digest, nat) btree \<Rightarrow> (digest, nat) btree \<Rightarrow> finding \<Rightarrow> finding \<times> bool" where
  "apply_exception policy debt_valid waiver_valid f =
     (case (map_of debt_valid (finding_key f), map_of waiver_valid (finding_key f)) of
        (Some _, Some _) \<Rightarrow> (f, True)
      | (Some index, None) \<Rightarrow>
          (case effects_debt policy of
             None \<Rightarrow> (f, False)
           | Some ctx \<Rightarrow> (case get_at (debt_context_items ctx) index of
               None \<Rightarrow> (f, False) | Some item \<Rightarrow> (debt_applied ctx item f, False)))
      | (None, Some index) \<Rightarrow>
          (case effects_waiver policy of
             None \<Rightarrow> (f, False)
           | Some ctx \<Rightarrow> (case get_at (waiver_context_items ctx) index of
               None \<Rightarrow> (f, False) | Some item \<Rightarrow> (waiver_applied ctx item f, False)))
      | (None, None) \<Rightarrow> (f, False))"

definition apply_valid_exceptions ::
  "effects \<Rightarrow> (digest, nat) btree \<Rightarrow> (digest, nat) btree \<Rightarrow> finding list \<Rightarrow> finding list \<times> bool" where
  "apply_valid_exceptions policy debt_valid waiver_valid findings =
     (map (\<lambda>f. fst (apply_exception policy debt_valid waiver_valid f)) findings,
      list_ex (\<lambda>f. snd (apply_exception policy debt_valid waiver_valid f)) findings)"

definition apply_exceptions ::
  "externals \<Rightarrow> effects \<Rightarrow> profile \<Rightarrow> finding list
   \<Rightarrow> (error, finding list \<times> finding list \<times> error_detail list) result" where
  "apply_exceptions ext policy prof findings =
     (if effects_debt policy = None \<and> effects_waiver policy = None then Inr (findings, [], [])
      else case effects_time policy of
        None \<Rightarrow> Inr (findings, [], [])
      | Some time \<Rightarrow>
          let instant = evaluation_instant (time_statement time);
              targets = exception_targets findings
          in rbind (debt_pass ext findings targets policy prof instant []) (\<lambda>(debt_valid, extra).
             rbind (waiver_pass ext findings targets policy prof instant extra) (\<lambda>(waiver_valid, extra).
               let (findings, overlap) = apply_valid_exceptions policy debt_valid waiver_valid findings
               in Inr (findings, extra, if overlap then [plain_detail Code_ExceptionOverlap] else []))))"

section \<open>The evaluation\<close>

record governed_inputs =
  inputs_site :: site_evaluation
  inputs_governed :: "governed_seed list"
  inputs_claims :: "claim_group list"
  inputs_projections :: "projection_outcome list"
  inputs_translations :: "(rpath \<times> location_side) list"

definition constructed ::
  "externals \<Rightarrow> document_input list \<Rightarrow> comparison list \<Rightarrow> profile \<Rightarrow> governed_inputs \<Rightarrow> (error, finding list) result" where
  "constructed ext documents comparisons prof inputs =
     rbind (ordinary ext documents comparisons prof (inputs_site inputs)) (\<lambda>plain.
     rbind (rmap (\<lambda>seed. governed_finding ext seed prof) (inputs_governed inputs)) (\<lambda>governed.
     rbind (rmap (\<lambda>g. claim_finding ext g prof) (inputs_claims inputs)) (\<lambda>claims.
     rbind (rmap (\<lambda>oc. projection_finding ext oc prof) (inputs_projections inputs)) (\<lambda>projections.
     rbind (rmap (\<lambda>(doc, at_side). document_finding ext TranslationDrift doc at_side prof) (inputs_translations inputs))
       (\<lambda>translations. Inr (plain @ governed @ claims @ flatten projections @ translations))))))"

definition evaluate_with_site ::
  "externals \<Rightarrow> document_input list \<Rightarrow> comparison list \<Rightarrow> profile \<Rightarrow> effects \<Rightarrow> governed_inputs
   \<Rightarrow> (error, finding list \<times> error_detail list) result" where
  "evaluate_with_site ext documents comparisons prof policy inputs =
     rbind (constructed ext documents comparisons prof inputs) (\<lambda>findings.
       let findings = map (raise_finding policy) findings;
           findings = (if prof = EnforceIntroduced then map ratchet findings else findings)
       in rbind (apply_exceptions ext policy prof findings) (\<lambda>(findings, extra, errors).
          rbind (rmap (\<lambda>seed. control_finding ext seed policy prof) (controls policy)) (\<lambda>rows.
            Inr (sort_key finding_key (findings @ extra @ rows), errors))))"

definition evaluate_with_policy ::
  "externals \<Rightarrow> document_input list \<Rightarrow> comparison list \<Rightarrow> profile \<Rightarrow> effects \<Rightarrow> governed_seed list \<Rightarrow> claim_group list
   \<Rightarrow> (error, finding list \<times> error_detail list) result" where
  "evaluate_with_policy ext documents comparisons prof policy governed claims =
     evaluate_with_site ext documents comparisons prof policy
       \<lparr>inputs_site = \<lparr>site_navigation = None, site_defects = []\<rparr>, inputs_governed = governed,
        inputs_claims = claims, inputs_projections = [], inputs_translations = []\<rparr>"

definition evaluate ::
  "externals \<Rightarrow> document_input list \<Rightarrow> comparison list \<Rightarrow> profile \<Rightarrow> (error, finding list) result" where
  "evaluate ext documents comparisons prof =
     rbind (evaluate_with_policy ext documents comparisons prof effects_default [] []) (\<lambda>(findings, _). Inr findings)"

end
