(* ===== verification/Scan_Trace.thy ===== *)
theory Scan_Trace
  imports Scan_Evaluate
begin

text \<open>
  The history of a finding: the invariant its construction establishes, for every
  constructor of \<open>crates/amiss-scan/src/evaluate/\<close>, and its preservation by the raises and the
  ratchet of \<open>run.rs\<close>.
\<close>

section \<open>Traces\<close>

text \<open>Each step starts where the one before it ended.\<close>

fun chained :: "disposition \<Rightarrow> policy_step list \<Rightarrow> bool" where
  "chained d [] = True"
| "chained d (st # sts) \<longleftrightarrow> step_before st = d \<and> chained (step_after st) sts"

lemma chained_snoc:
  "chained d (sts @ [st]) \<longleftrightarrow>
     chained d sts \<and> step_before st = (if sts = [] then d else step_after (last sts))"
  by (induction sts arbitrary: d) auto

text \<open>What one source of policy may do to a disposition.\<close>

definition step_allowed :: "profile \<Rightarrow> policy_step \<Rightarrow> bool" where
  "step_allowed prof st =
     (case step_source st of
        BuiltIn \<Rightarrow> step_before st = Record
          \<or> prof = EnforceIntroduced \<and> step_before st = Fail \<and> step_after st = Warn
      | RepositoryPolicy \<Rightarrow> step_before st < step_after st
      | OrganizationFloor \<Rightarrow> step_before st < step_after st
      | ResolvedProjection \<Rightarrow> step_before st = Record \<and> step_after st = Record
      | DebtSnapshot \<Rightarrow> step_after st = Warn
      | WaiverBundle \<Rightarrow> step_before st = Fail \<and> step_after st = Warn
      | UnsuppressibleClamp \<Rightarrow> False)"

definition trace_ok :: "profile \<Rightarrow> finding \<Rightarrow> bool" where
  "trace_ok prof f \<longleftrightarrow> finding_steps f \<noteq> [] \<and> chained Record (finding_steps f)
     \<and> list_all (step_allowed prof) (finding_steps f)
     \<and> effective_disposition f = step_after (last (finding_steps f))"

text \<open>A finding as the constructors leave it, before any policy applies.\<close>

definition built :: "profile \<Rightarrow> finding \<Rightarrow> bool" where
  "built prof f \<longleftrightarrow> trace_ok prof f \<and> finding_debt f = None \<and> finding_waiver f = None
     \<and> configured_disposition f = effective_disposition f
     \<and> (finding_attribution f = Resolved \<longrightarrow> candidate_fact f = None \<and> effective_disposition f = Record)"

text \<open>A finding that does not stand for a failing reference.\<close>

definition plain :: "profile \<Rightarrow> finding \<Rightarrow> bool" where
  "plain prof f \<longleftrightarrow> built prof f \<and> candidate_ids f = []"

lemma simple_fields:
  assumes "simple ext kind scope attr ids loc prof = Inr f"
  shows "key_input f = \<lparr>finding_kind = kind, finding_scope = scope\<rparr>" and "finding_attribution f = attr"
    and "candidate_fact f = None" and "observation_ids f = ids"
    and "attr \<noteq> Resolved \<Longrightarrow> plain prof f"
  using assms
  by (auto simp: simple_def Let_def rbind_Inr_iff plain_def built_def candidate_ids_def trace_ok_def built_in_step_def step_allowed_def)

lemma candidate_fact_finding_plain:
  assumes "candidate_fact_finding ext kind scope evidence amount loc prof = Inr f"
  shows "plain prof f" and "finding_attribution f = NotApplicable" and "candidate_fact f \<noteq> None"
proof -
  from assms obtain g ft where g: "simple ext kind scope NotApplicable [] loc prof = Inr g"
    and f: "f = g\<lparr>candidate_fact := Some ft, member_count := amount\<rparr>"
    by (auto simp: candidate_fact_finding_def rbind_Inr_iff)
  have "plain prof g" "finding_attribution g = NotApplicable" "observation_ids g = []"
    using simple_fields [OF g] by simp_all
  then show "plain prof f" "finding_attribution f = NotApplicable" "candidate_fact f \<noteq> None"
    by (simp_all add: f plain_def built_def candidate_ids_def trace_ok_def)
qed

lemma governed_finding_plain: "governed_finding ext seed prof = Inr f \<Longrightarrow> plain prof f"
  by (auto simp: governed_finding_def Let_def rbind_Inr_iff control_fact_finding_def
      dest!: candidate_fact_finding_plain(1))

lemma control_row_plain:
  assumes "control_row ext kind rule path digests exc prof = Inr f"
  shows "plain prof f" and "finding_attribution f = NotApplicable"
  using assms candidate_fact_finding_plain by (auto simp: control_row_def)

lemma claim_finding_plain: "claim_finding ext g prof = Inr f \<Longrightarrow> plain prof f"
  by (auto simp: claim_finding_def rbind_Inr_iff control_fact_finding_def plain_def built_def candidate_ids_def trace_ok_def
      dest!: candidate_fact_finding_plain(1))

lemma projection_finding_plain: "projection_finding ext oc prof = Inr (Some f) \<Longrightarrow> plain prof f"
  by (auto simp: projection_finding_def Let_def rbind_Inr_iff control_fact_finding_def
      dest!: candidate_fact_finding_plain(1) split: projection_verdict.splits)

lemma document_finding_plain: "document_finding ext kind path at_side prof = Inr f \<Longrightarrow> plain prof f"
  by (auto simp: document_finding_def dest: simple_fields(5))

lemma document_findings_plain:
  assumes "document_findings ext doc prof nav fs = Inr fs'" and "list_all (plain prof) fs"
  shows "list_all (plain prof) fs'"
  using assms
  by (auto simp: document_findings_def Let_def rbind_Inr_iff dest: document_finding_plain
      split: if_splits option.splits document_side.splits)

lemma group_finding_built:
  assumes "group_finding ext prof row = Inr (Some f)"
  shows "built prof f"
proof -
  obtain d g where row: "row = (d, g)" by force
  obtain ids amount loc where members: "reported_members g = (ids, amount, loc)" by (cases "reported_members g")
  show ?thesis
    using assms
    by (auto simp: row group_finding_def Let_def rbind_Inr_iff members built_def trace_ok_def built_in_step_def
        resolved_step_def step_allowed_def group_attribution_def split: if_splits option.splits)
qed

lemma set_flatten: "x \<in> set (flatten xs) \<longleftrightarrow> Some x \<in> set xs"
  by (induction xs rule: flatten.induct) auto

lemma rmap_mem: "rmap f xs = Inr ys \<Longrightarrow> y \<in> set ys \<Longrightarrow> \<exists>x \<in> set xs. f x = Inr y"
  by (induction xs arbitrary: ys) (auto simp: rbind_Inr_iff)

lemma rmap_all: "rmap f xs = Inr ys \<Longrightarrow> (\<And>x y. f x = Inr y \<Longrightarrow> P y) \<Longrightarrow> list_all P ys"
  by (auto simp: list_all_iff dest: rmap_mem)

lemma rmap_all_flatten:
  "rmap f xs = Inr ys \<Longrightarrow> (\<And>x y. f x = Inr (Some y) \<Longrightarrow> P y) \<Longrightarrow> list_all P (flatten ys)"
  by (auto simp: list_all_iff set_flatten dest: rmap_mem)

lemma structural_findings_built:
  "structural_findings ext cs prof [] = Inr fs \<Longrightarrow> list_all (built prof) fs"
  by (auto simp: structural_findings_def rbind_Inr_iff elim!: rmap_all_flatten intro: group_finding_built)

lemma structural_findings_append:
  "structural_findings ext cs prof fs = rbind (structural_findings ext cs prof []) (\<lambda>new. Inr (fs @ new))"
  by (cases "structural_groups ext cs"; cases "rmap (group_finding ext prof) (projr (structural_groups ext cs))")
    (auto simp: structural_findings_def)

lemma comparison_findings_plain:
  "comparison_findings ext cmp prof fs = Inr fs' \<Longrightarrow> \<exists>new. fs' = fs @ new \<and> list_all (plain prof) new"
  by (auto simp: comparison_findings_def rbind_Inr_iff dest: simple_fields(5)
      split: option.splits prod.splits)

definition unresolved :: "(digest, attribution) btree \<Rightarrow> bool" where
  "unresolved rows \<longleftrightarrow> Resolved \<notin> snd ` set rows"

lemma unresolved_insert: "unresolved rows \<Longrightarrow> attr \<noteq> Resolved \<Longrightarrow> unresolved (btree_insert k attr rows)"
  unfolding unresolved_def btree_insert_def by (induction k "\<lambda>_ :: attribution option. attr" rows rule: btree_alter.induct) auto

lemma unresolved_step: "unresolved rows \<Longrightarrow> unresolved (invalid_step cmp rows)"
proof -
  have alts: "unresolved (fold (\<lambda>obs rows. if is_invalid (obs_resolution obs)
      then btree_insert (obs_id obs) Unknown rows else rows) xs rows)" if "unresolved rows" for xs rows
    using that by (induction xs arbitrary: rows) (auto intro: unresolved_insert)
  have "invalid_row cmp obs \<noteq> Resolved" for obs
    by (auto simp: invalid_row_def split: option.splits)
  then show "unresolved rows \<Longrightarrow> unresolved (invalid_step cmp rows)"
    by (auto simp: invalid_step_def Let_def intro!: alts unresolved_insert split: option.splits)
qed

lemma boundary_attribution_unresolved:
  "boundary_attribution (invalid_attributions comparisons) obs \<noteq> Resolved"
proof -
  have "unresolved rows \<Longrightarrow> unresolved (fold invalid_step cs rows)" for cs rows
    by (induction cs arbitrary: rows) (auto intro: unresolved_step)
  from this [of "[]" comparisons] have none: "Resolved \<notin> snd ` set (invalid_attributions comparisons)"
    by (simp add: invalid_attributions_def unresolved_def)
  show ?thesis
  proof (cases "map_of (invalid_attributions comparisons) (obs_id obs)")
    case (Some attr)
    then have "attr \<in> snd ` set (invalid_attributions comparisons)" by (force dest: map_of_SomeD)
    with none have "attr \<noteq> Resolved" by blast
    with Some show ?thesis by (simp add: boundary_attribution_def)
  qed (simp add: boundary_attribution_def)
qed

lemma boundary_step_plain:
  assumes "boundary_step ext prof (invalid_attributions comparisons) obs (fs, folded) = Inr (fs', folded')"
    and "list_all (plain prof) fs"
  shows "list_all (plain prof) fs'"
proof -
  have "(\<lambda>(fs, _). list_all (plain prof) fs) (fs', folded')"
  proof (rule rfold_invariant [OF assms(1) [unfolded boundary_step_def]])
    fix kind and s s' :: "finding list \<times> folded_rows"
    obtain gs rows where s: "s = (gs, rows)" by force
    assume "(\<lambda>(fs, _). list_all (plain prof) fs) s"
      and "(\<lambda>(findings, folded). if md_scope (kind_metadata kind) = Scope_Document
         then Inr (findings, btree_push (kind, document obs) obs folded)
         else rbind (simple ext kind (Key_Observation (obs_id obs))
                (boundary_attribution (invalid_attributions comparisons) obs) [obs_id obs]
                (observation_location obs Side_Candidate) prof)
              (\<lambda>f. Inr (findings @ [f], folded))) s = Inr s'"
    then show "(\<lambda>(fs, _). list_all (plain prof) fs) s'"
      by (auto simp: s rbind_Inr_iff boundary_attribution_unresolved dest: simple_fields(5) split: if_splits)
  qed (use assms(2) in simp)
  then show ?thesis by simp
qed

lemma folded_finding_plain: "folded_finding ext prof row = Inr f \<Longrightarrow> plain prof f"
  by (auto simp: folded_finding_def Let_def rbind_Inr_iff plain_def built_def candidate_ids_def trace_ok_def
      dest!: simple_fields(5) split: prod.splits)

text \<open>The findings are those of the failing references and plain ones.\<close>

lemma ordinary_parts:
  assumes "ordinary ext documents comparisons prof site = Inr fs"
  shows "\<exists>failures others. structural_findings ext comparisons prof [] = Inr failures
    \<and> mset fs = mset failures + mset others \<and> list_all (plain prof) others"
proof -
  from assms obtain docs defects fs1 folded rows fs2 fs3 where
    docs: "rfold (\<lambda>doc. document_findings ext doc prof (site_navigation site)) documents [] = Inr docs"
    and defects: "rmap (defect_finding ext prof) (site_defects site) = Inr defects"
    and bound: "rfold (boundary_step ext prof (invalid_attributions comparisons))
        (concat (map candidate_occurrences comparisons)) (docs @ defects, []) = Inr (fs1, folded)"
    and rows: "rmap (folded_finding ext prof) folded = Inr rows"
    and structural: "structural_findings ext comparisons prof (fs1 @ rows) = Inr fs2"
    and compared: "rfold (\<lambda>cmp. comparison_findings ext cmp prof) comparisons fs2 = Inr fs3"
    and fs: "fs = sort_key finding_key fs3"
    unfolding ordinary_def by (auto simp: rbind_Inr_iff)
  have "list_all (plain prof) docs"
    by (rule rfold_invariant [OF docs]) (auto intro: document_findings_plain)
  moreover have "list_all (plain prof) defects"
    by (rule rmap_all [OF defects]) (auto simp: defect_finding_def dest: candidate_fact_finding_plain(1))
  ultimately have "list_all (plain prof) (fst (docs @ defects, [] :: folded_rows))" by simp
  then have first: "list_all (plain prof) (fst (fs1, folded))"
    by (rule rfold_invariant [OF bound]) (metis boundary_step_plain prod.collapse)
  have second: "list_all (plain prof) rows" by (rule rmap_all [OF rows folded_finding_plain])
  from structural obtain failures where failures: "structural_findings ext comparisons prof [] = Inr failures"
      "fs2 = (fs1 @ rows) @ failures"
    by (auto simp: structural_findings_append [of _ _ _ "fs1 @ rows"] rbind_Inr_iff)
  have "\<exists>new. fs2 = fs2 @ new \<and> list_all (plain prof) new" by simp
  then have "\<exists>new. fs3 = fs2 @ new \<and> list_all (plain prof) new"
    by (rule rfold_invariant [OF compared]) (auto dest!: comparison_findings_plain)
  then obtain new where "fs3 = fs2 @ new" "list_all (plain prof) new" by blast
  then show ?thesis using failures first second
    by (intro exI [of _ failures] exI [of _ "fs1 @ rows @ new"]) (simp add: fs)
qed

lemma constructed_parts:
  assumes "constructed ext documents comparisons prof inputs = Inr fs"
  shows "\<exists>failures others. structural_findings ext comparisons prof [] = Inr failures
    \<and> mset fs = mset failures + mset others \<and> list_all (plain prof) others"
proof -
  from assms obtain ord governed claims projections drifts where
    ord: "ordinary ext documents comparisons prof (inputs_site inputs) = Inr ord"
    and governed: "rmap (\<lambda>seed. governed_finding ext seed prof) (inputs_governed inputs) = Inr governed"
    and claims: "rmap (\<lambda>g. claim_finding ext g prof) (inputs_claims inputs) = Inr claims"
    and projections: "rmap (\<lambda>oc. projection_finding ext oc prof) (inputs_projections inputs) = Inr projections"
    and drifts: "rmap (\<lambda>(doc, at_side). document_finding ext TranslationDrift doc at_side prof)
        (inputs_translations inputs) = Inr drifts"
    and fs: "fs = ord @ governed @ claims @ flatten projections @ drifts"
    unfolding constructed_def by (auto simp: rbind_Inr_iff)
  obtain failures others where parts: "structural_findings ext comparisons prof [] = Inr failures"
      "mset ord = mset failures + mset others" "list_all (plain prof) others"
    using ordinary_parts [OF ord] by blast
  have "list_all (plain prof) governed" by (rule rmap_all [OF governed governed_finding_plain])
  moreover have "list_all (plain prof) claims" by (rule rmap_all [OF claims claim_finding_plain])
  moreover have "list_all (plain prof) (flatten projections)"
    by (rule rmap_all_flatten [OF projections projection_finding_plain])
  moreover have "list_all (plain prof) drifts"
    by (rule rmap_all [OF drifts]) (auto intro: document_finding_plain)
  ultimately show ?thesis using parts
    by (intro exI [of _ failures] exI [of _ "others @ governed @ claims @ flatten projections @ drifts"]) (simp add: fs)
qed

lemma constructed_built: "constructed ext documents comparisons prof inputs = Inr fs \<Longrightarrow> list_all (built prof) fs"
proof -
  assume "constructed ext documents comparisons prof inputs = Inr fs"
  then obtain failures others where parts: "structural_findings ext comparisons prof [] = Inr failures"
      "mset fs = mset failures + mset others" "list_all (plain prof) others"
    using constructed_parts by blast
  then have "set fs = set failures \<union> set others" by (metis set_mset_mset set_mset_union)
  with parts structural_findings_built show ?thesis by (force simp: list_all_iff plain_def)
qed

section \<open>Raises and the ratchet\<close>

lemma step_after_current: "finding_steps f \<noteq> [] \<Longrightarrow> step_after (last (finding_steps f)) = current_disposition f"
  by (simp add: current_disposition_def)

definition steps_ok :: "profile \<Rightarrow> finding \<Rightarrow> bool" where
  "steps_ok prof f \<longleftrightarrow> finding_steps f \<noteq> [] \<and> chained Record (finding_steps f)
     \<and> list_all (step_allowed prof) (finding_steps f)"

lemma trace_ok_steps: "trace_ok prof f \<longleftrightarrow> steps_ok prof f \<and> effective_disposition f = current_disposition f"
  by (auto simp: trace_ok_def steps_ok_def current_disposition_def)

lemma steps_ok_push:
  "steps_ok prof f \<Longrightarrow> step_before st = current_disposition f \<Longrightarrow> step_allowed prof st
    \<Longrightarrow> steps_ok prof (push_step f st) \<and> current_disposition (push_step f st) = step_after st"
  by (simp add: steps_ok_def push_step_def chained_snoc current_disposition_def)

lemma trace_ok_extended:
  assumes "trace_ok prof f"
    and "\<exists>st. finding_steps g = finding_steps f @ [st] \<and> effective_disposition g = step_after st
      \<and> step_before st = effective_disposition f \<and> step_allowed prof st"
  shows "trace_ok prof g"
  using assms by (auto simp: trace_ok_def chained_snoc)

lemma apply_raise_steps:
  assumes "steps_ok prof f" and "source = RepositoryPolicy \<or> source = OrganizationFloor"
  shows "steps_ok prof (apply_raise rows source rule f)"
proof -
  have "steps_ok prof (push_step f \<lparr>step_after = target, step_before = current_disposition f,
      step_rule_id = name, step_source = source\<rparr>)" if "current_disposition f < target" for target name
    using assms that by (auto simp: step_allowed_def intro!: steps_ok_push [THEN conjunct1])
  then show ?thesis using assms(1) by (auto simp: apply_raise_def split: option.splits)
qed

text \<open>The fields a policy step leaves alone.\<close>

definition same_finding :: "finding \<Rightarrow> finding \<Rightarrow> bool" where
  "same_finding f g \<longleftrightarrow> key_input g = key_input f \<and> finding_key g = finding_key f
     \<and> finding_attribution g = finding_attribution f \<and> base_fact g = base_fact f
     \<and> candidate_fact g = candidate_fact f \<and> observation_ids g = observation_ids f"

lemma same_finding_raise:
  "same_finding f (apply_raise rows source rule f)"
  "finding_debt (apply_raise rows source rule f) = finding_debt f"
  "finding_waiver (apply_raise rows source rule f) = finding_waiver f"
  by (auto simp: same_finding_def apply_raise_def push_step_def split: option.splits)

lemma raise_finding_built:
  assumes "built prof f"
  shows "built prof (raise_finding policy f)" and "same_finding f (raise_finding policy f)"
proof -
  let ?g = "apply_raise (floor_raised policy) OrganizationFloor ''floor''
      (apply_raise (raised policy) RepositoryPolicy ''repository'' f)"
  have "steps_ok prof f" using assms by (simp add: built_def trace_ok_steps)
  then have steps: "steps_ok prof ?g" by (simp add: apply_raise_steps)
  have same: "same_finding f ?g" "finding_debt ?g = finding_debt f" "finding_waiver ?g = finding_waiver f"
    using same_finding_raise by (simp_all add: same_finding_def)
  show "same_finding f (raise_finding policy f)"
    using same by (simp add: raise_finding_def Let_def same_finding_def)
  let ?h = "?g\<lparr>configured_disposition := current_disposition ?g, effective_disposition := current_disposition ?g\<rparr>"
  have "current_disposition ?h = current_disposition ?g" "steps_ok prof ?h"
    using steps by (simp_all add: current_disposition_def steps_ok_def)
  then have "built prof ?h" if "finding_attribution f \<noteq> Resolved"
    using that same assms by (simp add: built_def trace_ok_steps same_finding_def)
  then show "built prof (raise_finding policy f)"
    using assms by (auto simp: raise_finding_def Let_def)
qed

text \<open>A finding after the ratchet, before exceptions.\<close>

definition ratcheted :: "profile \<Rightarrow> finding \<Rightarrow> bool" where
  "ratcheted prof f \<longleftrightarrow> prof = EnforceIntroduced \<and> finding_attribution f = PreExisting
     \<and> configured_disposition f = Fail \<and> effective_disposition f = Warn"

definition blocks_fairly :: "profile \<Rightarrow> finding \<Rightarrow> bool" where
  "blocks_fairly prof f \<longleftrightarrow> \<not> (effective_disposition f = Fail
     \<and> (finding_attribution f = Resolved \<or> prof = EnforceIntroduced \<and> finding_attribution f = PreExisting))"

definition settled :: "profile \<Rightarrow> finding \<Rightarrow> bool" where
  "settled prof f \<longleftrightarrow> trace_ok prof f \<and> finding_debt f = None \<and> finding_waiver f = None
     \<and> blocks_fairly prof f \<and> (effective_disposition f = configured_disposition f \<or> ratcheted prof f)"

lemma ratchet_settled:
  assumes "built EnforceIntroduced f"
  shows "settled EnforceIntroduced (ratchet f)" and "same_finding f (ratchet f)"
proof -
  show "same_finding f (ratchet f)" by (simp add: ratchet_def push_step_def same_finding_def)
  show "settled EnforceIntroduced (ratchet f)"
  proof (cases "effective_disposition f = Fail \<and> finding_attribution f = PreExisting")
    case True
    have "trace_ok EnforceIntroduced (ratchet f)"
      by (rule trace_ok_extended [of _ f])
        (use True assms in \<open>simp_all add: built_def ratchet_def push_step_def step_allowed_def\<close>)
    with True assms show ?thesis
      by (simp add: ratchet_def settled_def push_step_def ratcheted_def blocks_fairly_def built_def)
  next
    case False
    with assms show ?thesis
      by (auto simp: ratchet_def settled_def blocks_fairly_def built_def)
  qed
qed

lemma built_settled: "built prof f \<Longrightarrow> prof \<noteq> EnforceIntroduced \<Longrightarrow> settled prof f"
  by (auto simp: settled_def built_def blocks_fairly_def)

end
