(* ===== verification/Scan_Exceptions.thy ===== *)
theory Scan_Exceptions
  imports Scan_Trace
begin

text \<open>
  Debt and waivers: the passes of \<open>crates/amiss-scan/src/evaluate/debt.rs\<close> and \<open>waiver.rs\<close> keep
  exactly the items that cover their target, and applying them keeps the trace of a finding
  and leaves a reason for every disposition they lower.
\<close>

section \<open>Exceptions\<close>

text \<open>The finding an exception speaks of: the first with its key and a candidate fact.\<close>

definition target_finding :: "finding list \<Rightarrow> digest \<Rightarrow> finding option" where
  "target_finding findings key = find (\<lambda>f. finding_key f = key \<and> candidate_fact f \<noteq> None) findings"

definition target_row :: "finding list \<Rightarrow> digest \<Rightarrow> nat option \<Rightarrow> bool" where
  "target_row findings key row = (case row of
     None \<Rightarrow> target_finding findings key = None
   | Some i \<Rightarrow> i < length findings \<and> target_finding findings key = Some (findings ! i))"

definition target_ok :: "finding list \<Rightarrow> (digest, nat) btree \<Rightarrow> bool" where
  "target_ok findings targets \<longleftrightarrow> btree_ok targets \<and> (\<forall>key. target_row findings key (map_of targets key))"

lemma target_finding_snoc:
  "target_finding (findings @ [f]) key = (case target_finding findings key of
     Some g \<Rightarrow> Some g
   | None \<Rightarrow> if finding_key f = key \<and> candidate_fact f \<noteq> None then Some f else None)"
  by (induction findings) (auto simp: target_finding_def)

lemma target_row_snoc:
  "target_row findings key row \<Longrightarrow> target_row (findings @ [f]) key
     (if finding_key f = key \<and> candidate_fact f \<noteq> None \<and> row = None then Some (length findings) else row)"
  by (cases row) (simp_all add: target_row_def target_finding_snoc nth_append)

lemma target_ok_snoc:
  assumes "target_ok findings targets"
  shows "target_ok (findings @ [f])
    (if candidate_fact f \<noteq> None then btree_or_insert (finding_key f) (length findings) targets else targets)"
    (is "target_ok _ ?targets")
proof -
  have ok: "btree_ok targets" using assms by (simp add: target_ok_def)
  then have "btree_ok ?targets" by simp
  moreover have "map_of ?targets key = (if finding_key f = key \<and> candidate_fact f \<noteq> None \<and> map_of targets key = None
      then Some (length findings) else map_of targets key)" for key
    using ok by (cases "map_of targets key") (auto simp: btree_or_insert_def btree.lookup_alter)
  ultimately show ?thesis
    using assms target_row_snoc [of findings] by (simp add: target_ok_def)
qed

lemma exception_targets_ok: "target_ok findings (exception_targets findings)"
proof (induction findings rule: rev_induct)
  case Nil
  then show ?case by (simp add: exception_targets_def target_ok_def target_row_def target_finding_def)
next
  case (snoc f findings)
  have "exception_targets (findings @ [f]) = (if candidate_fact f \<noteq> None
      then btree_or_insert (finding_key f) (length findings) (exception_targets findings)
      else exception_targets findings)"
    by (simp add: exception_targets_def enumerate_append_eq)
  then show ?case using target_ok_snoc [OF snoc] by (simp split: if_splits)
qed

text \<open>
  Both passes over exception items keep one contract: an item enters the map of valid
  items, under its finding key, exactly when it covers its target, and what the pass adds to
  the findings is of one sort.
\<close>

locale exception_pass =
  fixes step :: "nat \<times> 'i \<Rightarrow> (digest, nat) btree \<times> finding list
      \<Rightarrow> (error, (digest, nat) btree \<times> finding list) result"
    and covers :: "'i \<Rightarrow> bool"
    and item_key :: "'i \<Rightarrow> digest"
    and row_ok :: "finding \<Rightarrow> bool"
  assumes step_valid: "step (index, item) (valid, extra) = Inr (valid', extra') \<Longrightarrow>
      valid' = (if covers item then btree_insert (item_key item) index valid else valid)"
    and step_rows: "step (index, item) (valid, extra) = Inr (valid', extra') \<Longrightarrow>
      list_all row_ok extra \<Longrightarrow> list_all row_ok extra'"
begin

definition valid_row :: "'i list \<Rightarrow> digest \<Rightarrow> nat option \<Rightarrow> bool" where
  "valid_row items key row = (case row of
     None \<Rightarrow> (\<forall>item \<in> set items. \<not> (covers item \<and> item_key item = key))
   | Some i \<Rightarrow> i < length items \<and> covers (items ! i) \<and> item_key (items ! i) = key)"

definition valid_ok :: "'i list \<Rightarrow> (digest, nat) btree \<Rightarrow> bool" where
  "valid_ok items valid \<longleftrightarrow> btree_ok valid \<and> (\<forall>key. valid_row items key (map_of valid key))"

lemma valid_row_snoc:
  "valid_row items key row \<Longrightarrow> valid_row (items @ [item]) key
     (if covers item \<and> item_key item = key then Some (length items) else row)"
  by (cases row) (auto simp: valid_row_def nth_append)

lemma valid_ok_snoc:
  assumes "valid_ok items valid"
  shows "valid_ok (items @ [item])
    (if covers item then btree_insert (item_key item) (length items) valid else valid)"
    (is "valid_ok _ ?valid")
proof -
  have ok: "btree_ok valid" using assms by (simp add: valid_ok_def)
  then have "map_of ?valid key =
      (if covers item \<and> item_key item = key then Some (length items) else map_of valid key)" for key
    by simp
  with ok assms show ?thesis using valid_row_snoc [of items] by (simp add: valid_ok_def)
qed

lemma pass_ok:
  assumes "rfold step (enumerate 0 items) ([], extra) = Inr (valid, extra')" and "list_all row_ok extra"
  shows "valid_ok items valid \<and> list_all row_ok extra'"
  using assms(1)
proof (induction items arbitrary: valid extra' rule: rev_induct)
  case Nil
  then show ?case using assms(2) by (simp add: valid_ok_def valid_row_def)
next
  case (snoc item items)
  from snoc.prems obtain v rows where init: "rfold step (enumerate 0 items) ([], extra) = Inr (v, rows)"
    and fin: "step (length items, item) (v, rows) = Inr (valid, extra')"
    by (auto simp: enumerate_append_eq rfold_append rbind_Inr_iff)
  from snoc.IH [OF init] show ?case
    using step_valid [OF fin] step_rows [OF fin] valid_ok_snoc [of items v item] by simp
qed

lemma valid_ok_dom: "valid_ok items valid \<Longrightarrow>
    map_of valid key \<noteq> None \<longleftrightarrow> (\<exists>item \<in> set items. covers item \<and> item_key item = key)"
  unfolding valid_ok_def
  by (cases "map_of valid key") (auto simp: valid_row_def dest!: spec [of _ key])

lemma valid_ok_Some: "valid_ok items valid \<Longrightarrow> map_of valid key = Some i \<Longrightarrow>
    i < length items \<and> covers (items ! i) \<and> item_key (items ! i) = key"
  unfolding valid_ok_def by (auto simp: valid_row_def dest!: spec [of _ key])

end

definition target_fact :: "finding list \<Rightarrow> digest \<Rightarrow> digest option" where
  "target_fact findings key =
     (case target_finding findings key of None \<Rightarrow> None | Some g \<Rightarrow> map_option fact_digest (candidate_fact g))"

definition debt_covers :: "finding list \<Rightarrow> utc_instant \<Rightarrow> debt_item \<Rightarrow> bool" where
  "debt_covers findings instant item \<longleftrightarrow> instant < debt_expires_at item
     \<and> target_fact findings (debt_finding_key item) = Some (accepted_fact_digest item)"

definition waiver_covers :: "finding list \<Rightarrow> waiver_context \<Rightarrow> utc_instant \<Rightarrow> waiver_item \<Rightarrow> bool" where
  "waiver_covers findings ctx instant item \<longleftrightarrow> candidate_tree item = context_candidate_tree ctx
     \<and> not_before item \<le> instant \<and> instant < waiver_expires_at item
     \<and> issuer item \<in> set (authorized_issuers ctx) \<and> waiver_owner item \<noteq> issuer item
     \<and> fact_finding_kind (authorized_fact item) \<in> set (waivable_kinds ctx)
     \<and> target_fact findings (waiver_finding_key item) = Some (authorized_fact_digest item)
     \<and> (case target_finding findings (waiver_finding_key item) of
          None \<Rightarrow> False
        | Some g \<Rightarrow> finding_kind_str (kind_of g) = eligible_str (fact_finding_kind (authorized_fact item)))"

lemma target_lookup:
  "(case map_of (exception_targets findings) key of None \<Rightarrow> None | Some i \<Rightarrow> current_fact findings i)
     = target_fact findings key"
  "map_of (exception_targets findings) key = Some i \<Longrightarrow>
     i < length findings \<and> target_finding findings key = Some (findings ! i)"
  "map_of (exception_targets findings) key = None \<Longrightarrow> target_finding findings key = None"
  using exception_targets_ok [of findings]
  by (auto simp: target_ok_def target_row_def target_fact_def current_fact_def get_at_def
      dest!: spec [of _ key] split: option.splits)

definition control_added :: "profile \<Rightarrow> finding \<Rightarrow> bool" where
  "control_added prof f \<longleftrightarrow> plain prof f \<and> finding_attribution f = NotApplicable"

lemma control_row_added: "control_row ext kind rule path digests exc prof = Inr f \<Longrightarrow> control_added prof f"
  by (auto simp: control_added_def dest: control_row_plain)

interpretation debt: exception_pass "debt_step ext findings (exception_targets findings) ctx prof instant"
    "debt_covers findings instant" debt_finding_key "control_added prof"
  for ext findings ctx prof instant
proof
  fix index item valid extra valid' extra'
  assume step: "debt_step ext findings (exception_targets findings) ctx prof instant (index, item) (valid, extra)
      = Inr (valid', extra')"
  note look = target_lookup(1) [of findings "debt_finding_key item"]
  show "valid' = (if debt_covers findings instant item then btree_insert (debt_finding_key item) index valid else valid)"
    using step look
    by (auto simp: debt_step_def debt_covers_def Let_def rbind_Inr_iff not_le split: option.splits if_splits)
  assume "list_all (control_added prof) extra"
  then show "list_all (control_added prof) extra'"
    using step by (auto simp: debt_step_def Let_def rbind_Inr_iff control_row_added split: option.splits if_splits)
qed

lemma waiver_defects_Nil:
  "waiver_defects findings ctx instant item (map_of (exception_targets findings) (waiver_finding_key item)) = []
     \<and> map_of (exception_targets findings) (waiver_finding_key item) \<noteq> None
     \<and> candidate_tree item = context_candidate_tree ctx
   \<longleftrightarrow> waiver_covers findings ctx instant item"
proof (cases "map_of (exception_targets findings) (waiver_finding_key item)")
  case None
  then show ?thesis using target_lookup(3) [OF None] by (simp add: waiver_covers_def)
next
  case (Some i)
  have "current_fact findings i = target_fact findings (waiver_finding_key item)"
    using target_lookup(1) [of findings "waiver_finding_key item"] Some by simp
  then show ?thesis
    using target_lookup(2) [OF Some] Some
    by (auto simp: waiver_covers_def waiver_defects_def get_at_def not_le not_less)
qed

interpretation waiver: exception_pass "waiver_step ext findings (exception_targets findings) ctx prof instant"
    "waiver_covers findings ctx instant" waiver_finding_key "control_added prof"
  for ext findings ctx prof instant
proof
  fix index item valid extra valid' extra'
  assume step: "waiver_step ext findings (exception_targets findings) ctx prof instant (index, item) (valid, extra)
      = Inr (valid', extra')"
  show "valid' = (if waiver_covers findings ctx instant item
      then btree_insert (waiver_finding_key item) index valid else valid)"
    using step unfolding waiver_defects_Nil [symmetric]
    by (auto simp: waiver_step_def Let_def rbind_Inr_iff split: if_splits)
  assume rows: "list_all (control_added prof) extra"
  show "list_all (control_added prof) extra'"
  proof (cases "candidate_tree item = context_candidate_tree ctx")
    case True
    let ?found = "map_of (exception_targets findings) (waiver_finding_key item)"
    let ?current = "case ?found of None \<Rightarrow> None | Some i \<Rightarrow> current_fact findings i"
    have "rfold (\<lambda>ending out. rbind (control_row ext WaiverInvalid
          (''waiver/'' @ artifact_str (waiver_id item) @ ''/'' @ ending) None (None, Some (waiver_context_digest ctx))
          (Some (waiver_diagnostic item (waiver_context_digest ctx) ?current)) prof)
          (\<lambda>f. Inr (out @ [f]))) (waiver_defects findings ctx instant item ?found) extra = Inr extra'"
      using step True by (simp add: waiver_step_def Let_def rbind_Inr_iff)
    from this rows show ?thesis by (rule rfold_invariant) (auto simp: rbind_Inr_iff control_row_added)
  qed (use step rows in \<open>simp add: waiver_step_def Let_def\<close>)
qed

section \<open>Applying exceptions\<close>

lemma debt_applied_trace: "trace_ok prof f \<Longrightarrow> trace_ok prof (debt_applied ctx item f)"
  by (rule trace_ok_extended [of prof f])
    (simp_all add: debt_applied_def push_step_def step_allowed_def trace_ok_steps)

lemma waiver_applied_trace: "trace_ok prof f \<Longrightarrow> trace_ok prof (waiver_applied ctx item f)"
proof (cases "current_disposition f = Fail")
  case True
  assume trace: "trace_ok prof f"
  then have "effective_disposition f = Fail" using True by (simp add: trace_ok_steps)
  with True have "\<exists>st. finding_steps (waiver_applied ctx item f) = finding_steps f @ [st]
      \<and> effective_disposition (waiver_applied ctx item f) = step_after st
      \<and> step_before st = effective_disposition f \<and> step_allowed prof st"
    by (simp add: waiver_applied_def push_step_def step_allowed_def)
  with trace show ?thesis by (rule trace_ok_extended)
qed (simp add: waiver_applied_def)

lemma applied_fields:
  "same_finding f (debt_applied ctx item f)" "configured_disposition (debt_applied ctx item f) = configured_disposition f"
  "effective_disposition (debt_applied ctx item f) = Warn" "finding_waiver (debt_applied ctx item f) = finding_waiver f"
  "same_finding f (waiver_applied wctx witem f)"
  "configured_disposition (waiver_applied wctx witem f) = configured_disposition f"
  "finding_debt (waiver_applied wctx witem f) = finding_debt f"
  by (simp_all add: same_finding_def debt_applied_def waiver_applied_def push_step_def)

text \<open>
  What an exception on a finding stands for: an item of the snapshot or of the bundle that
  covers the finding's key at the evaluation instant.
\<close>

definition debt_sound :: "effects \<Rightarrow> finding list \<Rightarrow> utc_instant \<Rightarrow> finding \<Rightarrow> bool" where
  "debt_sound policy findings instant f = (case finding_debt f of
     None \<Rightarrow> True
   | Some a \<Rightarrow> (case effects_debt policy of
       None \<Rightarrow> False
     | Some ctx \<Rightarrow> list_ex (\<lambda>item. debt_finding_key item = finding_key f \<and> debt_covers findings instant item
           \<and> da_debt_id a = debt_id item \<and> da_accepted_fact_digest a = accepted_fact_digest item
           \<and> da_expires_at a = debt_expires_at item) (debt_context_items ctx)))"

definition waiver_sound :: "effects \<Rightarrow> finding list \<Rightarrow> utc_instant \<Rightarrow> finding \<Rightarrow> bool" where
  "waiver_sound policy findings instant f = (case finding_waiver f of
     None \<Rightarrow> True
   | Some a \<Rightarrow> (case effects_waiver policy of
       None \<Rightarrow> False
     | Some ctx \<Rightarrow> list_ex (\<lambda>item. waiver_finding_key item = finding_key f \<and> waiver_covers findings ctx instant item
           \<and> wa_waiver_id a = waiver_id item \<and> wa_authorized_fact_digest a = authorized_fact_digest item
           \<and> wa_issuer a = issuer item \<and> wa_expires_at a = waiver_expires_at item) (waiver_context_items ctx)))"

definition debt_matches :: "effects \<Rightarrow> finding list \<Rightarrow> utc_instant \<Rightarrow> digest \<Rightarrow> bool" where
  "debt_matches policy findings instant key = (case effects_debt policy of
     None \<Rightarrow> False
   | Some ctx \<Rightarrow> list_ex (\<lambda>item. debt_covers findings instant item \<and> debt_finding_key item = key) (debt_context_items ctx))"

definition waiver_matches :: "effects \<Rightarrow> finding list \<Rightarrow> utc_instant \<Rightarrow> digest \<Rightarrow> bool" where
  "waiver_matches policy findings instant key = (case effects_waiver policy of
     None \<Rightarrow> False
   | Some ctx \<Rightarrow> list_ex (\<lambda>item. waiver_covers findings ctx instant item \<and> waiver_finding_key item = key)
       (waiver_context_items ctx))"

lemma debt_pass_facts:
  assumes "debt_pass ext findings (exception_targets findings) policy prof instant extra = Inr (valid, extra')"
    and "list_all (control_added prof) extra"
  shows "list_all (control_added prof) extra'"
    and "map_of valid key \<noteq> None \<longleftrightarrow> debt_matches policy findings instant key"
    and "map_of valid key = Some i \<Longrightarrow> \<exists>ctx item. effects_debt policy = Some ctx
      \<and> get_at (debt_context_items ctx) i = Some item \<and> item \<in> set (debt_context_items ctx)
      \<and> debt_covers findings instant item \<and> debt_finding_key item = key"
proof -
  have "list_all (control_added prof) extra'
    \<and> (map_of valid key \<noteq> None \<longleftrightarrow> debt_matches policy findings instant key)
    \<and> (map_of valid key = Some i \<longrightarrow> (\<exists>ctx item. effects_debt policy = Some ctx
      \<and> get_at (debt_context_items ctx) i = Some item \<and> item \<in> set (debt_context_items ctx)
      \<and> debt_covers findings instant item \<and> debt_finding_key item = key))" for i
  proof (cases "effects_debt policy")
    case None
    with assms show ?thesis by (simp add: debt_pass_def debt_matches_def)
  next
    case (Some ctx)
    with assms(1) have "rfold (debt_step ext findings (exception_targets findings) ctx prof instant)
        (enumerate 0 (debt_context_items ctx)) ([], extra) = Inr (valid, extra')" by (simp add: debt_pass_def)
    note ok = debt.pass_ok [OF this assms(2)]
    have "map_of valid key \<noteq> None \<longleftrightarrow> debt_matches policy findings instant key"
      using debt.valid_ok_dom [OF ok [THEN conjunct1], of key] Some by (simp add: debt_matches_def list_ex_iff)
    moreover have "get_at (debt_context_items ctx) i = Some (debt_context_items ctx ! i)
        \<and> debt_context_items ctx ! i \<in> set (debt_context_items ctx)
        \<and> debt_covers findings instant (debt_context_items ctx ! i)
        \<and> debt_finding_key (debt_context_items ctx ! i) = key" if "map_of valid key = Some i"
      using debt.valid_ok_Some [OF ok [THEN conjunct1] that] by (simp add: get_at_def)
    ultimately show ?thesis using Some ok by blast
  qed
  then show "list_all (control_added prof) extra'"
    and "map_of valid key \<noteq> None \<longleftrightarrow> debt_matches policy findings instant key"
    and "map_of valid key = Some i \<Longrightarrow> \<exists>ctx item. effects_debt policy = Some ctx
      \<and> get_at (debt_context_items ctx) i = Some item \<and> item \<in> set (debt_context_items ctx)
      \<and> debt_covers findings instant item \<and> debt_finding_key item = key" by blast+
qed

lemma waiver_pass_facts:
  assumes "waiver_pass ext findings (exception_targets findings) policy prof instant extra = Inr (valid, extra')"
    and "list_all (control_added prof) extra"
  shows "list_all (control_added prof) extra'"
    and "map_of valid key \<noteq> None \<longleftrightarrow> waiver_matches policy findings instant key"
    and "map_of valid key = Some i \<Longrightarrow> \<exists>ctx item. effects_waiver policy = Some ctx
      \<and> get_at (waiver_context_items ctx) i = Some item \<and> item \<in> set (waiver_context_items ctx)
      \<and> waiver_covers findings ctx instant item \<and> waiver_finding_key item = key"
proof -
  have "list_all (control_added prof) extra'
    \<and> (map_of valid key \<noteq> None \<longleftrightarrow> waiver_matches policy findings instant key)
    \<and> (map_of valid key = Some i \<longrightarrow> (\<exists>ctx item. effects_waiver policy = Some ctx
      \<and> get_at (waiver_context_items ctx) i = Some item \<and> item \<in> set (waiver_context_items ctx)
      \<and> waiver_covers findings ctx instant item \<and> waiver_finding_key item = key))" for i
  proof (cases "effects_waiver policy")
    case None
    with assms show ?thesis by (simp add: waiver_pass_def waiver_matches_def)
  next
    case (Some ctx)
    with assms(1) have "rfold (waiver_step ext findings (exception_targets findings) ctx prof instant)
        (enumerate 0 (waiver_context_items ctx)) ([], extra) = Inr (valid, extra')" by (simp add: waiver_pass_def)
    note ok = waiver.pass_ok [OF this assms(2)]
    have "map_of valid key \<noteq> None \<longleftrightarrow> waiver_matches policy findings instant key"
      using waiver.valid_ok_dom [OF ok [THEN conjunct1], of key] Some by (simp add: waiver_matches_def list_ex_iff)
    moreover have "get_at (waiver_context_items ctx) i = Some (waiver_context_items ctx ! i)
        \<and> waiver_context_items ctx ! i \<in> set (waiver_context_items ctx)
        \<and> waiver_covers findings ctx instant (waiver_context_items ctx ! i)
        \<and> waiver_finding_key (waiver_context_items ctx ! i) = key" if "map_of valid key = Some i"
      using waiver.valid_ok_Some [OF ok [THEN conjunct1] that] by (simp add: get_at_def)
    ultimately show ?thesis using Some ok by blast
  qed
  then show "list_all (control_added prof) extra'"
    and "map_of valid key \<noteq> None \<longleftrightarrow> waiver_matches policy findings instant key"
    and "map_of valid key = Some i \<Longrightarrow> \<exists>ctx item. effects_waiver policy = Some ctx
      \<and> get_at (waiver_context_items ctx) i = Some item \<and> item \<in> set (waiver_context_items ctx)
      \<and> waiver_covers findings ctx instant item \<and> waiver_finding_key item = key" by blast+
qed

text \<open>What may have lowered a finding.\<close>

definition lowered_only :: "profile \<Rightarrow> finding \<Rightarrow> bool" where
  "lowered_only prof f \<longleftrightarrow>
     (if finding_debt f = None \<and> finding_waiver f = None
      then effective_disposition f = configured_disposition f \<or> ratcheted prof f
      else effective_disposition f = Warn \<and> (finding_debt f = None \<or> finding_waiver f = None))"

definition final :: "profile \<Rightarrow> finding \<Rightarrow> bool" where
  "final prof f \<longleftrightarrow> trace_ok prof f \<and> blocks_fairly prof f \<and> lowered_only prof f"

text \<open>
  The disposition a finding ends with: \<open>warn\<close> under an exception, \<open>warn\<close> for a failure that
  the introduced-only profile attributes to the base, and what is configured otherwise.
\<close>

definition settled_disposition :: "profile \<Rightarrow> finding \<Rightarrow> disposition" where
  "settled_disposition prof f =
     (if finding_debt f \<noteq> None \<or> finding_waiver f \<noteq> None then Warn
      else if prof = EnforceIntroduced \<and> finding_attribution f = PreExisting \<and> configured_disposition f = Fail then Warn
      else configured_disposition f)"

definition disposition_exact :: "profile \<Rightarrow> finding \<Rightarrow> bool" where
  "disposition_exact prof f \<longleftrightarrow>
     effective_disposition f = settled_disposition prof f
     \<and> \<not> (finding_debt f \<noteq> None \<and> finding_waiver f \<noteq> None)
     \<and> \<not> (finding_attribution f = Resolved \<and> effective_disposition f = Fail)"

lemma final_exact: "final prof f \<Longrightarrow> disposition_exact prof f"
  by (auto simp: final_def disposition_exact_def settled_disposition_def lowered_only_def blocks_fairly_def ratcheted_def
      split: if_splits)

lemma settled_final: "settled prof f \<Longrightarrow> final prof f"
  by (auto simp: settled_def final_def lowered_only_def)

lemma control_added_final: "control_added prof f \<Longrightarrow> final prof f"
  by (auto simp: control_added_def plain_def built_def final_def lowered_only_def blocks_fairly_def)

lemma blocks_fairly_Warn: "effective_disposition f = Warn \<Longrightarrow> blocks_fairly prof f"
  by (simp add: blocks_fairly_def)

lemma debt_applied_final: "settled prof f \<Longrightarrow> final prof (debt_applied ctx item f)"
  using debt_applied_trace [of prof f ctx item]
  by (simp add: settled_def final_def lowered_only_def blocks_fairly_def debt_applied_def push_step_def)

lemma waiver_applied_final: "settled prof f \<Longrightarrow> final prof (waiver_applied ctx item f)"
proof (cases "current_disposition f = Fail")
  case True
  moreover assume "settled prof f"
  ultimately show ?thesis
    using waiver_applied_trace [of prof f ctx item]
    by (simp add: settled_def final_def lowered_only_def blocks_fairly_def waiver_applied_def push_step_def)
qed (simp add: waiver_applied_def settled_final)

lemma apply_exception_final: "settled prof f \<Longrightarrow> final prof (fst (apply_exception policy dv wv f))"
  by (auto simp: apply_exception_def settled_final debt_applied_final waiver_applied_final split: option.splits)

lemma apply_exception_same: "same_finding f (fst (apply_exception policy dv wv f))"
proof -
  have "same_finding f f" by (simp add: same_finding_def)
  then show ?thesis by (auto simp: apply_exception_def applied_fields split: option.splits)
qed

lemma apply_exception_overlap:
  "snd (apply_exception policy dv wv f) \<longleftrightarrow> map_of dv (finding_key f) \<noteq> None \<and> map_of wv (finding_key f) \<noteq> None"
  by (auto simp: apply_exception_def split: option.splits)

lemma apply_exception_sound:
  assumes dv: "debt_pass ext findings (exception_targets findings) policy prof instant [] = Inr (dv, rows)"
    and wv: "waiver_pass ext findings (exception_targets findings) policy prof instant rows = Inr (wv, extra)"
    and settled: "settled prof f"
  defines "g \<equiv> fst (apply_exception policy dv wv f)"
  shows "debt_sound policy findings instant g \<and> waiver_sound policy findings instant g"
proof -
  have none: "finding_debt f = None" "finding_waiver f = None" using settled by (simp_all add: settled_def)
  note debt = debt_pass_facts(3) [OF dv] and rows = debt_pass_facts(1) [OF dv]
  note waiver = waiver_pass_facts(3) [OF wv rows]
  consider (debt) i where "map_of dv (finding_key f) = Some i" "map_of wv (finding_key f) = None"
    | (waiver) i where "map_of dv (finding_key f) = None" "map_of wv (finding_key f) = Some i"
    | (same) "g = f" by (cases "map_of dv (finding_key f)"; cases "map_of wv (finding_key f)")
      (auto simp: g_def apply_exception_def)
  then show ?thesis
  proof cases
    case debt
    then obtain ctx item where item: "effects_debt policy = Some ctx" "get_at (debt_context_items ctx) i = Some item"
        "item \<in> set (debt_context_items ctx)" "debt_covers findings instant item"
        "debt_finding_key item = finding_key f"
      using debt_pass_facts(3) [OF dv, of "finding_key f" i] by auto
    then have "g = debt_applied ctx item f" using debt by (simp add: g_def apply_exception_def)
    then show ?thesis using item none
      by (auto simp: debt_sound_def waiver_sound_def debt_applied_def push_step_def list_ex_iff intro!: bexI [of _ item])
  next
    case waiver
    then obtain ctx item where item: "effects_waiver policy = Some ctx" "get_at (waiver_context_items ctx) i = Some item"
        "item \<in> set (waiver_context_items ctx)" "waiver_covers findings ctx instant item"
        "waiver_finding_key item = finding_key f"
      using waiver_pass_facts(3) [OF wv rows, of "finding_key f" i] by auto
    then have g: "g = waiver_applied ctx item f" using waiver by (simp add: g_def apply_exception_def)
    show ?thesis
      using item none unfolding g
      by (cases "current_disposition f = Fail")
        (auto simp: debt_sound_def waiver_sound_def waiver_applied_def push_step_def list_ex_iff intro!: bexI [of _ item])
  next
    case same
    then show ?thesis using none by (simp add: debt_sound_def waiver_sound_def)
  qed
qed

end
