(* ===== verification/Scan_Verdict.thy ===== *)
theory Scan_Verdict
  imports Scan_Exceptions
begin

text \<open>
  The properties of the whole evaluation, \<open>evaluate_with_site\<close> of
  \<open>crates/amiss-scan/src/evaluate/run.rs\<close>: traces, the settled dispositions, sound exceptions,
  the overlap error, and the conservation of failing references.
\<close>

section \<open>The whole evaluation\<close>

definition policed :: "profile \<Rightarrow> effects \<Rightarrow> finding list \<Rightarrow> finding list" where
  "policed prof policy findings =
     (let findings = map (raise_finding policy) findings
      in if prof = EnforceIntroduced then map ratchet findings else findings)"

lemma list_all2_same_map: "list_all (\<lambda>f. same_finding f (h f)) fs \<Longrightarrow> list_all2 same_finding fs (map h fs)"
  by (simp add: list_all2_map2 list_all2_same list_all_iff)

lemma policed_map:
  "policed prof policy findings =
     map (\<lambda>f. if prof = EnforceIntroduced then ratchet (raise_finding policy f) else raise_finding policy f) findings"
  by (simp add: policed_def Let_def comp_def)

lemma policed_settled:
  assumes "list_all (built prof) findings"
  shows "list_all (settled prof) (policed prof policy findings)"
    and "list_all2 same_finding findings (policed prof policy findings)"
proof -
  have f: "settled prof (if prof = EnforceIntroduced then ratchet (raise_finding policy f) else raise_finding policy f)"
      "same_finding f (if prof = EnforceIntroduced then ratchet (raise_finding policy f) else raise_finding policy f)"
    if "built prof f" for f
    using raise_finding_built [OF that, of policy] ratchet_settled [of "raise_finding policy f"] built_settled
    by (auto simp: same_finding_def)
  show "list_all (settled prof) (policed prof policy findings)"
    unfolding policed_map list.pred_map using assms f(1) by (auto simp: list_all_iff comp_def split del: if_split)
  show "list_all2 same_finding findings (policed prof policy findings)"
    unfolding policed_map by (rule list_all2_same_map) (use assms f(2) in \<open>auto simp: list_all_iff split del: if_split\<close>)
qed

lemma apply_exceptions_run:
  assumes "\<not> (effects_debt policy = None \<and> effects_waiver policy = None)" and "effects_time policy = Some time"
    and "apply_exceptions ext policy prof findings = Inr (applied, extra, errors)"
  defines "instant \<equiv> evaluation_instant (time_statement time)"
  shows "\<exists>dv rows wv. debt_pass ext findings (exception_targets findings) policy prof instant [] = Inr (dv, rows)
    \<and> waiver_pass ext findings (exception_targets findings) policy prof instant rows = Inr (wv, extra)
    \<and> applied = map (\<lambda>f. fst (apply_exception policy dv wv f)) findings
    \<and> errors = (if list_ex (\<lambda>f. snd (apply_exception policy dv wv f)) findings
        then [plain_detail Code_ExceptionOverlap] else [])"
proof -
  have "rbind (debt_pass ext findings (exception_targets findings) policy prof instant []) (\<lambda>(dv, rows).
      rbind (waiver_pass ext findings (exception_targets findings) policy prof instant rows) (\<lambda>(wv, extra).
        Inr (map (\<lambda>f. fst (apply_exception policy dv wv f)) findings, extra,
             if list_ex (\<lambda>f. snd (apply_exception policy dv wv f)) findings
             then [plain_detail Code_ExceptionOverlap] else []))) = Inr (applied, extra, errors)"
    using assms(1-3)
    by (simp only: apply_exceptions_def apply_valid_exceptions_def Let_def instant_def prod.case if_False option.case)
  then show ?thesis
    by (cases "debt_pass ext findings (exception_targets findings) policy prof instant []")
      (auto simp: rbind_Inr_iff split: prod.splits if_splits)
qed

lemma apply_exceptions_parts:
  assumes "apply_exceptions ext policy prof findings = Inr (applied, extra, errors)"
    and "list_all (settled prof) findings"
  shows "list_all (final prof) applied" and "list_all (control_added prof) extra"
    and "list_all2 same_finding findings applied"
    and "case effects_time policy of
        None \<Rightarrow> list_all (\<lambda>f. finding_debt f = None \<and> finding_waiver f = None) applied
      | Some time \<Rightarrow> list_all (\<lambda>f. debt_sound policy findings (evaluation_instant (time_statement time)) f
          \<and> waiver_sound policy findings (evaluation_instant (time_statement time)) f) applied"
proof -
  let ?goal = "list_all (final prof) applied \<and> list_all (control_added prof) extra
    \<and> list_all2 same_finding findings applied
    \<and> (case effects_time policy of
        None \<Rightarrow> list_all (\<lambda>f. finding_debt f = None \<and> finding_waiver f = None) applied
      | Some time \<Rightarrow> list_all (\<lambda>f. debt_sound policy findings (evaluation_instant (time_statement time)) f
          \<and> waiver_sound policy findings (evaluation_instant (time_statement time)) f) applied)"
  have refl: "list_all2 same_finding findings findings" by (simp add: list_all2_same same_finding_def)
  have quiet: "list_all (\<lambda>f. finding_debt f = None \<and> finding_waiver f = None) findings"
    using assms(2) by (auto simp: list_all_iff settled_def)
  have ?goal
  proof (cases "effects_debt policy = None \<and> effects_waiver policy = None \<or> effects_time policy = None")
    case True
    with assms(1) have "applied = findings" "extra = []" by (auto simp: apply_exceptions_def split: if_splits)
    with assms(2) refl quiet settled_final show ?thesis
      by (auto simp: list_all_iff debt_sound_def waiver_sound_def split: option.splits)
  next
    case False
    then obtain time where time: "effects_time policy = Some time" by auto
    let ?instant = "evaluation_instant (time_statement time)"
    from False have "\<not> (effects_debt policy = None \<and> effects_waiver policy = None)" by simp
    then obtain dv rows wv where
      dv: "debt_pass ext findings (exception_targets findings) policy prof ?instant [] = Inr (dv, rows)"
      and wv: "waiver_pass ext findings (exception_targets findings) policy prof ?instant rows = Inr (wv, extra)"
      and applied: "applied = map (\<lambda>f. fst (apply_exception policy dv wv f)) findings"
      using apply_exceptions_run [OF _ time assms(1)] by blast
    have "list_all (control_added prof) extra"
      using waiver_pass_facts(1) [OF wv debt_pass_facts(1) [OF dv]] by simp
    moreover have "list_all (final prof) applied"
      using assms(2) by (auto simp: applied list_all_iff apply_exception_final)
    moreover have "list_all2 same_finding findings applied"
      unfolding applied by (rule list_all2_same_map) (simp add: list_all_iff apply_exception_same)
    moreover have "list_all (\<lambda>f. debt_sound policy findings ?instant f \<and> waiver_sound policy findings ?instant f) applied"
      using assms(2) apply_exception_sound [OF dv wv] by (auto simp: applied list_all_iff)
    ultimately show ?thesis by (simp add: time)
  qed
  then show "list_all (final prof) applied" "list_all (control_added prof) extra"
    "list_all2 same_finding findings applied"
    "case effects_time policy of
        None \<Rightarrow> list_all (\<lambda>f. finding_debt f = None \<and> finding_waiver f = None) applied
      | Some time \<Rightarrow> list_all (\<lambda>f. debt_sound policy findings (evaluation_instant (time_statement time)) f
          \<and> waiver_sound policy findings (evaluation_instant (time_statement time)) f) applied"
    by blast+
qed

lemma evaluate_parts:
  assumes "evaluate_with_site ext documents comparisons prof policy inputs = Inr (fs, errors)"
  obtains findings applied extra rows where
    "constructed ext documents comparisons prof inputs = Inr findings"
    "apply_exceptions ext policy prof (policed prof policy findings) = Inr (applied, extra, errors)"
    "list_all (settled prof) (policed prof policy findings)"
    "list_all2 same_finding findings (policed prof policy findings)"
    "list_all (control_added prof) rows"
    "fs = sort_key finding_key (applied @ extra @ rows)"
proof -
  from assms obtain findings applied extra rows where
    made: "constructed ext documents comparisons prof inputs = Inr findings"
    and exc: "apply_exceptions ext policy prof (policed prof policy findings) = Inr (applied, extra, errors)"
    and rows: "rmap (\<lambda>seed. control_finding ext seed policy prof) (controls policy) = Inr rows"
    and fs: "fs = sort_key finding_key (applied @ extra @ rows)"
    unfolding evaluate_with_site_def policed_def Let_def by (auto simp: rbind_Inr_iff)
  have "list_all (control_added prof) rows"
    by (rule rmap_all [OF rows]) (auto simp: control_finding_def control_row_added)
  then show ?thesis using that [OF made exc policed_settled [OF constructed_built [OF made]] _ fs] by blast
qed

lemma evaluate_final:
  assumes "evaluate_with_site ext documents comparisons prof policy inputs = Inr (fs, errors)"
  shows "list_all (final prof) fs"
  using assms
proof (rule evaluate_parts)
  fix findings applied extra rows
  assume exc: "apply_exceptions ext policy prof (policed prof policy findings) = Inr (applied, extra, errors)"
    and settled: "list_all (settled prof) (policed prof policy findings)"
    and rows: "list_all (control_added prof) rows" and fs: "fs = sort_key finding_key (applied @ extra @ rows)"
  show ?thesis
    using apply_exceptions_parts(1,2) [OF exc settled] rows control_added_final by (auto simp: fs list_all_iff)
qed

text \<open>The evaluation fails in one way only.\<close>

lemma fails_internal_simple [internal_intros]: "fails_internal (simple ext kind scope attr ids loc prof)"
  by (auto simp: simple_def Let_def intro!: internal_intros)

lemma fails_internal_candidate_fact [internal_intros]:
  "fails_internal (candidate_fact_finding ext kind scope evidence amount loc prof)"
  by (auto simp: candidate_fact_finding_def intro!: internal_intros)

lemma fails_internal_control_row [internal_intros]:
  "fails_internal (control_row ext kind rule path digests exc prof)"
  by (auto simp: control_row_def intro!: internal_intros)

lemma fails_internal_constructors [internal_intros]:
  "fails_internal (governed_finding ext seed prof)"
  "fails_internal (claim_finding ext g prof)"
  "fails_internal (projection_finding ext oc prof)"
  "fails_internal (document_finding ext kind path at_side prof)"
  "fails_internal (defect_finding ext prof defect)"
  "fails_internal (folded_finding ext prof row)"
  "fails_internal (control_finding ext control policy prof)"
  by (auto simp: governed_finding_def claim_finding_def projection_finding_def document_finding_def
      defect_finding_def folded_finding_def control_finding_def control_fact_finding_def Let_def
      intro!: internal_intros split: option.split sum.split projection_verdict.split prod.split)

lemma fails_internal_parts [internal_intros]:
  "fails_internal (document_findings ext doc prof nav fs)"
  "fails_internal (comparison_findings ext cmp prof fs)"
  "fails_internal (boundary_step ext prof invalid obs state)"
  by (auto simp: document_findings_def comparison_findings_def boundary_step_def Let_def
      intro!: internal_intros split: option.split document_side.split prod.split)

lemma fails_internal_passes [internal_intros]:
  "fails_internal (debt_step ext findings targets dctx prof instant drow state)"
  "fails_internal (waiver_step ext findings targets wctx prof instant wrow state)"
  by (auto simp: debt_step_def waiver_step_def Let_def intro!: internal_intros split: option.split prod.split)

lemma fails_internal_exceptions [internal_intros]: "fails_internal (apply_exceptions ext policy prof findings)"
  by (auto simp: apply_exceptions_def debt_pass_def waiver_pass_def Let_def intro!: internal_intros
      split: option.split prod.split)

lemma fails_internal_evaluate: "fails_internal (evaluate_with_site ext documents comparisons prof policy inputs)"
  by (auto simp: evaluate_with_site_def constructed_def ordinary_def Let_def intro!: internal_intros split: prod.split)

section \<open>Properties of the evaluation\<close>

text \<open>
  C6: Every finding the evaluation returns carries its whole history. The steps form a chain
  that starts at \<open>record\<close>, in which each source of policy did only what it may do, and ends at
  the effective disposition; the findings are ordered by their keys. The only way to fail
  is the internal error.
\<close>

theorem evaluate_trace:
  "case evaluate_with_site ext documents comparisons prof policy inputs of
     Inl e \<Rightarrow> e = Internal
   | Inr (fs, errors) \<Rightarrow> list_all (trace_ok prof) fs \<and> sorted (map finding_key fs)"
proof (cases "evaluate_with_site ext documents comparisons prof policy inputs")
  case (Inl e)
  then show ?thesis using fails_internal_Inl [OF fails_internal_evaluate] by simp
next
  case (Inr r)
  obtain fs errors where r: "r = (fs, errors)" by force
  from Inr r have "list_all (final prof) fs" by (simp add: evaluate_final)
  moreover have "sorted (map finding_key fs)"
    using Inr [unfolded r] by (rule evaluate_parts) simp
  ultimately show ?thesis by (auto simp: Inr r list_all_iff final_def)
qed

text \<open>
  C7: The disposition of every finding is settled exactly. It is \<open>warn\<close> when a debt or a waiver is
  on the finding, never both; it is \<open>warn\<close> when the profile is enforce-introduced and the
  configured failure is attributed pre-existing; and in every other case it is what is
  configured, so under that profile an introduced failure, one of unknown attribution and
  one to which attribution does not apply keep blocking. A resolved finding never fails.
\<close>

theorem evaluate_disposition_exact:
  "case evaluate_with_site ext documents comparisons prof policy inputs of
     Inl e \<Rightarrow> e = Internal
   | Inr (fs, errors) \<Rightarrow> list_all (disposition_exact prof) fs"
proof (cases "evaluate_with_site ext documents comparisons prof policy inputs")
  case (Inl e)
  then show ?thesis using fails_internal_Inl [OF fails_internal_evaluate] by simp
next
  case (Inr r)
  then show ?thesis using evaluate_final final_exact by (cases r) (auto simp: list_all_iff)
qed

lemma target_finding_sort: "target_finding (sort_key finding_key fs) key = target_finding fs key"
proof -
  have find: "find (\<lambda>f. P f \<and> Q f) xs = find Q (filter P xs)" for P Q and xs :: "finding list"
    by (induction xs) auto
  have "filter (\<lambda>f. finding_key f = key) (sort_key finding_key fs) = filter (\<lambda>f. finding_key f = key) fs"
    by (rule sort_key_stable)
  then show ?thesis unfolding target_finding_def find by (rule arg_cong)
qed

lemma target_finding_append:
  "target_finding fs key = Some g \<Longrightarrow> target_finding (fs @ rest) key = Some g"
  by (induction fs) (auto simp: target_finding_def split: if_splits)

lemma target_finding_same:
  assumes "list_all2 same_finding fs gs" and "target_finding fs key = Some f"
  shows "\<exists>g. target_finding gs key = Some g \<and> same_finding f g"
  using assms
proof (induction rule: list_all2_induct)
  case (Cons x xs y ys)
  then show ?case by (auto simp: target_finding_def same_finding_def split: if_splits)
qed (simp add: target_finding_def)

lemma covers_mono:
  assumes "\<And>key f. target_finding fs key = Some f \<Longrightarrow> \<exists>g. target_finding gs key = Some g \<and> same_finding f g"
  shows "debt_covers fs instant item \<Longrightarrow> debt_covers gs instant item"
    and "waiver_covers fs ctx instant witem \<Longrightarrow> waiver_covers gs ctx instant witem"
proof -
  have fact: "target_fact fs key = Some d \<Longrightarrow> target_fact gs key = Some d" for key d
    using assms [of key] by (auto simp: target_fact_def same_finding_def split: option.splits)
  show "debt_covers fs instant item \<Longrightarrow> debt_covers gs instant item"
    using fact by (simp add: debt_covers_def)
  show "waiver_covers fs ctx instant witem \<Longrightarrow> waiver_covers gs ctx instant witem"
    using fact assms [of "waiver_finding_key witem"]
    by (auto simp: waiver_covers_def same_finding_def split: option.splits)
qed

lemma sound_mono:
  assumes "\<And>key f. target_finding fs key = Some f \<Longrightarrow> \<exists>g. target_finding gs key = Some g \<and> same_finding f g"
  shows "debt_sound policy fs instant f \<Longrightarrow> debt_sound policy gs instant f"
    and "waiver_sound policy fs instant f \<Longrightarrow> waiver_sound policy gs instant f"
  using covers_mono [OF assms]
  by (auto simp: debt_sound_def waiver_sound_def list_ex_iff split: option.splits)

text \<open>
  C8: An exception is on a finding only by right. Without a trusted time there is none; with
  one, a finding that carries a debt or a waiver has an item under its own key, unexpired at
  that instant, whose accepted fact is the current fact of the finding of that key; a waiver
  further names the candidate tree, an authorized issuer other than its owner, and a
  waivable kind.
\<close>

theorem evaluate_exceptions_sound:
  "case evaluate_with_site ext documents comparisons prof policy inputs of
     Inl e \<Rightarrow> e = Internal
   | Inr (fs, errors) \<Rightarrow> (case effects_time policy of
       None \<Rightarrow> list_all (\<lambda>f. finding_debt f = None \<and> finding_waiver f = None) fs
     | Some time \<Rightarrow> list_all (\<lambda>f. debt_sound policy fs (evaluation_instant (time_statement time)) f
         \<and> waiver_sound policy fs (evaluation_instant (time_statement time)) f) fs)"
proof (cases "evaluate_with_site ext documents comparisons prof policy inputs")
  case (Inl e)
  then show ?thesis using fails_internal_Inl [OF fails_internal_evaluate] by simp
next
  case (Inr r)
  obtain fs errors where r: "r = (fs, errors)" by force
  obtain findings applied extra rows where
    exc: "apply_exceptions ext policy prof (policed prof policy findings) = Inr (applied, extra, errors)"
    and settled: "list_all (settled prof) (policed prof policy findings)"
    and rows: "list_all (control_added prof) rows" and fs: "fs = sort_key finding_key (applied @ extra @ rows)"
    using Inr [unfolded r] by (rule evaluate_parts)
  note parts = apply_exceptions_parts [OF exc settled]
  have quiet: "finding_debt f = None \<and> finding_waiver f = None" if "f \<in> set (extra @ rows)" for f
    using that parts(2) rows by (auto simp: list_all_iff control_added_def plain_def built_def)
  have into: "\<exists>g. target_finding fs key = Some g \<and> same_finding f g"
    if "target_finding (policed prof policy findings) key = Some f" for key f
    using target_finding_same [OF parts(3) that] target_finding_append
    by (auto simp: fs target_finding_sort)
  show ?thesis
  proof (cases "effects_time policy")
    case None
    with parts(4) quiet show ?thesis by (auto simp: Inr r fs list_all_iff)
  next
    case (Some time)
    let ?at = "evaluation_instant (time_statement time)"
    have "debt_sound policy fs ?at f \<and> waiver_sound policy fs ?at f" if "f \<in> set applied" for f
      using parts(4) that Some sound_mono [OF into] by (auto simp: list_all_iff)
    moreover have "debt_sound policy fs ?at f \<and> waiver_sound policy fs ?at f" if "f \<in> set (extra @ rows)" for f
      using quiet [OF that] by (simp add: debt_sound_def waiver_sound_def)
    moreover have "set fs = set applied \<union> set (extra @ rows)" by (simp add: fs)
    ultimately show ?thesis by (auto simp: Inr r Some list_all_iff)
  qed
qed

text \<open>
  C9: The overlap error is reported exactly when one finding is matched by a valid debt item
  and a valid waiver at once, and then neither is applied to it.
\<close>

theorem apply_exceptions_overlap:
  "case apply_exceptions ext policy prof findings of
     Inl e \<Rightarrow> e = Internal
   | Inr (applied, extra, errors) \<Rightarrow>
       let both = (\<lambda>f. case effects_time policy of
             None \<Rightarrow> False
           | Some time \<Rightarrow> debt_matches policy findings (evaluation_instant (time_statement time)) (finding_key f)
               \<and> waiver_matches policy findings (evaluation_instant (time_statement time)) (finding_key f))
       in errors = (if list_ex both findings then [plain_detail Code_ExceptionOverlap] else [])
          \<and> list_all2 (\<lambda>f g. if both f then g = f else same_finding f g) findings applied"
proof (cases "apply_exceptions ext policy prof findings")
  case (Inl e)
  then show ?thesis using fails_internal_Inl [OF fails_internal_exceptions] by simp
next
  case (Inr r)
  obtain applied extra errors where r: "r = (applied, extra, errors)" by (cases r)
  have refl: "same_finding f f" for f by (simp add: same_finding_def)
  show ?thesis
  proof (cases "effects_debt policy = None \<and> effects_waiver policy = None \<or> effects_time policy = None")
    case True
    with Inr r have "applied = findings" "errors = []" by (auto simp: apply_exceptions_def split: if_splits)
    with True refl show ?thesis
      by (auto simp: Inr r debt_matches_def list_ex_iff list_all2_same split: option.splits)
  next
    case False
    then obtain time where time: "effects_time policy = Some time" by auto
    let ?at = "evaluation_instant (time_statement time)"
    from False have "\<not> (effects_debt policy = None \<and> effects_waiver policy = None)" by simp
    then obtain dv rows wv where
      dv: "debt_pass ext findings (exception_targets findings) policy prof ?at [] = Inr (dv, rows)"
      and wv: "waiver_pass ext findings (exception_targets findings) policy prof ?at rows = Inr (wv, extra)"
      and applied: "applied = map (\<lambda>f. fst (apply_exception policy dv wv f)) findings"
      and errors: "errors = (if list_ex (\<lambda>f. snd (apply_exception policy dv wv f)) findings
        then [plain_detail Code_ExceptionOverlap] else [])"
      using apply_exceptions_run [OF _ time] Inr r by blast
    have both: "snd (apply_exception policy dv wv f) \<longleftrightarrow>
        debt_matches policy findings ?at (finding_key f) \<and> waiver_matches policy findings ?at (finding_key f)" for f
      using debt_pass_facts(1,2) [OF dv] waiver_pass_facts(2) [OF wv]
      by (simp add: apply_exception_overlap)
    have kept: "fst (apply_exception policy dv wv f) = f" if "snd (apply_exception policy dv wv f)" for f
      using that by (auto simp: apply_exception_def split: option.splits)
    have "list_all2 (\<lambda>f g. if snd (apply_exception policy dv wv f) then g = f else same_finding f g) findings applied"
      using kept apply_exception_same by (simp add: applied list_all2_map2 list_all2_same)
    with errors show ?thesis by (simp add: Inr r time both)
  qed
qed

lemma candidate_ids_same: "same_finding f g \<Longrightarrow> candidate_ids g = candidate_ids f"
  by (simp add: same_finding_def candidate_ids_def)

lemma candidate_ids_all2: "list_all2 same_finding fs gs \<Longrightarrow> map candidate_ids gs = map candidate_ids fs"
  by (induction rule: list_all2_induct) (auto simp: candidate_ids_same)

lemma mset_concat_cong: "mset xs = mset ys \<Longrightarrow> mset (concat (map h xs)) = mset (concat (map h ys))"
  by (metis mset_concat mset_map sum_mset_sum_list)

lemma plain_ids: "list_all (plain prof) fs \<Longrightarrow> concat (map candidate_ids fs) = []"
  by (auto simp: list_all_iff plain_def)

text \<open>
  C5: No failing reference is lost or counted twice on the way to the report. Whatever the
  policy and the exceptions, the observations that the returned findings with a candidate
  fact stand for are, with multiplicities, the candidate observations whose target is missing
  or of the wrong type.
\<close>

theorem evaluate_conserves:
  "case evaluate_with_site ext documents comparisons prof policy inputs of
     Inl e \<Rightarrow> e = Internal
   | Inr (fs, errors) \<Rightarrow>
       mset (concat (map candidate_ids fs)) =
         mset (map obs_id (filter (\<lambda>obs. structural_kind obs \<noteq> None) (concat (map candidate_occurrences comparisons))))"
proof (cases "evaluate_with_site ext documents comparisons prof policy inputs")
  case (Inl e)
  then show ?thesis using fails_internal_Inl [OF fails_internal_evaluate] by simp
next
  case (Inr r)
  obtain fs errors where r: "r = (fs, errors)" by force
  obtain findings applied extra rows where
    made: "constructed ext documents comparisons prof inputs = Inr findings"
    and exc: "apply_exceptions ext policy prof (policed prof policy findings) = Inr (applied, extra, errors)"
    and settled: "list_all (settled prof) (policed prof policy findings)"
    and same: "list_all2 same_finding findings (policed prof policy findings)"
    and rows: "list_all (control_added prof) rows" and fs: "fs = sort_key finding_key (applied @ extra @ rows)"
    using Inr [unfolded r] by (rule evaluate_parts)
  note parts = apply_exceptions_parts [OF exc settled]
  obtain failures others where failures: "structural_findings ext comparisons prof [] = Inr failures"
    and split: "mset findings = mset (failures @ others)" and others: "list_all (plain prof) others"
    using constructed_parts [OF made] by (metis mset_append)
  have "list_all (plain prof) (extra @ rows)"
    using parts(2) rows by (auto simp: list_all_iff control_added_def)
  then have "mset (concat (map candidate_ids fs)) = mset (concat (map candidate_ids applied))"
    using mset_concat_cong [of fs "applied @ extra @ rows" candidate_ids] plain_ids [of prof "extra @ rows"]
    by (simp add: fs)
  also have "\<dots> = mset (concat (map candidate_ids findings))"
    using candidate_ids_all2 [OF parts(3)] candidate_ids_all2 [OF same] by simp
  also have "\<dots> = mset (concat (map candidate_ids failures))"
    using mset_concat_cong [OF split, of candidate_ids] plain_ids [OF others] by simp
  finally show ?thesis
    using structural_findings_conserve [where ext = ext and comparisons = comparisons and prof = prof] by (simp add: Inr r failures)
qed

end
