(* ===== verification/Spec2Isabelle.thy ===== *)
theory Spec2Isabelle
  imports Wire_Path Wire_Digest Wire_Time Wire_Identity Wire_Taxonomy Wire_Resolution
    Wire_Names Wire_Controls Wire_Policy Wire_Errors
    Scan_Resources Scan_Forest Scan_Components Scan_Linking Scan_Correlate Scan_Renames Scan_Policy
    Text_Ops Wire_Uri Wire_Extraction Scan_Route Scan_Fixes Scan_Findings Scan_Structural Scan_Evaluate
    Scan_Trace Scan_Exceptions Scan_Verdict
begin

text \<open>
  Amiss is a scanner for the references of a repository's documents. One run reads two trees
  of a repository, the base and the candidate of a change, extracts every link and governed
  comment of their documents, resolves each against its tree, pairs the observations of the
  two sides, and reports what the change broke, under a policy and with exceptions that are
  themselves checked documents. Paths below are relative to \<open>src/crates\<close>.

  \<^bold>\<open>The parts and how they interact.\<close> The crate \<open>amiss-wire\<close> holds the values every other
  crate exchanges: paths, digests, instants, identities, the closed vocabularies, the
  resolutions, the control documents and the rows of the report. \<open>amiss-git\<close> reads the
  object store. \<open>amiss-md\<close>, \<open>amiss-adoc\<close> and \<open>amiss-rst\<close> extract references. \<open>amiss-scan\<close> is the
  scanner: it meters what it reads (\<open>resources.rs\<close>), maps routes to files (\<open>route.rs\<close>),
  resolves references, correlates the two sides (\<open>correlate.rs\<close>), verifies and compares the
  policies (\<open>policy.rs\<close>), and turns comparison rows into findings (\<open>evaluate/\<close>). \<open>amiss\<close>
  is the command line.

  \<^bold>\<open>Conventions.\<close> A byte is the eight-bit \<open>char\<close>, a byte slice and a string are byte lists, a
  \<open>u64\<close> is a \<open>64 word\<close>, a \<open>usize\<close> is a \<open>nat\<close>. A Rust \<open>Result\<close> is a sum whose left side is the
  error and \<open>?\<close> is \<open>rbind\<close>; a loop that may return early is \<open>rfold\<close> or \<open>rmap\<close>. A \<open>BTreeMap\<close> is
  a sorted association list with distinct keys. Saturating and checked arithmetic is
  written out. A struct is a record, an enumeration a datatype in the order of the source,
  so that a derived \<open>Ord\<close> is the order of the declarations. Every definition computes; no
  definition uses fuel, since each loop of the modelled code is a recursion on a list or has
  a decreasing measure: the parent walk of the forest (\<open>Scan_Forest\<close>) decreases the size of the
  parent table, the ancestor walk (\<open>Scan_Route\<close>) the length of the path.

  \<^bold>\<open>Parameters.\<close> SHA-256, the hex and percent codecs, the canonical JSON writers and the
  extractor are code outside the repository or behind it. They are arguments of the
  definitions that call them (the record \<open>externals\<close> collects those of the evaluation), and
  what a property needs of them is a hypothesis of that property, with a witness at a
  concrete function.

  \<^bold>\<open>The theories.\<close>

  \<^item> \<open>Prelude\<close>, \<open>Text_Ops\<close>, \<open>Btree\<close>: bytes, results, UTF-8, slice operations, and the
    ordered map with its interface, the locale \<open>ordered_map\<close>.
  \<^item> \<open>Wire_Path\<close>, \<open>Wire_Digest\<close>, \<open>Wire_Time\<close>, \<open>Wire_Identity\<close> (\<open>amiss-wire/src/model\<close>): the byte
    scanner of paths against the specification by components; one representation for each
    byte string; canonical wire forms; instants whose text order is the order of time,
    inverse to the epoch seconds; which branch references and identities are accepted.
  \<^item> \<open>Wire_Taxonomy\<close>, \<open>Wire_Names\<close>, \<open>Wire_Resolution\<close>, \<open>Wire_Errors\<close>: the closed vocabularies with
    their orders and spellings, the resolution of a reference, the error rows.
  \<^item> \<open>Wire_Controls\<close>, \<open>Wire_Policy\<close> (\<open>amiss-wire/src/controls\<close>): the debt snapshot, waiver bundle,
    repository policy, organization floor, trusted time and execution constraint; for each, an
    equivalence that says exactly which documents the validator accepts.
  \<^item> \<open>Wire_Uri\<close>, \<open>Wire_Extraction\<close>: the destination grammars, the escaping of international texts
    and its round trip, governed comments, and the span of a destination.
  \<^item> \<open>Scan_Resources\<close>: limits and meters (the locale \<open>meter\<close> has one interpretation for every
    counter); a charge succeeds exactly when the true sum is within the limit, and a run of
    charges keeps the accounts.
  \<^item> \<open>Scan_Route\<close>: the router table, the spellings and claims of routes, path normalization as a
    refinement of a component stack, the ancestor search.
  \<^item> \<open>Scan_Forest\<close>, \<open>Scan_Components\<close>, \<open>Scan_Linking\<close>, \<open>Scan_Renames\<close>, \<open>Scan_Correlate\<close>: the
    disjoint-set forest implements a partition (the locale \<open>disjoint_sets\<close>), the components of
    the correlation are the connected components of plausible edges although only a spanning
    tree is linked, every observation occurs once, rows are ordered, and the aligned path
    agrees with the general one.
  \<^item> \<open>Scan_Policy\<close>: the bindings of the controls, the tightening of limits, and the comparison of
    two policies, which is silent exactly when nothing was weakened.
  \<^item> \<open>Scan_Fixes\<close>: the edits a finding proposes; a relocation leads to the new place of its
    target, and a respelled claim is read back as the same claim.
  \<^item> \<open>Scan_Findings\<close>, \<open>Scan_Structural\<close>, \<open>Scan_Evaluate\<close> (\<open>amiss-scan/src/evaluate\<close>): the findings,
    their constructors, the grouping of failing references, raises, the ratchet, debt and
    waivers, and the evaluation itself.
  \<^item> \<open>Scan_Trace\<close>, \<open>Scan_Exceptions\<close>, \<open>Scan_Verdict\<close>: what the evaluation promises. Every finding
    carries the chain of its dispositions; nothing that existed before fails under
    enforce-introduced; an exception is there only by right (the locale \<open>exception_pass\<close> is
    interpreted for debt and for waivers); the overlap error is exact; no failing reference
    is lost or counted twice; and the evaluation returns.

  \<^bold>\<open>Not modelled.\<close> The object store and pack reader (\<open>amiss-git\<close>) and everything that drives it:
  discovery, the anchors, the resolver, policy acquisition, the pipeline. Their results
  depend on files and inflate streams, and they enter the model as observations and
  documents. The document parsers, which are walks over the trees of third-party parsers;
  only the carriers of governed comments are here. The line readers of the configuration files of site generators in \<open>route.rs\<close>. Serialization: the
  derived serde code and the canonical JSON writer are parameters, so envelopes and report
  bytes are not modelled. The terminal renderer, the command line, the bootstrap process,
  the controller services, the HTTP interface and the fixtures are I/O or test data.
\<close>

end
